(* ===== verification/Prelude.thy ===== *)
theory Prelude
  imports Main "HOL-Library.Word"
begin

text \<open>
  The vocabulary shared by every component: bytes and C strings, the named collections that the
  component proofs use, and generic facts on lists.

  A C string (a \<^verbatim>\<open>char *\<close>, or a \<^verbatim>\<open>char[N]\<close> that holds one) is the \<^typ>\<open>string\<close> in front of its
  terminating NUL. A raw buffer (\<^verbatim>\<open>uint8_t *\<close>) is a list of \<open>8 word\<close>. A pointer parameter that the
  code compares with \<^verbatim>\<open>NULL\<close> is an \<open>option\<close>, \<^const>\<open>None\<close> being \<^verbatim>\<open>NULL\<close>.
\<close>

section \<open>Collections\<close>

named_theorems wp_simps \<open>weakest preconditions of the machine's primitives\<close>
named_theorems vcg \<open>introduction rules for the weakest precondition of a running process\<close>
named_theorems emits_intros \<open>structural rules for the footprint of an operation\<close>
named_theorems returns_intros \<open>structural rules for the values an operation returns\<close>
named_theorems ops \<open>definitions of the modelled operations, unfolded when one is executed\<close>
named_theorems lits \<open>literals of the source: paths, sizes and codes\<close>

section \<open>Types\<close>

type_synonym byte = "8 word"
type_synonym u16 = "16 word"
type_synonym u32 = "32 word"
type_synonym u64 = "64 word"

section \<open>Return codes\<close>

abbreviation (input) EXIT_SUCCESS :: int where "EXIT_SUCCESS \<equiv> 0"
abbreviation (input) EXIT_FAILURE :: int where "EXIT_FAILURE \<equiv> 1"

section \<open>Bytes and characters\<close>

definition char_of_byte :: "byte \<Rightarrow> char" where
  "char_of_byte b = char_of (unat b)"

definition byte_of_char :: "char \<Rightarrow> byte" where
  "byte_of_char c = of_nat (of_char c)"

lemma unat_byte_of_char [simp]: "unat (byte_of_char c) = of_char c"
  by (simp add: byte_of_char_def unat_of_nat)

lemma char_of_byte_of_char [simp]: "char_of_byte (byte_of_char c) = c"
  by (simp add: char_of_byte_def)

lemma unat_byte_less [simp]: "unat (b :: byte) < 256"
proof -
  have "(unsigned b :: nat) < 2 ^ LENGTH(8)" by (rule unsigned_less)
  then show ?thesis by simp
qed

lemma of_char_char_of_byte [simp]: "of_char (char_of_byte b) = unat b"
  by (simp add: char_of_byte_def)

lemma byte_of_char_of_byte [simp]: "byte_of_char (char_of_byte b) = b"
  by (simp add: byte_of_char_def)

lemma char_of_byte_eq_iff [simp]: "char_of_byte a = char_of_byte b \<longleftrightarrow> a = b"
  by (metis byte_of_char_of_byte)

lemma byte_of_char_eq_iff [simp]: "byte_of_char a = byte_of_char b \<longleftrightarrow> a = b"
  by (metis char_of_byte_of_char)

section \<open>Lists\<close>

lemma takeWhile_hit: "(\<forall>x \<in> set a. P x) \<Longrightarrow> \<not> P c \<Longrightarrow> takeWhile P (a @ c # b) = a"
  by (induction a) auto

lemma dropWhile_hit: "(\<forall>x \<in> set a. P x) \<Longrightarrow> \<not> P c \<Longrightarrow> dropWhile P (a @ c # b) = c # b"
  by (induction a) auto

lemma takeWhile_all: "(\<forall>x \<in> set a. P x) \<Longrightarrow> takeWhile P a = a"
  by (induction a) auto

lemma dropWhile_all: "(\<forall>x \<in> set a. P x) \<Longrightarrow> dropWhile P a = []"
  by (induction a) auto

lemma takeWhile_neq [simp]: "c \<notin> set a \<Longrightarrow> takeWhile (\<lambda>x. x \<noteq> c) (a @ c # b) = a"
  by (induction a) auto

lemma dropWhile_neq [simp]: "c \<notin> set a \<Longrightarrow> dropWhile (\<lambda>x. x \<noteq> c) (a @ c # b) = c # b"
  by (induction a) auto

text \<open>Bytes written over the beginning of a buffer.\<close>
definition overlay :: "'a list \<Rightarrow> 'a list \<Rightarrow> 'a list" where
  "overlay new old = new @ drop (length new) old"

lemma overlay_Nil [simp]: "overlay [] old = old"
  by (simp add: overlay_def)

lemma length_overlay [simp]: "length (overlay new old) = max (length new) (length old)"
  by (simp add: overlay_def)

lemma overlay_full [simp]: "length new = length old \<Longrightarrow> overlay new old = new"
  by (simp add: overlay_def)

text \<open>A text written into a buffer from an offset on.\<close>
definition write_at :: "nat \<Rightarrow> 'a list \<Rightarrow> 'a list \<Rightarrow> 'a list" where
  "write_at off new old = take off old @ overlay new (drop off old)"

lemma length_write_at [simp]: "off + length new \<le> length old \<Longrightarrow> length (write_at off new old) = length old"
  by (simp add: write_at_def)

lemma write_at_zero [simp]: "write_at 0 new old = overlay new old"
  by (simp add: write_at_def)

text \<open>An element that is not in the first part of a list splits the second one.\<close>
lemma split_behind:
  "before @ e # after = a @ b \<Longrightarrow> e \<notin> set a \<Longrightarrow> \<exists>us. before = a @ us \<and> b = us @ e # after"
proof (induction a arbitrary: before)
  case (Cons x xs)
  then show ?case by (cases before) auto
qed simp

lemmas while_hits = takeWhile_hit dropWhile_hit takeWhile_all dropWhile_all

section \<open>Words without wrap-around\<close>

lemma unat_u64_less: "unat (a :: u64) < 2 ^ 64"
proof -
  have "unat a < 2 ^ LENGTH(64)" by (rule unsigned_less)
  then show ?thesis by simp
qed

lemma unat_add_exact: "unat (a :: u64) + unat b < 2 ^ 64 \<Longrightarrow> unat (a + b) = unat a + unat b"
  by (simp add: unat_word_ariths)

lemma unat_mult_exact: "unat (a :: u64) * unat b < 2 ^ 64 \<Longrightarrow> unat (a * b) = unat a * unat b"
  by (simp add: unat_word_ariths)

end
