(* ===== verification/CString.thy ===== *)
theory CString
  imports Prelude
begin

text \<open>
  The part of the C library's string handling that cominit uses, on NUL-free strings:
  \<^verbatim>\<open>strtok_r\<close>, \<^verbatim>\<open>strtoul\<close>/\<^verbatim>\<open>strtoull\<close> (64 bit), \<^verbatim>\<open>strchr\<close>, \<^verbatim>\<open>strstr\<close>, prefix comparison with
  \<^verbatim>\<open>strncmp\<close>, and the \<^verbatim>\<open>snprintf\<close> conversions \<^verbatim>\<open>%u\<close>, \<^verbatim>\<open>%lu\<close> and \<^verbatim>\<open>%0nx\<close>. The tokeniser and the hex
  printer are used through the locales \<open>tokeniser\<close> and \<open>fixed_codec\<close>, which state what their
  callers rely on.
\<close>

section \<open>Comparison and search\<close>

text \<open>\<^verbatim>\<open>strncmp(s, p, strlen(p)) == 0\<close>\<close>
definition starts_with :: "string \<Rightarrow> string \<Rightarrow> bool" where
  "starts_with s p \<longleftrightarrow> take (length p) s = p"

lemma starts_with_iff: "starts_with s p \<longleftrightarrow> (\<exists>t. s = p @ t)"
  by (auto simp: starts_with_def) (metis append_take_drop_id)

lemma starts_with_append [simp]: "starts_with (p @ t) p"
  by (simp add: starts_with_def)

text \<open>\<^verbatim>\<open>strchr\<close> and the code's habit of writing a NUL at the hit: the string in front of the first
  occurrence and the string behind it.\<close>
definition cut_at :: "char \<Rightarrow> string \<Rightarrow> (string \<times> string) option" where
  "cut_at c s = (if c \<in> set s
     then Some (takeWhile (\<lambda>x. x \<noteq> c) s, tl (dropWhile (\<lambda>x. x \<noteq> c) s)) else None)"

lemma cut_at_append [simp]: "c \<notin> set a \<Longrightarrow> cut_at c (a @ c # b) = Some (a, b)"
  by (auto simp: cut_at_def)

lemma cut_at_eq_Some: "cut_at c s = Some (a, b) \<longleftrightarrow> c \<notin> set a \<and> s = a @ c # b"
proof
  assume h: "cut_at c s = Some (a, b)"
  then have "c \<in> set s" by (auto simp: cut_at_def split: if_splits)
  then obtain u v where uv: "s = u @ c # v" "c \<notin> set u" by (auto dest: split_list_first)
  with h show "c \<notin> set a \<and> s = a @ c # b" by simp
qed auto

text \<open>\<^verbatim>\<open>strstr\<close>: the suffix that begins at the first occurrence, with what is in front of it.\<close>
fun find_sub :: "string \<Rightarrow> string \<Rightarrow> (string \<times> string) option" where
  "find_sub p [] = (if p = [] then Some ([], []) else None)"
| "find_sub p (c # s) =
     (if starts_with (c # s) p then Some ([], c # s)
      else map_option (\<lambda>(a, b). (c # a, b)) (find_sub p s))"

lemma find_sub_Some: "find_sub p s = Some (a, b) \<Longrightarrow> s = a @ b \<and> starts_with b p"
proof (induction s arbitrary: a)
  case Nil
  then show ?case by (auto simp: starts_with_def split: if_splits)
next
  case (Cons c s)
  then show ?case by (auto split: if_splits)
qed

section \<open>\<^verbatim>\<open>strtok_r\<close>\<close>

text \<open>One call: the token and the saved position, or \<^verbatim>\<open>NULL\<close>. With no delimiters the token is the
  whole rest.\<close>
definition strtok_r :: "string \<Rightarrow> string \<Rightarrow> (string \<times> string) option" where
  "strtok_r delim s =
     (let s' = dropWhile (\<lambda>c. c \<in> set delim) s in
      if s' = [] then None
      else Some (takeWhile (\<lambda>c. c \<notin> set delim) s',
                 drop 1 (dropWhile (\<lambda>c. c \<notin> set delim) s')))"

text \<open>What a caller of the tokeniser relies on: a token is a non-empty run of non-delimiters, the
  saved position is strictly further, and a string that begins with such a run yields it.\<close>
locale tokeniser =
  fixes next_token :: "string \<Rightarrow> (string \<times> string) option"
    and is_delim :: "char \<Rightarrow> bool"
  assumes token_nonempty: "next_token s = Some (t, r) \<Longrightarrow> t \<noteq> []"
    and token_clean: "next_token s = Some (t, r) \<Longrightarrow> c \<in> set t \<Longrightarrow> \<not> is_delim c"
    and rest_shorter: "next_token s = Some (t, r) \<Longrightarrow> length r + length t \<le> length s"
    and token_part: "next_token s = Some (t, r) \<Longrightarrow> set t \<union> set r \<subseteq> set s"
    and token_first: "t \<noteq> [] \<Longrightarrow> (\<forall>c \<in> set t. \<not> is_delim c) \<Longrightarrow> is_delim d \<Longrightarrow>
                      next_token (t @ d # r) = Some (t, r)"
    and token_last: "t \<noteq> [] \<Longrightarrow> (\<forall>c \<in> set t. \<not> is_delim c) \<Longrightarrow> next_token t = Some (t, [])"
    and token_none: "next_token [] = None"
begin

lemma rest_less: "next_token s = Some (t, r) \<Longrightarrow> length r < length s"
  using token_nonempty [of s t r] rest_shorter [of s t r] by (cases t) auto

lemma token_length: "next_token s = Some (t, r) \<Longrightarrow> length t \<le> length s"
  using rest_shorter by fastforce

lemma token_word:
  "t \<noteq> [] \<Longrightarrow> (\<forall>c \<in> set t. \<not> is_delim c) \<Longrightarrow> is_delim d \<Longrightarrow>
   next_token (t @ (if more then d # r else [])) = Some (t, if more then r else [])"
  using token_first token_last by auto

end

interpretation strtok: tokeniser "strtok_r delim" "\<lambda>c. c \<in> set delim"
proof unfold_locales
  fix s t r c d
  {
    assume h: "strtok_r delim s = Some (t, r)"
    let ?s = "dropWhile (\<lambda>c. c \<in> set delim) s"
    from h have ne: "?s \<noteq> []" and t: "t = takeWhile (\<lambda>c. c \<notin> set delim) ?s"
      and r: "r = drop 1 (dropWhile (\<lambda>c. c \<notin> set delim) ?s)"
      by (auto simp: strtok_r_def Let_def split: if_splits)
    have hd: "hd ?s \<notin> set delim" using ne by (rule hd_dropWhile)
    show "t \<noteq> []" using ne hd t by (cases ?s) auto
    show "c \<in> set t \<Longrightarrow> c \<notin> set delim" using t by (auto dest: set_takeWhileD)
    have le: "length ?s \<le> length s" by (rule length_dropWhile_le)
    have "length t + length (dropWhile (\<lambda>c. c \<notin> set delim) ?s) = length ?s"
      unfolding t by (metis length_append takeWhile_dropWhile_id)
    then show "length r + length t \<le> length s" using le r by simp
    show "set t \<union> set r \<subseteq> set s"
      unfolding t r by (auto dest!: set_takeWhileD in_set_dropD set_dropWhileD)
  }
  show "t \<noteq> [] \<Longrightarrow> \<forall>c\<in>set t. c \<notin> set delim \<Longrightarrow> d \<in> set delim \<Longrightarrow>
      strtok_r delim (t @ d # r) = Some (t, r)"
    by (cases t) (auto simp: strtok_r_def while_hits)
  show "t \<noteq> [] \<Longrightarrow> \<forall>c\<in>set t. c \<notin> set delim \<Longrightarrow> strtok_r delim t = Some (t, [])"
    by (cases t) (auto simp: strtok_r_def while_hits)
  show "strtok_r delim [] = None" by (simp add: strtok_r_def)
qed

lemma strtok_r_rest [simp]: "strtok_r [] s = (if s = [] then None else Some (s, []))"
  by (auto simp: strtok_r_def while_hits)

text \<open>All tokens of a string, as a \<^verbatim>\<open>while ((t = strtok_r(NULL, ...)) != NULL)\<close> loop visits them.\<close>
function tokens :: "string \<Rightarrow> string \<Rightarrow> string list" where
  "tokens delim s = (case strtok_r delim s of None \<Rightarrow> [] | Some (t, r) \<Rightarrow> t # tokens delim r)"
  by pat_completeness auto
termination
  by (relation "measure (\<lambda>(d, s). length s)") (auto dest: strtok.rest_less)

declare tokens.simps [simp del]

lemma tokens_Some [simp]: "strtok_r delim s = Some (t, r) \<Longrightarrow> tokens delim s = t # tokens delim r"
  by (simp add: tokens.simps [of delim s])

lemma tokens_None [simp]: "strtok_r delim s = None \<Longrightarrow> tokens delim s = []"
  by (simp add: tokens.simps [of delim s])

lemma tokens_clean: "t \<in> set (tokens delim s) \<Longrightarrow> t \<noteq> [] \<and> (\<forall>c \<in> set t. c \<notin> set delim)"
proof (induction delim s rule: tokens.induct)
  case (1 delim s)
  show ?case
  proof (cases "strtok_r delim s")
    case None
    with "1.prems" show ?thesis by simp
  next
    case (Some p)
    obtain u r where p: "p = (u, r)" by fastforce
    with Some have "u \<noteq> [] \<and> (\<forall>c \<in> set u. c \<notin> set delim)"
      using strtok.token_nonempty strtok.token_clean by blast
    with "1" Some p show ?thesis by auto
  qed
qed

lemma tokens_length: "sum_list (map length (tokens delim s)) \<le> length s"
proof (induction delim s rule: tokens.induct)
  case (1 delim s)
  then show ?case
    by (cases "strtok_r delim s") (fastforce dest: strtok.rest_shorter)+
qed

end
