(* ===== verification/CNumber.thy ===== *)
theory CNumber
  imports CString
begin

text \<open>
  Number conversions of the C library: \<^verbatim>\<open>strtoul\<close> and \<^verbatim>\<open>strtoull\<close> (both 64 bit on the supported
  targets) and the \<^verbatim>\<open>printf\<close> conversions \<^verbatim>\<open>%u\<close>, \<^verbatim>\<open>%lu\<close>, \<^verbatim>\<open>%02x\<close>, \<^verbatim>\<open>%04x\<close> and \<^verbatim>\<open>%08x\<close>. Printing and
  reading are inverse to each other; both directions are used by the components.
\<close>

section \<open>\<^verbatim>\<open>strtoul\<close>\<close>

definition isspace :: "char \<Rightarrow> bool" where
  "isspace c \<longleftrightarrow> c \<in> {CHR '' '', CHR 0x09, CHR 0x0A, CHR 0x0B, CHR 0x0C, CHR 0x0D}"

text \<open>The value of a digit in bases up to 36; 36 for anything else.\<close>
definition digit_val :: "char \<Rightarrow> nat" where
  "digit_val c =
     (let n = of_char c in
      if 48 \<le> n \<and> n \<le> 57 then n - 48
      else if 97 \<le> n \<and> n \<le> 122 then n - 87
      else if 65 \<le> n \<and> n \<le> 90 then n - 55
      else 36)"

definition isdigit :: "char \<Rightarrow> bool" where
  "isdigit c \<longleftrightarrow> digit_val c < 10"

fun scan_digits :: "nat \<Rightarrow> nat \<Rightarrow> string \<Rightarrow> nat \<times> string" where
  "scan_digits base acc [] = (acc, [])"
| "scan_digits base acc (c # s) =
     (if digit_val c < base then scan_digits base (acc * base + digit_val c) s else (acc, c # s))"

text \<open>
  The result of a call: the value, the string at \<^verbatim>\<open>endptr\<close>, whether a conversion was performed, and
  whether \<^verbatim>\<open>errno\<close> became \<^verbatim>\<open>ERANGE\<close>.
\<close>
record strtoul_result =
  value_of :: u64
  endptr :: string
  converted :: bool
  erange :: bool

definition strtoul_sign :: "string \<Rightarrow> bool \<times> string" where
  "strtoul_sign s =
     (case s of c # t \<Rightarrow> if c = CHR ''-'' then (True, t) else if c = CHR ''+'' then (False, t)
                        else (False, s)
      | [] \<Rightarrow> (False, s))"

definition strtoul_base :: "nat \<Rightarrow> string \<Rightarrow> nat \<times> string" where
  "strtoul_base base s =
     (if (base = 0 \<or> base = 16) \<and> length s > 2 \<and> s ! 0 = CHR ''0''
         \<and> (s ! 1 = CHR ''x'' \<or> s ! 1 = CHR ''X'') \<and> digit_val (s ! 2) < 16
      then (16, drop 2 s)
      else if base = 0 \<and> s \<noteq> [] \<and> s ! 0 = CHR ''0'' then (8, s)
      else if base = 0 then (10, s) else (base, s))"

definition strtoul :: "nat \<Rightarrow> string \<Rightarrow> strtoul_result" where
  "strtoul base s =
     (let (neg, t) = strtoul_sign (dropWhile isspace s);
          (b, u) = strtoul_base base t
      in if u = [] \<or> \<not> digit_val (hd u) < b
         then \<lparr>value_of = 0, endptr = s, converted = False, erange = False\<rparr>
         else let (n, r) = scan_digits b 0 u in
           if n < 2 ^ 64
           then \<lparr>value_of = (if neg then - of_nat n else of_nat n), endptr = r,
                 converted = True, erange = False\<rparr>
           else \<lparr>value_of = - 1, endptr = r, converted = True, erange = True\<rparr>)"

lemma scan_digits_rest_le: "length (snd (scan_digits b a s)) \<le> length s"
  by (induction b a s rule: scan_digits.induct) auto

lemma strtoul_sign_le: "length (snd (strtoul_sign s)) \<le> length s"
  by (auto simp: strtoul_sign_def split: list.splits)

lemma strtoul_base_le: "length (snd (strtoul_base b s)) \<le> length s"
  by (auto simp: strtoul_base_def)

lemma strtoul_progress:
  assumes "converted (strtoul b s)"
  shows "length (endptr (strtoul b s)) < length s"
proof -
  obtain neg t where t: "strtoul_sign (dropWhile isspace s) = (neg, t)" by fastforce
  obtain b' u where u: "strtoul_base b t = (b', u)" by fastforce
  from assms t u have ne: "u \<noteq> []" and dig: "digit_val (hd u) < b'"
    by (auto simp: strtoul_def Let_def split: if_splits)
  then obtain c v where cv: "u = c # v" "digit_val c < b'" by (cases u) auto
  have "endptr (strtoul b s) = snd (scan_digits b' 0 u)"
    using t u ne dig by (simp add: strtoul_def Let_def split: prod.splits)
  then have "length (endptr (strtoul b s)) < length u"
    using cv scan_digits_rest_le [of b' "digit_val c" v] by simp
  also have "length u \<le> length t" using strtoul_base_le [of b t] u by simp
  also have "length t \<le> length s"
    using strtoul_sign_le [of "dropWhile isspace s"] t length_dropWhile_le [of isspace s] by simp
  finally show ?thesis .
qed

section \<open>Printing unsigned numbers\<close>

text \<open>Digit characters, written out as in the ASCII table so that they evaluate.\<close>
definition hex_digit :: "nat \<Rightarrow> char" where
  "hex_digit n = (if n < 16 then ''0123456789abcdef'' ! n else CHR ''?'')"

lemma less_16_cases:
  "n < 16 \<Longrightarrow> n \<in> {0, 1, 2, 3, 4, 5, 6, 7, 8, 9, 10, 11, 12, 13, 14, 15 :: nat}"
  by (auto simp: numeral_eq_Suc less_Suc_eq)

lemma digit_val_hex_digit [simp]: "n < 16 \<Longrightarrow> digit_val (hex_digit n) = n"
  by (drule less_16_cases) (auto simp: hex_digit_def digit_val_def Let_def)

lemma hex_digit_not_space [simp]: "n < 16 \<Longrightarrow> \<not> isspace (hex_digit n)"
  by (drule less_16_cases) (auto simp: hex_digit_def isspace_def)

lemma hex_digit_not_sign [simp]:
  "n < 16 \<Longrightarrow> hex_digit n \<noteq> CHR ''-'' \<and> hex_digit n \<noteq> CHR ''+''"
  by (drule less_16_cases) (auto simp: hex_digit_def)

text \<open>\<^verbatim>\<open>%u\<close>, \<^verbatim>\<open>%lu\<close>\<close>
fun udec :: "nat \<Rightarrow> string" where
  "udec n = (if n < 10 then [hex_digit n] else udec (n div 10) @ [hex_digit (n mod 10)])"

declare udec.simps [simp del]

text \<open>\<^verbatim>\<open>%0kx\<close> of a value below \<open>16 ^ k\<close>\<close>
primrec hexw :: "nat \<Rightarrow> nat \<Rightarrow> string" where
  "hexw 0 n = []"
| "hexw (Suc k) n = hexw k (n div 16) @ [hex_digit (n mod 16)]"

lemma length_hexw [simp]: "length (hexw k n) = k"
  by (induction k arbitrary: n) auto

lemma scan_digits_append:
  "\<forall>c \<in> set s. digit_val c < b \<Longrightarrow>
   scan_digits b a (s @ t) = scan_digits b (fst (scan_digits b a s)) t"
  by (induction s arbitrary: a) auto

lemma udec_digits: "c \<in> set (udec n) \<Longrightarrow> digit_val c < 10 \<and> c \<in> hex_digit ` {..<10}"
proof (induction n rule: udec.induct)
  case (1 n)
  then show ?case
    by (cases "n < 10") (auto simp: udec.simps [of n])
qed

lemma udec_nonempty [simp]: "udec n \<noteq> []"
  by (subst udec.simps) simp

lemma scan_udec: "scan_digits 10 0 (udec n) = (n, [])"
proof (induction n rule: udec.induct)
  case (1 n)
  show ?case
  proof (cases "n < 10")
    case True
    then show ?thesis by (simp add: udec.simps [of n])
  next
    case False
    with "1" have ih: "scan_digits 10 0 (udec (n div 10)) = (n div 10, [])" by simp
    have "scan_digits 10 0 (udec (n div 10) @ [hex_digit (n mod 10)])
        = scan_digits 10 (n div 10) [hex_digit (n mod 10)]"
      using scan_digits_append [of "udec (n div 10)" 10 0] udec_digits ih by auto
    with False show ?thesis by (simp add: udec.simps [of n])
  qed
qed

lemma hd_udec: "\<exists>k < 10. hd (udec n) = hex_digit k"
proof -
  have "hd (udec n) \<in> set (udec n)" by simp
  then show ?thesis using udec_digits by fastforce
qed

lemma dropWhile_space_udec [simp]: "dropWhile isspace (udec n) = udec n"
proof -
  obtain k where "k < 10" "hd (udec n) = hex_digit k" using hd_udec by blast
  then have "\<not> isspace (hd (udec n))" by simp
  then show ?thesis by (cases "udec n") auto
qed

lemma strtoul_sign_udec [simp]: "strtoul_sign (udec n) = (False, udec n)"
proof -
  obtain k where k: "k < 10" "hd (udec n) = hex_digit k" using hd_udec by blast
  then have "hd (udec n) \<noteq> CHR ''-''" "hd (udec n) \<noteq> CHR ''+''" by simp_all
  then show ?thesis by (cases "udec n") (auto simp: strtoul_sign_def)
qed

text \<open>Reading what \<^verbatim>\<open>%lu\<close> printed.\<close>
lemma strtoul_udec:
  "n < 2 ^ 64 \<Longrightarrow>
   strtoul 10 (udec n) = \<lparr>value_of = of_nat n, endptr = [], converted = True, erange = False\<rparr>"
  using hd_udec [of n] by (auto simp: strtoul_def strtoul_base_def scan_udec)

lemma udec_not_zero: "0 < n \<Longrightarrow> hd (udec n) \<noteq> CHR ''0''"
proof (induction n rule: udec.induct)
  case (1 n)
  show ?case
  proof (cases "n < 10")
    case True
    with 1 less_16_cases [of n] show ?thesis by (auto simp: udec.simps [of n] hex_digit_def)
  next
    case False
    with 1 show ?thesis by (simp add: udec.simps [of n])
  qed
qed

text \<open>With base 0 a leading zero means octal; \<^verbatim>\<open>%lu\<close> prints none except for zero itself.\<close>
lemma strtoul_udec_auto:
  assumes "n < 2 ^ 64"
  shows "strtoul 0 (udec n) = \<lparr>value_of = of_nat n, endptr = [], converted = True, erange = False\<rparr>"
proof (cases "n = 0")
  case True
  then show ?thesis by (simp add: udec.simps strtoul_def strtoul_sign_def strtoul_base_def hex_digit_def
        isspace_def digit_val_def Let_def)
next
  case False
  then have "udec n ! 0 \<noteq> CHR ''0''" using udec_not_zero by (simp add: hd_conv_nth)
  then have "strtoul_base 0 (udec n) = strtoul_base 10 (udec n)" by (simp add: strtoul_base_def)
  then have "strtoul 0 (udec n) = strtoul 10 (udec n)" by (simp add: strtoul_def)
  with strtoul_udec [OF assms] show ?thesis by simp
qed

text \<open>A number in front of a character that is no digit.\<close>
lemma strtoul_udec_append:
  assumes "n < 2 ^ 64" and "rest = [] \<or> \<not> isdigit (hd rest)"
  shows "strtoul 10 (udec n @ rest)
     = \<lparr>value_of = of_nat n, endptr = rest, converted = True, erange = False\<rparr>"
proof -
  obtain c t where ct: "udec n = c # t" by (cases "udec n") auto
  obtain k where k: "k < 10" "c = hex_digit k" using hd_udec [of n] ct by auto
  have "scan_digits 10 0 (udec n @ rest) = scan_digits 10 n rest"
    using scan_digits_append [of "udec n" 10 0 rest] udec_digits scan_udec [of n] by auto
  also have "\<dots> = (n, rest)" using assms(2) by (cases rest) (auto simp: isdigit_def)
  finally have scan: "scan_digits 10 0 (udec n @ rest) = (n, rest)" .
  have "strtoul_sign (dropWhile isspace (udec n @ rest)) = (False, udec n @ rest)"
    using ct k by (simp add: strtoul_sign_def)
  then show ?thesis
    using scan ct k assms(1) by (simp add: strtoul_def strtoul_base_def)
qed

section \<open>Fixed-width codecs\<close>

text \<open>
  A fixed-width text encoding of numbers below a bound with its reader: what the hex printers of
  the metadata parser and of the GUID formatter promise.
\<close>
locale fixed_codec =
  fixes enc :: "nat \<Rightarrow> string" and dec :: "string \<Rightarrow> nat option"
    and width :: nat and bound :: nat
  assumes enc_length: "length (enc n) = width"
    and dec_enc: "n < bound \<Longrightarrow> dec (enc n) = Some n"
begin

lemma enc_inject: "m < bound \<Longrightarrow> n < bound \<Longrightarrow> enc m = enc n \<longleftrightarrow> m = n"
  using dec_enc by (metis option.inject)

text \<open>Two texts with the same layout agree on every field: used to read a record of fields back.\<close>
lemma enc_append_inject:
  "m < bound \<Longrightarrow> n < bound \<Longrightarrow> enc m @ s = enc n @ t \<longleftrightarrow> m = n \<and> s = t"
  using enc_inject by (auto simp: enc_length append_eq_append_conv)

lemma length_concat_enc: "length (concat (map enc ns)) = width * length ns"
  by (induction ns) (auto simp: enc_length)

lemma concat_enc_inject:
  assumes "\<forall>n \<in> set ms. n < bound" and "\<forall>n \<in> set ns. n < bound" and "length ms = length ns"
  shows "concat (map enc ms) = concat (map enc ns) \<longleftrightarrow> ms = ns"
  using assms(3,1,2) by (induction ms ns rule: list_induct2) (auto simp: enc_append_inject)

end

definition unhex :: "string \<Rightarrow> nat option" where
  "unhex s = (if \<forall>c \<in> set s. digit_val c < 16 then Some (fst (scan_digits 16 0 s)) else None)"

lemma hexw_digits: "c \<in> set (hexw k n) \<Longrightarrow> digit_val c < 16"
  by (induction k arbitrary: n) auto

lemma scan_hexw: "n < 16 ^ k \<Longrightarrow> scan_digits 16 0 (hexw k n) = (n, [])"
proof (induction k arbitrary: n)
  case 0
  then show ?case by simp
next
  case (Suc k)
  then have "n div 16 < 16 ^ k" by (simp add: less_mult_imp_div_less mult.commute)
  with Suc.IH have ih: "scan_digits 16 0 (hexw k (n div 16)) = (n div 16, [])" by blast
  then show ?case using scan_digits_append [of "hexw k (n div 16)" 16 0] hexw_digits by auto
qed

interpretation hex: fixed_codec "hexw k" unhex k "16 ^ k"
  by unfold_locales (auto simp: unhex_def scan_hexw hexw_digits)

end
