(* ===== verification/Machine.thy ===== *)
theory Machine
  imports Prelude "HOL-Library.State_Monad"
begin

text \<open>
  The machine cominit runs on, seen from the program: everything it calls outside of its own
  sources (the kernel, the C library's I/O, mbedTLS, tpm2-tss) is one \<^emph>\<open>call\<close> with its arguments,
  answered by a \<^emph>\<open>reply\<close>. The answers come from an environment \<open>env\<close>, an arbitrary function of
  the calls made so far and the present one, so a theorem about all environments is a theorem about
  every behaviour of the outside world. The calls made and their replies are kept in \<open>trace\<close>, in
  the order of execution.

  \<open>status\<close> says whether the process still runs: a successful \<^verbatim>\<open>execve\<close> or an \<^verbatim>\<open>_exit\<close> ends it, and
  so does undefined behaviour (a read or write out of bounds, a use of an uninitialised pointer, an
  overflow of signed numbers). A
  loop of the code whose end depends on the environment takes as many turns as \<open>fuel\<close> allows and
  then sets \<open>Spinning\<close>. A process that does not run makes no further call.
\<close>

section \<open>Calls\<close>

datatype open_flag = O_RDONLY | O_RDWR | O_CLOEXEC
datatype mount_flag = MS_NOEXEC | MS_NOSUID | MS_NODEV | MS_RDONLY | MS_MOVE
datatype mode_flag = S_IFBLK | S_IRUSR | S_IWUSR
datatype walk_flag = FTW_DEPTH | FTW_PHYS | FTW_MOUNT

text \<open>Files and directories. \<open>Mount\<close> has source, target, type (or \<^verbatim>\<open>NULL\<close>) and flags. \<open>Write\<close> has the buffer and the
  size the caller gives: nothing says that the buffer is that large. \<open>Nftw_next\<close> is one report of a walk
  with its number of descriptors and flags.\<close>
datatype fs_call =
    Mkdir string nat
  | Mount string string "string option" "mount_flag list"
  | Umount string
  | Umount2_detach string
  | Stat string
  | Lstat string
  | Access string
  | Open string "open_flag list"
  | Close int
  | Fstat int
  | Lseek int int
  | Read int nat
  | Pread int nat u64
  | Write int "byte list" nat
  | Mmap int u64
  | Munmap u64
  | Opendir string
  | Readdir
  | Closedir
  | Unlink string
  | Rmdir string
  | Nftw_next string nat "walk_flag list"
  | Chdir string
  | Chroot string
  | Mknod string "mode_flag list" u64

text \<open>Buffered streams of the C library.\<close>
datatype stream_call =
    Fopen string string
  | Fread nat
  | Fgets nat
  | Fwrite "byte list"
  | Fclose
  | Print_stderr string
  | Print_stdout string

text \<open>Processes and time. \<open>Nanosleep\<close> has the absolute monotonic target in seconds and nanoseconds.\<close>
datatype proc_call =
    Setsid
  | Umask nat
  | Pipe
  | Fork
  | Dup2 int int
  | Execve string "string list"
  | Waitpid int
  | Clock_gettime
  | Nanosleep int int

text \<open>Memory. A call that gives memory back carries what the memory holds at that moment.\<close>
datatype mem_call =
    Malloc nat
  | Calloc nat
  | Mlock nat
  | Munlock "byte list"
  | Free "byte list"

datatype key_call =
    Keyctl_search string
  | Keyctl_read int nat
  | Add_key string "byte list"

text \<open>The block and device-mapper \<^verbatim>\<open>ioctl\<close>s.\<close>
datatype dev_call =
    Blkgetsize64 int
  | Blksszget int
  | Dm_dev_create int string nat
  | Dm_table_load int u64 bool nat nat u64 string string nat
    \<comment> \<open>control fd, device, read-only flag, target count, data start, length in sectors, target
        type, table, data size\<close>
  | Dm_dev_suspend int u64 nat

text \<open>mbedTLS.\<close>
datatype pk_call =
    Pk_init
  | Pk_parse_public_keyfile string
  | Pk_get_type
  | Pk_can_do_rsa
  | Rsa_set_padding_pss_sha256
  | Sha256 "byte list"
  | Rsassa_pss_verify "byte list" "byte list"
  | Pk_write_pubkey_der nat
  | Pk_free
  | Entropy_init
  | Drbg_init
  | Drbg_seed "byte list"
  | Drbg_random nat
  | Drbg_free
  | Entropy_free

datatype session_type = TPM2_SE_TRIAL | TPM2_SE_POLICY
datatype object_attribute = TPMA_OBJECT_USERWITHAUTH | TPMA_OBJECT_RESTRICTED | TPMA_OBJECT_DECRYPT
  | TPMA_OBJECT_FIXEDTPM | TPMA_OBJECT_FIXEDPARENT | TPMA_OBJECT_SENSITIVEDATAORIGIN
datatype object_type = TPM2_ALG_RSA | TPM2_ALG_KEYEDHASH

text \<open>tpm2-tss. Handles are 64-bit numbers; a context or session argument that is always the same
  is left out.\<close>
datatype tpm_call =
    Tcti_initialize string
  | Tcti_finalize
  | Esys_initialize
  | Esys_finalize
  | Esys_SelfTest
  | Esys_PCR_Extend u64 "byte list"
  | Esys_CreatePrimary object_type "object_attribute list"
  | Esys_StartAuthSession session_type
  | Esys_PolicyPCR u64 nat "byte list"
  | Esys_PolicyGetDigest u64
  | Esys_Create u64 object_type "object_attribute list" "byte list" "byte list" "byte list"
    \<comment> \<open>parent, type, attributes, authPolicy, userAuth, sensitive data\<close>
  | Esys_EvictControl u64
  | Esys_TR_FromTPMPublic
  | Esys_Load u64 "byte list" "byte list"
  | Esys_Unseal u64 u64
  | Esys_FlushContext u64
  | Esys_Free "byte list option"

datatype call =
    Fs fs_call
  | Stream stream_call
  | Proc proc_call
  | Mem mem_call
  | Key key_call
  | Dev dev_call
  | Pk pk_call
  | Tpm tpm_call

section \<open>Replies\<close>

datatype errno = EEXIST | EBUSY | ENOENT | EINTR | Eother

datatype file_kind = Regular | Directory | Symlink | BlockDevice | OtherKind

text \<open>
  One shape of reply serves all calls: the returned value, \<^verbatim>\<open>errno\<close>, up to two numbers and two
  buffers written through out-parameters, and the file kind in a \<^verbatim>\<open>struct stat\<close>.
\<close>
record reply =
  rc :: int
  err :: errno
  val :: u64
  val2 :: u64
  bytes :: "byte list"
  bytes2 :: "byte list"
  kind :: file_kind

definition no_reply :: reply where
  "no_reply = \<lparr>rc = - 1, err = Eother, val = 0, val2 = 0, bytes = [], bytes2 = [], kind = OtherKind\<rparr>"

definition ok :: reply where
  "ok = \<lparr>rc = 0, err = Eother, val = 0, val2 = 0, bytes = [], bytes2 = [], kind = OtherKind\<rparr>"

section \<open>The process\<close>

datatype fault = OutOfBounds | NullPointer | Uninitialised | SignedOverflow

datatype status = Running | Replaced string | Exited int | Undefined fault | Spinning

type_synonym event = "call \<times> reply"

record world =
  env :: "event list \<Rightarrow> call \<Rightarrow> reply"
  fuel :: nat
  trace :: "event list"
  status :: status

text \<open>A fresh process in an environment.\<close>
definition start :: "(event list \<Rightarrow> call \<Rightarrow> reply) \<Rightarrow> nat \<Rightarrow> world" where
  "start E n = \<lparr>env = E, fuel = n, trace = [], status = Running\<rparr>"

lemma start_simps [simp]:
  "env (start E n) = E" "fuel (start E n) = n" "trace (start E n) = []" "status (start E n) = Running"
  by (simp_all add: start_def)

type_synonym 'a op = "(world, 'a) state"

abbreviation return :: "'a \<Rightarrow> 'a op" where "return \<equiv> State_Monad.return"

definition sys :: "call \<Rightarrow> reply op" where
  "sys c = State (\<lambda>w.
     if status w = Running
     then let r = env w (trace w) c in (r, w\<lparr>trace := trace w @ [(c, r)]\<rparr>)
     else (no_reply, w))"

text \<open>Calls whose reply the code does not look at.\<close>
definition run :: "call \<Rightarrow> unit op" where
  "run c = do { _ \<leftarrow> sys c; return () }"

definition halt :: "status \<Rightarrow> unit op" where
  "halt s = State (\<lambda>w. ((), if status w = Running then w\<lparr>status := s\<rparr> else w))"

definition get_fuel :: "nat op" where
  "get_fuel = State (\<lambda>w. (fuel w, w))"

text \<open>\<^verbatim>\<open>execve\<close>: a return is a failure.\<close>
definition execve :: "string \<Rightarrow> string list \<Rightarrow> int op" where
  "execve path argv = do {
     r \<leftarrow> sys (Proc (Execve path argv));
     if rc r = - 1 then return (- 1)
     else do { halt (Replaced path); return 0 } }"

text \<open>An answer that is not the one of a halted process comes from the environment.\<close>
lemma sys_answered:
  assumes "run_state (sys c) w = (r, w')" and "rc r \<noteq> - 1 \<or> err r \<noteq> Eother"
  shows "status w = Running" and "status w' = Running" and "trace w' = trace w @ [(c, r)]"
    and "env w' = env w" and "r = env w (trace w) c"
  using assms by (auto simp: sys_def no_reply_def Let_def split: if_splits)

section \<open>Weakest preconditions\<close>

definition wp :: "'a op \<Rightarrow> ('a \<Rightarrow> world \<Rightarrow> bool) \<Rightarrow> world \<Rightarrow> bool" where
  "wp m Q w = (case run_state m w of (a, w') \<Rightarrow> Q a w')"

lemma wp_return [wp_simps]: "wp (return a) Q w = Q a w"
  by (simp add: wp_def)

lemma wp_bind [wp_simps]: "wp (State_Monad.bind m f) Q w = wp m (\<lambda>a. wp (f a) Q) w"
  by (simp add: wp_def split: prod.split)

lemma wp_sys [wp_simps]:
  "wp (sys c) Q w =
     (if status w = Running
      then Q (env w (trace w) c) (w\<lparr>trace := trace w @ [(c, env w (trace w) c)]\<rparr>)
      else Q no_reply w)"
  by (simp add: wp_def sys_def Let_def)

lemma wp_run [wp_simps]:
  "wp (run c) Q w =
     (if status w = Running
      then Q () (w\<lparr>trace := trace w @ [(c, env w (trace w) c)]\<rparr>)
      else Q () w)"
  by (simp add: run_def wp_simps)

lemma wp_halt [wp_simps]:
  "wp (halt s) Q w = Q () (if status w = Running then w\<lparr>status := s\<rparr> else w)"
  by (simp add: wp_def halt_def)

lemma wp_get_fuel [wp_simps]: "wp get_fuel Q w = Q (fuel w) w"
  by (simp add: wp_def get_fuel_def)

lemma wp_if [wp_simps]: "wp (if b then m else n) Q w = (if b then wp m Q w else wp n Q w)"
  by simp

lemma wp_case_prod [wp_simps]: "wp (case p of (a, b) \<Rightarrow> f a b) Q w = (case p of (a, b) \<Rightarrow> wp (f a b) Q w)"
  by (cases p) simp

lemma wp_case_option [wp_simps]:
  "wp (case x of None \<Rightarrow> m | Some a \<Rightarrow> f a) Q w
     = (case x of None \<Rightarrow> wp m Q w | Some a \<Rightarrow> wp (f a) Q w)"
  by (cases x) simp_all

lemma wp_case_sum [wp_simps]:
  "wp (case x of Inl a \<Rightarrow> f a | Inr b \<Rightarrow> g b) Q w
     = (case x of Inl a \<Rightarrow> wp (f a) Q w | Inr b \<Rightarrow> wp (g b) Q w)"
  by (cases x) simp_all

lemma wp_mono: "wp m Q w \<Longrightarrow> (\<And>a w'. Q a w' \<Longrightarrow> Q' a w') \<Longrightarrow> wp m Q' w"
  by (auto simp: wp_def split: prod.splits)

lemma wp_conj: "wp m (\<lambda>a w'. Q a w' \<and> R a w') w \<longleftrightarrow> wp m Q w \<and> wp m R w"
  by (auto simp: wp_def split: prod.splits)

lemma wp_run_state: "wp m Q w \<Longrightarrow> run_state m w = (a, w') \<Longrightarrow> Q a w'"
  by (simp add: wp_def)

lemma wpI: "(\<And>a w'. run_state m w = (a, w') \<Longrightarrow> Q a w') \<Longrightarrow> wp m Q w"
  by (auto simp: wp_def split: prod.splits)

text \<open>
  Introduction rules for a process that runs: the reply to a call is a fresh variable, so that the
  conditions stay small on long sequences of calls and hold for every environment.
\<close>
lemma vcg_return [vcg]: "Q a w \<Longrightarrow> wp (return a) Q w"
  by (simp add: wp_simps)

lemma vcg_bind [vcg]: "wp m (\<lambda>a. wp (f a) Q) w \<Longrightarrow> wp (State_Monad.bind m f) Q w"
  by (simp add: wp_simps)

lemma vcg_sys [vcg]:
  "status w = Running \<Longrightarrow> (\<And>r. Q r (w\<lparr>trace := trace w @ [(c, r)]\<rparr>)) \<Longrightarrow> wp (sys c) Q w"
  by (simp add: wp_simps)

lemma vcg_run [vcg]:
  "status w = Running \<Longrightarrow> (\<And>r. Q () (w\<lparr>trace := trace w @ [(c, r)]\<rparr>)) \<Longrightarrow> wp (run c) Q w"
  by (simp add: wp_simps)

lemma vcg_halt [vcg]:
  "Q () (if status w = Running then w\<lparr>status := s\<rparr> else w) \<Longrightarrow> wp (halt s) Q w"
  by (simp add: wp_simps)

lemma vcg_get_fuel [vcg]: "Q (fuel w) w \<Longrightarrow> wp get_fuel Q w"
  by (simp add: wp_simps)

lemma vcg_if [vcg]: "(b \<Longrightarrow> wp m Q w) \<Longrightarrow> (\<not> b \<Longrightarrow> wp n Q w) \<Longrightarrow> wp (if b then m else n) Q w"
  by simp

lemma vcg_case_prod [vcg]:
  "(\<And>a b. p = (a, b) \<Longrightarrow> wp (f a b) Q w) \<Longrightarrow> wp (case p of (a, b) \<Rightarrow> f a b) Q w"
  by (cases p) simp

lemma vcg_case_option [vcg]:
  "(x = None \<Longrightarrow> wp m Q w) \<Longrightarrow> (\<And>a. x = Some a \<Longrightarrow> wp (f a) Q w) \<Longrightarrow>
   wp (case x of None \<Rightarrow> m | Some a \<Rightarrow> f a) Q w"
  by (cases x) simp_all

lemma vcg_case_sum [vcg]:
  "(\<And>a. x = Inl a \<Longrightarrow> wp (f a) Q w) \<Longrightarrow> (\<And>b. x = Inr b \<Longrightarrow> wp (g b) Q w) \<Longrightarrow>
   wp (case x of Inl a \<Rightarrow> f a | Inr b \<Rightarrow> g b) Q w"
  by (cases x) simp_all

lemma vcg_Let [vcg]: "(\<And>x. x = a \<Longrightarrow> wp (f x) Q w) \<Longrightarrow> wp (let x = a in f x) Q w"
  by (simp add: Let_def)

text \<open>A reply that is known to be the environment's, for properties with a hypothesis on it.\<close>
definition answered :: "(event list \<Rightarrow> call \<Rightarrow> reply) \<Rightarrow> event list \<Rightarrow> call \<Rightarrow> reply \<Rightarrow> bool" where
  "answered E h c r \<longleftrightarrow> r = E h c"

lemma vcg_sys_answered:
  "status w = Running \<Longrightarrow> (\<And>r. answered (env w) (trace w) c r \<Longrightarrow> Q r (w\<lparr>trace := trace w @ [(c, r)]\<rparr>)) \<Longrightarrow> wp (sys c) Q w"
  by (simp add: wp_simps answered_def)

section \<open>Footprints\<close>

text \<open>
  \<open>emits K m\<close>: the only calls \<open>m\<close> makes are events in \<open>K\<close>; it appends them to the trace, changes
  neither the environment nor the fuel, and does nothing at all when the process does not run. The
  rules follow the structure of a program, so the footprint of an operation is computed from the
  footprints of the operations it calls.
\<close>
definition emits :: "(event \<Rightarrow> bool) \<Rightarrow> 'a op \<Rightarrow> bool" where
  "emits K m \<longleftrightarrow> (\<forall>w. case run_state m w of (a, w') \<Rightarrow>
     env w' = env w \<and> fuel w' = fuel w
     \<and> (\<exists>ext. trace w' = trace w @ ext \<and> (\<forall>e \<in> set ext. K e))
     \<and> (status w \<noteq> Running \<longrightarrow> w' = w))"

lemma emitsI:
  assumes "\<And>w a w'. run_state m w = (a, w') \<Longrightarrow> env w' = env w \<and> fuel w' = fuel w
     \<and> (\<exists>ext. trace w' = trace w @ ext \<and> (\<forall>e \<in> set ext. K e))
     \<and> (status w \<noteq> Running \<longrightarrow> w' = w)"
  shows "emits K m"
  unfolding emits_def by (simp add: assms split: prod.splits)

lemma emitsD:
  assumes "emits K m" and "run_state m w = (a, w')"
  shows "env w' = env w" and "fuel w' = fuel w"
    and "\<exists>ext. trace w' = trace w @ ext \<and> (\<forall>e \<in> set ext. K e)"
    and "status w \<noteq> Running \<Longrightarrow> w' = w"
  using assms unfolding emits_def by (force split: prod.splits)+

lemma emits_return [emits_intros]: "emits K (return a)"
  by (rule emitsI) auto

lemma emits_sys [emits_intros]: "(\<And>r. K (c, r)) \<Longrightarrow> emits K (sys c)"
  by (rule emitsI) (auto simp: sys_def Let_def split: if_splits)

lemma emits_halt [emits_intros]: "emits K (halt s)"
  by (rule emitsI) (auto simp: halt_def split: if_splits)

lemma emits_get_fuel [emits_intros]: "emits K get_fuel"
  by (rule emitsI) (auto simp: get_fuel_def)

lemma emits_bind [emits_intros]:
  assumes m: "emits K m" and f: "\<And>a. emits K (f a)"
  shows "emits K (State_Monad.bind m f)"
proof (rule emitsI)
  fix w b w''
  assume h: "run_state (State_Monad.bind m f) w = (b, w'')"
  obtain a w' where a: "run_state m w = (a, w')" by fastforce
  with h have b: "run_state (f a) w' = (b, w'')" by simp
  note A = emitsD [OF m a] and B = emitsD [OF f b]
  from A(3) B(3) obtain x y where "trace w' = trace w @ x" "trace w'' = trace w' @ y"
    "\<forall>e \<in> set x. K e" "\<forall>e \<in> set y. K e" by blast
  then have "trace w'' = trace w @ (x @ y)" and "\<forall>e \<in> set (x @ y). K e" by auto
  then show "env w'' = env w \<and> fuel w'' = fuel w
     \<and> (\<exists>ext. trace w'' = trace w @ ext \<and> (\<forall>e \<in> set ext. K e))
     \<and> (status w \<noteq> Running \<longrightarrow> w'' = w)"
    using A(1,2,4) B(1,2,4) by metis
qed

lemma emits_run [emits_intros]: "(\<And>r. K (c, r)) \<Longrightarrow> emits K (run c)"
  unfolding run_def by (intro emits_intros)

lemma emits_if [emits_intros]:
  "(b \<Longrightarrow> emits K m) \<Longrightarrow> (\<not> b \<Longrightarrow> emits K n) \<Longrightarrow> emits K (if b then m else n)"
  by simp

lemma emits_case_prod [emits_intros]:
  "(\<And>a b. p = (a, b) \<Longrightarrow> emits K (f a b)) \<Longrightarrow> emits K (case p of (a, b) \<Rightarrow> f a b)"
  by (cases p) simp

lemma emits_case_option [emits_intros]:
  "(x = None \<Longrightarrow> emits K m) \<Longrightarrow> (\<And>a. x = Some a \<Longrightarrow> emits K (f a)) \<Longrightarrow>
   emits K (case x of None \<Rightarrow> m | Some a \<Rightarrow> f a)"
  by (cases x) simp_all

lemma emits_case_sum [emits_intros]:
  "(\<And>a. x = Inl a \<Longrightarrow> emits K (f a)) \<Longrightarrow> (\<And>b. x = Inr b \<Longrightarrow> emits K (g b)) \<Longrightarrow>
   emits K (case x of Inl a \<Rightarrow> f a | Inr b \<Rightarrow> g b)"
  by (cases x) simp_all

lemma emits_Let [emits_intros]: "(\<And>x. x = a \<Longrightarrow> emits K (f x)) \<Longrightarrow> emits K (let x = a in f x)"
  by (simp add: Let_def)

lemma emits_mono: "emits K m \<Longrightarrow> (\<And>e. K e \<Longrightarrow> K' e) \<Longrightarrow> emits K' m"
  unfolding emits_def by (fastforce split: prod.splits)

lemma emits_execve [emits_intros]:
  "(\<And>r. K (Proc (Execve path argv), r)) \<Longrightarrow> emits K (execve path argv)"
  unfolding execve_def by (intro emits_intros)

text \<open>What a caller may rely on once it knows the footprint of an operation.\<close>
locale operation =
  fixes op :: "'a op" and K :: "event \<Rightarrow> bool"
  assumes footprint: "emits K op"
begin

lemma new_events:
  "run_state op w = (a, w') \<Longrightarrow> e \<in> set (trace w') \<Longrightarrow> e \<in> set (trace w) \<or> K e"
  using emitsD(3) [OF footprint] by fastforce

lemma old_events:
  "run_state op w = (a, w') \<Longrightarrow> e \<in> set (trace w) \<Longrightarrow> e \<in> set (trace w')"
  using emitsD(3) [OF footprint] by fastforce

lemma halted_noop: "status w \<noteq> Running \<Longrightarrow> run_state op w = (a, w') \<Longrightarrow> w' = w"
  using emitsD(4) [OF footprint] by blast

lemma still_running: "run_state op w = (a, w') \<Longrightarrow> status w' = Running \<Longrightarrow> status w = Running"
  using emitsD(4) [OF footprint] by metis

lemma wp_footprint:
  "wp op (\<lambda>a w'. env w' = env w \<and> fuel w' = fuel w
      \<and> (\<exists>ext. trace w' = trace w @ ext \<and> (\<forall>e \<in> set ext. K e))
      \<and> (status w' = Running \<longrightarrow> status w = Running)) w"
  by (rule wpI) (use emitsD [OF footprint] in metis)

end

section \<open>Returned values\<close>

text \<open>\<open>returns P m\<close>: whatever the environment answers, \<open>m\<close> returns a value with \<open>P\<close>.\<close>
definition returns :: "('a \<Rightarrow> bool) \<Rightarrow> 'a op \<Rightarrow> bool" where
  "returns P m \<longleftrightarrow> (\<forall>w. wp m (\<lambda>a _. P a) w)"

lemma returnsD: "returns P m \<Longrightarrow> run_state m w = (a, w') \<Longrightarrow> P a"
  by (auto simp: returns_def wp_def split: prod.splits)

lemma returns_wp: "returns P m \<Longrightarrow> (\<And>a w'. P a \<Longrightarrow> Q a w') \<Longrightarrow> wp m Q w"
  unfolding returns_def by (blast intro: wp_mono)

lemma returns_return [returns_intros]: "P a \<Longrightarrow> returns P (return a)"
  by (simp add: returns_def wp_simps)

lemma returns_bind [returns_intros]: "(\<And>a. returns P (f a)) \<Longrightarrow> returns P (State_Monad.bind m f)"
  by (auto simp: returns_def wp_simps intro: wpI)

lemmas returns_prim = returns_return
  returns_bind [where m = "sys c" for c] returns_bind [where m = "run c" for c]
  returns_bind [where m = "halt s" for s] returns_bind [where m = get_fuel]

lemma returns_bind_spec:
  "returns R m \<Longrightarrow> (\<And>a. R a \<Longrightarrow> returns P (f a)) \<Longrightarrow> returns P (State_Monad.bind m f)"
  by (simp add: returns_def wp_bind) (blast intro: wp_mono)

text \<open>A footprint that depends on what the first operation returns.\<close>
lemma emits_bind_spec:
  assumes m: "emits K m" and r: "returns R m" and f: "\<And>a. R a \<Longrightarrow> emits K (f a)"
  shows "emits K (State_Monad.bind m f)"
proof -
  have "emits K (State_Monad.bind m (\<lambda>a. if R a then f a else return undefined))"
    using m f by (auto intro: emits_intros)
  moreover have "State_Monad.bind m (\<lambda>a. if R a then f a else return undefined) = State_Monad.bind m f"
    using returnsD [OF r] by (intro state.expand ext) (auto split: prod.split)
  ultimately show ?thesis by simp
qed

lemma returns_if [returns_intros]:
  "(b \<Longrightarrow> returns P m) \<Longrightarrow> (\<not> b \<Longrightarrow> returns P n) \<Longrightarrow> returns P (if b then m else n)"
  by simp

lemma returns_case_prod [returns_intros]:
  "(\<And>a b. p = (a, b) \<Longrightarrow> returns P (f a b)) \<Longrightarrow> returns P (case p of (a, b) \<Rightarrow> f a b)"
  by (cases p) simp

lemma returns_case_option [returns_intros]:
  "(x = None \<Longrightarrow> returns P m) \<Longrightarrow> (\<And>a. x = Some a \<Longrightarrow> returns P (f a)) \<Longrightarrow>
   returns P (case x of None \<Rightarrow> m | Some a \<Rightarrow> f a)"
  by (cases x) simp_all

lemma returns_Let [returns_intros]:
  "(\<And>x. x = a \<Longrightarrow> returns P (f x)) \<Longrightarrow> returns P (let x = a in f x)"
  by (simp add: Let_def)

lemma returns_mono: "returns P m \<Longrightarrow> (\<And>a. P a \<Longrightarrow> P' a) \<Longrightarrow> returns P' m"
  unfolding returns_def by (blast intro: wp_mono)

text \<open>\<^verbatim>\<open>returns_prim\<close> and these rules leave a call of another operation to its own specification.\<close>
lemmas returns_structure = returns_prim returns_if returns_case_prod returns_case_option returns_Let

text \<open>
  The codes an operation may return. The callers compare with one of them only, so that the
  comparison decides the outcome needs both.
\<close>
locale code_operation = operation op K for op :: "int op" and K :: "event \<Rightarrow> bool" +
  fixes good :: int and bad :: int
  assumes codes: "returns (\<lambda>a. a = good \<or> a = bad) op"
    and codes_differ: "good \<noteq> bad"
begin

lemma not_bad: "run_state op w = (a, w') \<Longrightarrow> a \<noteq> bad \<longleftrightarrow> a = good"
  using returnsD [OF codes] codes_differ by blast

end

section \<open>Properties of what is appended to the trace\<close>

text \<open>
  A property of event sequences that the empty sequence has and concatenation keeps: whatever a
  program appends has it, if every operation it calls appends such a sequence.
\<close>
definition appends :: "(event list \<Rightarrow> bool) \<Rightarrow> 'a op \<Rightarrow> bool" where
  "appends P m \<longleftrightarrow> (\<forall>w. case run_state m w of (a, w') \<Rightarrow> \<exists>ext. trace w' = trace w @ ext \<and> P ext)"

lemma appendsD: "appends P m \<Longrightarrow> run_state m w = (a, w') \<Longrightarrow> \<exists>ext. trace w' = trace w @ ext \<and> P ext"
  unfolding appends_def by (force split: prod.splits)

lemma appendsI:
  "(\<And>w a w'. run_state m w = (a, w') \<Longrightarrow> \<exists>ext. trace w' = trace w @ ext \<and> P ext) \<Longrightarrow> appends P m"
  unfolding appends_def by (simp split: prod.splits)

locale trace_property =
  fixes P :: "event list \<Rightarrow> bool"
  assumes empty: "P []" and concat: "P a \<Longrightarrow> P b \<Longrightarrow> P (a @ b)"
begin

lemma of_events:
  assumes "emits K m" and "\<And>e. K e \<Longrightarrow> P [e]"
  shows "appends P m"
proof (rule appendsI)
  fix w a w' assume "run_state m w = (a, w')"
  with emitsD(3) [OF assms(1)] obtain ext where ext: "trace w' = trace w @ ext" "\<forall>e \<in> set ext. K e" by blast
  have "P ext" using ext(2)
  proof (induction ext)
    case (Cons e ext)
    then show ?case using assms(2) concat [of "[e]" ext] by simp
  qed (rule empty)
  with ext(1) show "\<exists>ext. trace w' = trace w @ ext \<and> P ext" by blast
qed

lemma of_return: "appends P (return a)"
  by (rule appendsI) (auto intro: empty)

lemma of_bind:
  assumes "appends P m" and "\<And>a. appends P (f a)"
  shows "appends P (State_Monad.bind m f)"
proof (rule appendsI)
  fix w b w'' assume h: "run_state (State_Monad.bind m f) w = (b, w'')"
  obtain a w' where m: "run_state m w = (a, w')" by fastforce
  with h have f: "run_state (f a) w' = (b, w'')" by simp
  from appendsD [OF assms(1) m] appendsD [OF assms(2) f] obtain x y where
    "trace w' = trace w @ x" "P x" "trace w'' = trace w' @ y" "P y" by blast
  then show "\<exists>ext. trace w'' = trace w @ ext \<and> P ext" using concat by auto
qed

lemma of_if: "(b \<Longrightarrow> appends P m) \<Longrightarrow> (\<not> b \<Longrightarrow> appends P n) \<Longrightarrow> appends P (if b then m else n)"
  by simp

lemma of_option: "appends P m \<Longrightarrow> (\<And>a. appends P (f a)) \<Longrightarrow> appends P (case x of None \<Rightarrow> m | Some a \<Rightarrow> f a)"
  by (cases x) simp_all

lemma of_sum: "(\<And>a. appends P (f a)) \<Longrightarrow> (\<And>b. appends P (g b)) \<Longrightarrow> appends P (case x of Inl a \<Rightarrow> f a | Inr b \<Rightarrow> g b)"
  by (cases x) simp_all

lemma of_pair: "(\<And>a b. appends P (f a b)) \<Longrightarrow> appends P (case p of (a, b) \<Rightarrow> f a b)"
  by (cases p) simp

lemma of_Let: "(\<And>x. appends P (f x)) \<Longrightarrow> appends P (let x = a in f x)"
  by (simp add: Let_def)

lemmas rules = of_return of_bind of_if of_option of_sum of_pair of_Let

end

end
