(* ===== verification/Config.thy ===== *)
theory Config
  imports CNumber Machine
begin

text \<open>
  What is fixed when cominit is built: the CMake options, and the constants of the libraries and
  kernel headers it is compiled against. Nothing is assumed about the latter here; a property that
  needs a value of one of them states it.
\<close>

record config =
  use_tpm :: bool                \<comment> \<open>\<^verbatim>\<open>COMINIT_USE_TPM\<close>\<close>
  fake_hsm :: bool               \<comment> \<open>\<^verbatim>\<open>COMINIT_FAKE_HSM\<close>\<close>
  sensitive_logging :: bool      \<comment> \<open>\<^verbatim>\<open>COMINIT_ENABLE_SENSITIVE_LOGGING\<close>\<close>
  initrd_selinux_policy :: string
  rootfs_selinux_policy :: string
  hsm_key_descs :: string        \<comment> \<open>\<^verbatim>\<open>COMINIT_FAKE_HSM_KEY_DESCS\<close>\<close>
  hsm_key_dir :: string          \<comment> \<open>\<^verbatim>\<open>COMINIT_FAKE_HSM_KEY_DIR\<close>\<close>
  cryptsetup_dir :: string       \<comment> \<open>\<^verbatim>\<open>COMINIT_CRYPTSETUP_DIR\<close>\<close>
  dm_dir :: string               \<comment> \<open>\<^verbatim>\<open>DM_DIR\<close> of linux/dm-ioctl.h\<close>
  dm_control_node :: string      \<comment> \<open>\<^verbatim>\<open>DM_CONTROL_NODE\<close> of linux/dm-ioctl.h\<close>
  dm_ioctl_size :: nat           \<comment> \<open>\<^verbatim>\<open>sizeof(struct dm_ioctl)\<close>\<close>
  dm_tspec_offset :: nat         \<comment> \<open>offset of \<^verbatim>\<open>tSpec\<close> in \<^verbatim>\<open>cominitDmIoctlData_t\<close>\<close>
  dm_table_offset :: nat         \<comment> \<open>offset of \<^verbatim>\<open>dmTbl\<close> in \<^verbatim>\<open>cominitDmIoctlData_t\<close>\<close>
  path_max :: nat                \<comment> \<open>\<^verbatim>\<open>PATH_MAX\<close> of linux/limits.h\<close>
  mbedtls_major :: nat           \<comment> \<open>\<^verbatim>\<open>MBEDTLS_VERSION_MAJOR\<close>, 2 or 3\<close>
  pcr_count :: nat               \<comment> \<open>\<^verbatim>\<open>TPM2_PT_PCR_COUNT\<close> of tpm2-tss\<close>
  pcr_select_max :: nat          \<comment> \<open>number of bytes of \<^verbatim>\<open>TPMS_PCR_SELECTION.pcrSelect\<close>\<close>
  esys_tr_pcr0 :: u64            \<comment> \<open>\<^verbatim>\<open>ESYS_TR_PCR0\<close>\<close>
  esys_tr_none :: u64            \<comment> \<open>\<^verbatim>\<open>ESYS_TR_NONE\<close>\<close>
  sizeof_public :: nat           \<comment> \<open>\<^verbatim>\<open>sizeof(TPM2B_PUBLIC)\<close>\<close>
  sizeof_private :: nat          \<comment> \<open>\<^verbatim>\<open>sizeof(TPM2B_PRIVATE)\<close>\<close>
  sizeof_sensitive_data :: nat   \<comment> \<open>\<^verbatim>\<open>sizeof(TPM2B_SENSITIVE_DATA)\<close>\<close>
  sizeof_sensitive_create :: nat \<comment> \<open>\<^verbatim>\<open>sizeof(TPM2B_SENSITIVE_CREATE)\<close>\<close>
  version_major :: string        \<comment> \<open>\<^verbatim>\<open>COMINIT_VERSION_MAJOR\<close>, and so the other parts of the version\<close>
  version_minor :: string
  version_micro :: string
  version_git :: string
  strtoul_einval :: bool         \<comment> \<open>whether the C library sets \<^verbatim>\<open>EINVAL\<close> when nothing is converted\<close>

text \<open>\<^verbatim>\<open>errno\<close> after a call of \<^verbatim>\<open>strtoul\<close> that started with \<^verbatim>\<open>errno = 0\<close>.\<close>
definition strtoul_errno :: "config \<Rightarrow> strtoul_result \<Rightarrow> bool" where
  "strtoul_errno cfg x \<longleftrightarrow> erange x \<or> (strtoul_einval cfg \<and> \<not> converted x)"

text \<open>
  The default build of CMakeLists.txt against glibc, mbedTLS 3, Linux and tpm2-tss, for evaluating
  the model on concrete inputs.
\<close>
definition default_config :: config where
  "default_config = \<lparr>use_tpm = True, fake_hsm = False, sensitive_logging = False,
     initrd_selinux_policy = ''/etc/selinux/targeted/policy/policy.33'',
     rootfs_selinux_policy = ''/newroot/etc/selinux/targeted/policy/policy.33'',
     hsm_key_descs = ''dm-integrity-hmac-secret dm-integrity-jmac-secret dm-integrity-jcrypt-secret'',
     hsm_key_dir = ''/etc/fake_hsm'', cryptsetup_dir = ''/usr/sbin/cryptsetup'',
     dm_dir = ''mapper'', dm_control_node = ''control'', dm_ioctl_size = 312,
     dm_tspec_offset = 312, dm_table_offset = 352, path_max = 4096, mbedtls_major = 3,
     pcr_count = 274, pcr_select_max = 4, esys_tr_pcr0 = 0, esys_tr_none = 4095,
     sizeof_public = 612, sizeof_private = 1566, sizeof_sensitive_data = 258,
     sizeof_sensitive_create = 326, version_major = ''0'', version_minor = ''12'', version_micro = ''2'',
     version_git = [], strtoul_einval = False\<rparr>"

end
