(* ===== verification/Common.thy ===== *)
theory Common
  imports Config
begin

text \<open>src/common.c: the size of a partition.\<close>

definition cominitCommonGetPartSize :: "u64 option \<Rightarrow> int \<Rightarrow> (int \<times> u64 option) op" where
  "cominitCommonGetPartSize partSize fd =
     (case partSize of
        None \<Rightarrow> return (- 1, None)
      | Some _ \<Rightarrow> do {
          r \<leftarrow> sys (Dev (Blkgetsize64 fd));
          if rc r = - 1 then return (- 1, partSize) else return (0, Some (val r)) })"

text \<open>Raw bytes as a C string: what is in front of the first NUL.\<close>
definition cstr :: "byte list \<Rightarrow> string" where
  "cstr bs = map char_of_byte (takeWhile (\<lambda>b. b \<noteq> 0) bs)"

definition bytes_of :: "string \<Rightarrow> byte list" where
  "bytes_of s = map byte_of_char s"

lemma length_bytes_of [simp]: "length (bytes_of s) = length s"
  by (simp add: bytes_of_def)

lemma length_cstr: "length (cstr bs) = length (takeWhile (\<lambda>b. b \<noteq> 0) bs)"
  by (simp add: cstr_def)

lemma byte_of_char_0 [simp]: "byte_of_char c = 0 \<longleftrightarrow> c = CHR 0x00"
proof -
  have "byte_of_char (CHR 0x00) = 0" by (simp add: byte_of_char_def)
  then show ?thesis by (metis byte_of_char_eq_iff)
qed

lemma cstr_bytes_of [simp]: "CHR 0x00 \<notin> set s \<Longrightarrow> cstr (bytes_of s @ 0 # rest) = s"
  by (induction s) (auto simp: cstr_def bytes_of_def)

lemma cstr_no_nul: "CHR 0x00 \<notin> set (cstr bs)"
proof
  assume "CHR 0x00 \<in> set (cstr bs)"
  then obtain b where b: "b \<noteq> 0" "CHR 0x00 = char_of_byte b"
    by (auto simp: cstr_def dest: set_takeWhileD)
  then have "byte_of_char (CHR 0x00) = b" by simp
  then show False using b byte_of_char_0 by metis
qed

end
