(* ===== verification/Keyring.thy ===== *)
theory Keyring
  imports Config
begin

text \<open>
  src/keyring.c: reading a key from the kernel's user keyring, adding one, and the HSM emulation that
  enrols development keys at boot.
\<close>

section \<open>Reading and adding a key\<close>

definition COMINIT_KEYRING_PAYLOAD_MAX_SIZE :: nat where
  [lits]: "COMINIT_KEYRING_PAYLOAD_MAX_SIZE = 512"

text \<open>
  Returns the length the kernel reports and the caller's buffer. \<^verbatim>\<open>KEYCTL_READ\<close> reports the length of
  the payload, which may exceed the size of the buffer, and writes into the buffer at most.
\<close>
definition cominitKeyringGetKey ::
    "byte list option \<Rightarrow> nat \<Rightarrow> string option \<Rightarrow> (int \<times> byte list option) op" where
  "cominitKeyringGetKey key keyMaxLen keyDesc =
     (case (key, keyDesc) of
        (Some buf, Some desc) \<Rightarrow>
          if length desc \<ge> 4095 then return (- 1, key)
          else do {
            s \<leftarrow> sys (Key (Keyctl_search desc));
            if rc s = - 1 then return (- 1, key)
            else do {
              r \<leftarrow> sys (Key (Keyctl_read (rc s) keyMaxLen));
              if rc r = - 1 then return (- 1, key)
              else return (rc r, Some (overlay (take keyMaxLen (take (nat (rc r)) (bytes r))) buf)) } }
      | _ \<Rightarrow> return (- 1, key))"

definition cominitKeyringAddUserKey :: "string option \<Rightarrow> byte list option \<Rightarrow> nat \<Rightarrow> int op" where
  "cominitKeyringAddUserKey keyDesc key keyLen =
     (case (key, keyDesc) of
        (Some k, Some desc) \<Rightarrow> do {
          r \<leftarrow> sys (Key (Add_key desc (take keyLen k)));
          if rc r = - 1 then return (- 1) else return 0 }
      | _ \<Rightarrow> return (- 1))"

section \<open>HSM emulation\<close>

text \<open>One turn of the loop of \<^verbatim>\<open>cominitKeyringInitFakeHsm\<close>: \<open>False\<close> is \<^verbatim>\<open>return -1\<close>.\<close>
definition fake_hsm_enrol :: "config \<Rightarrow> string \<Rightarrow> bool op" where
  "fake_hsm_enrol cfg runner = do {
     let keyPath = take (path_max cfg - 1) (hsm_key_dir cfg @ ''/'' @ runner @ ''.bin'');
     st \<leftarrow> sys (Fs (Stat keyPath));
     if rc st = - 1 then return False
     else if unat (val st) > COMINIT_KEYRING_PAYLOAD_MAX_SIZE then return False
     else do {
       f \<leftarrow> sys (Stream (Fopen keyPath ''rb''));
       if rc f = 0 then return False
       else do {
         d \<leftarrow> sys (Stream (Fread (unat (val st))));
         if rc d \<noteq> 1 then return False
         else do {
           a \<leftarrow> cominitKeyringAddUserKey (Some runner) (Some (take (unat (val st)) (bytes d)))
                 (unat (val st));
           return (a \<noteq> - 1) } } } }"

primrec fake_hsm_loop :: "config \<Rightarrow> string list \<Rightarrow> int op" where
  "fake_hsm_loop cfg [] = return 0"
| "fake_hsm_loop cfg (runner # rest) = do {
     good \<leftarrow> fake_hsm_enrol cfg runner;
     if good then fake_hsm_loop cfg rest else return (- 1) }"

definition cominitKeyringInitFakeHsm :: "config \<Rightarrow> int op" where
  "cominitKeyringInitFakeHsm cfg = fake_hsm_loop cfg (tokens '' '' (hsm_key_descs cfg))"

section \<open>Footprints and codes\<close>

definition key_event :: "event \<Rightarrow> bool" where
  "key_event e = (case e of (Key _, _) \<Rightarrow> True | _ \<Rightarrow> False)"

text \<open>The enrolment reads key files and adds keys; it mounts nothing and runs nothing.\<close>
definition enrol_event :: "event \<Rightarrow> bool" where
  "enrol_event e = (case e of
      (Key (Add_key _ _), _) \<Rightarrow> True | (Fs (Stat _), _) \<Rightarrow> True
    | (Stream (Fopen _ m), _) \<Rightarrow> m = ''rb'' | (Stream (Fread _), _) \<Rightarrow> True | _ \<Rightarrow> False)"

interpretation get_key: operation "cominitKeyringGetKey key n d" key_event
  unfolding cominitKeyringGetKey_def
  by unfold_locales (auto simp: key_event_def split: option.split intro!: emits_intros)

interpretation add_key: code_operation "cominitKeyringAddUserKey d k n" key_event 0 "- 1"
  unfolding cominitKeyringAddUserKey_def
  by unfold_locales
    (auto simp: key_event_def split: option.split intro!: emits_intros returns_intros)

lemma emits_fake_hsm_loop: "emits enrol_event (fake_hsm_loop cfg ds)"
proof (induction ds)
  case (Cons d ds)
  have "emits enrol_event (fake_hsm_enrol cfg d)"
    unfolding fake_hsm_enrol_def cominitKeyringAddUserKey_def
    by (auto simp: enrol_event_def intro!: emits_intros)
  with Cons show ?case by (auto intro!: emits_intros)
qed (auto intro: emits_intros)

lemma fake_hsm_loop_codes: "returns (\<lambda>a. a = 0 \<or> a = - 1) (fake_hsm_loop cfg ds)"
  by (induction ds) (auto intro!: returns_intros)

interpretation fake_hsm: code_operation "cominitKeyringInitFakeHsm cfg" enrol_event 0 "- 1"
  unfolding cominitKeyringInitFakeHsm_def
  by unfold_locales (auto intro: emits_fake_hsm_loop fake_hsm_loop_codes)

section \<open>Enrolment\<close>

text \<open>The descriptions of the keys that were added, in order.\<close>
definition added_keys :: "event list \<Rightarrow> string list" where
  "added_keys = List.map_filter (\<lambda>e. case e of
      (Key (Add_key d k), r) \<Rightarrow> if rc r = - 1 then None else Some d | _ \<Rightarrow> None)"

lemma added_keys_simps [simp]:
  "added_keys [] = []" "added_keys (a @ b) = added_keys a @ added_keys b"
  "added_keys ((Key (Add_key d k), r) # es) = (if rc r = - 1 then [] else [d]) @ added_keys es"
  "added_keys ((Fs f, r) # es) = added_keys es" "added_keys ((Stream s, r) # es) = added_keys es"
  by (simp_all add: added_keys_def List.map_filter_def)

text \<open>No key is larger than the payload buffer.\<close>
definition small_keys :: "event list \<Rightarrow> bool" where
  "small_keys = list_all (\<lambda>e. case e of
      (Key (Add_key d k), r) \<Rightarrow> length k \<le> COMINIT_KEYRING_PAYLOAD_MAX_SIZE | _ \<Rightarrow> True)"

lemma enrol_one:
  assumes "status w = Running"
  shows "wp (fake_hsm_enrol cfg d) (\<lambda>good w'. status w' = Running \<and> (\<exists>ext. trace w' = trace w @ ext
     \<and> added_keys ext = (if good then [d] else []) \<and> small_keys ext)) w"
  unfolding fake_hsm_enrol_def cominitKeyringAddUserKey_def using assms
  by (auto intro!: vcg simp: small_keys_def)

text \<open>The result and the calls of the loop: all keys in order, or those in front of the first failure.\<close>
definition enrolled :: "string list \<Rightarrow> int \<Rightarrow> event list \<Rightarrow> bool" where
  "enrolled ds a ext \<longleftrightarrow> small_keys ext \<and>
     (a = 0 \<and> added_keys ext = ds \<or> a = - 1 \<and> (\<exists>k < length ds. added_keys ext = take k ds))"

lemma enrolled_Cons:
  assumes "enrolled ds a y" and "added_keys x = [d]" and "small_keys x"
  shows "enrolled (d # ds) a (x @ y)"
  using assms by (auto simp: enrolled_def small_keys_def intro: exI [of _ "Suc k" for k])

lemma enrolled_stop: "added_keys x = [] \<Longrightarrow> small_keys x \<Longrightarrow> enrolled (d # ds) (- 1) x"
  by (auto simp: enrolled_def)

lemma enrol_loop:
  assumes "status w = Running"
  shows "wp (fake_hsm_loop cfg ds) (\<lambda>a w'. status w' = Running
     \<and> (\<exists>ext. trace w' = trace w @ ext \<and> enrolled ds a ext)) w"
  using assms
proof (induction ds arbitrary: w)
  case Nil
  then show ?case by (simp add: wp_simps small_keys_def enrolled_def)
next
  case (Cons d ds)
  have rest: "wp (fake_hsm_loop cfg ds) (\<lambda>a w'. status w' = Running
      \<and> (\<exists>ext. trace w' = trace w @ ext \<and> enrolled (d # ds) a ext)) v"
    if "status v = Running" "trace v = trace w @ x" "added_keys x = [d]" "small_keys x" for v x
    using that by (intro wp_mono [OF Cons.IH]) (auto intro: enrolled_Cons)
  show ?case
    unfolding fake_hsm_loop.simps
    by (rule vcg_bind, rule wp_mono [OF enrol_one [OF Cons.prems]])
      (auto intro!: vcg_if vcg_return rest intro: enrolled_stop split: if_splits)
qed

text \<open>The HSM emulation enrols the configured keys in their order and stops at the first failure: on
  return of 0 all of them have been added, on -1 a proper initial part; no key exceeds 512 bytes.\<close>
theorem enrol_order:
  assumes "status w = Running"
  shows "wp (cominitKeyringInitFakeHsm cfg) (\<lambda>a w'. status w' = Running
     \<and> (\<exists>ext. trace w' = trace w @ ext \<and> enrolled (tokens '' '' (hsm_key_descs cfg)) a ext)) w"
  unfolding cominitKeyringInitFakeHsm_def by (rule enrol_loop [OF assms])

theorem enrol_order_witness:
  "status (start (\<lambda>_ _. ok\<lparr>rc := 1, bytes := [7]\<rparr>) 0) = Running
   \<and> wp (cominitKeyringInitFakeHsm default_config) (\<lambda>a w'. status w' = Running
     \<and> (\<exists>ext. trace w' = ext \<and> enrolled (tokens '' '' (hsm_key_descs default_config)) a ext))
     (start (\<lambda>_ _. ok\<lparr>rc := 1, bytes := [7]\<rparr>) 0)"
  using enrol_order [of "start (\<lambda>_ _. ok\<lparr>rc := 1, bytes := [7]\<rparr>) 0" default_config] by simp

end
