(* ===== verification/Crypto.thy ===== *)
theory Crypto
  imports Config
begin

text \<open>
  src/crypto.c: verification of an RSASSA-PSS signature, the digest of a public key, and the
  generation of a passphrase. mbedTLS is called through \<open>Pk\<close> calls; its two supported major versions
  differ in the interface of \<^verbatim>\<open>mbedtls_rsa_set_padding\<close> only.
\<close>

definition SHA256_LEN :: nat where [lits]: "SHA256_LEN = 32"
definition DER_BUFFER_SIZE :: nat where [lits]: "DER_BUFFER_SIZE = 1600"

section \<open>Signature verification\<close>

definition cominitRsaSetPadding :: "config \<Rightarrow> int op" where
  "cominitRsaSetPadding cfg = do {
     r \<leftarrow> sys (Pk Rsa_set_padding_pss_sha256);
     return (if mbedtls_major cfg = 2 then 0 else rc r) }"

text \<open>The signature is a pointer: the model passes the memory it points to, up to the end of the
  caller's buffer. \<open>MBEDTLS_PK_NONE\<close> is 0.\<close>
definition cominitCryptoVerifySignature ::
    "config \<Rightarrow> byte list \<Rightarrow> nat \<Rightarrow> byte list \<Rightarrow> string \<Rightarrow> int op" where
  "cominitCryptoVerifySignature cfg data dataLen signature keyfile = do {
     run (Pk Pk_init);
     p \<leftarrow> sys (Pk (Pk_parse_public_keyfile keyfile));
     if rc p \<noteq> 0 then do { run (Pk Pk_free); return (- 1) }
     else do {
       keyType \<leftarrow> sys (Pk Pk_get_type);
       if rc keyType = 0 then do { run (Pk Pk_free); return (- 1) }
       else do {
         can \<leftarrow> sys (Pk Pk_can_do_rsa);
         if rc can = 0 then do { run (Pk Pk_free); return (- 1) }
         else do {
           e \<leftarrow> cominitRsaSetPadding cfg;
           if e \<noteq> 0 then do { run (Pk Pk_free); return (- 1) }
           else do {
             h \<leftarrow> sys (Pk (Sha256 (take dataLen data)));
             if rc h \<noteq> 0 then do { run (Pk Pk_free); return (- 1) }
             else do {
               v \<leftarrow> sys (Pk (Rsassa_pss_verify (take SHA256_LEN (bytes h)) signature));
               if rc v \<noteq> 0 then do { run (Pk Pk_free); return (- 1) }
               else do { run (Pk Pk_free); return 0 } } } } } } }"

section \<open>Digest of a public key\<close>

text \<open>\<^verbatim>\<open>mbedtls_pk_write_pubkey_der\<close> writes at the end of the buffer and returns the length.\<close>
definition cominitCreateSHA256DigestfromKeyfile ::
    "string option \<Rightarrow> byte list option \<Rightarrow> nat \<Rightarrow> (int \<times> byte list option) op" where
  "cominitCreateSHA256DigestfromKeyfile keyfile digest digestLen =
     (case (keyfile, digest) of
        (Some kf, Some buf) \<Rightarrow>
          if digestLen < SHA256_LEN then return (EXIT_FAILURE, digest)
          else do {
            run (Pk Pk_init);
            p \<leftarrow> sys (Pk (Pk_parse_public_keyfile kf));
            res \<leftarrow> (if rc p = 0 then do {
                     d \<leftarrow> sys (Pk (Pk_write_pubkey_der DER_BUFFER_SIZE));
                     if rc d > int DER_BUFFER_SIZE
                     then do { halt (Undefined OutOfBounds); return (EXIT_FAILURE, digest) }
                     else if rc d > 0 then do {
                       let der = replicate (DER_BUFFER_SIZE - length (bytes d)) 0
                                 @ take DER_BUFFER_SIZE (bytes d);
                       let pubKeyDer = drop (DER_BUFFER_SIZE - nat (rc d)) der;
                       h \<leftarrow> sys (Pk (Sha256 pubKeyDer));
                       let digest' = Some (overlay (take SHA256_LEN (bytes h)) buf);
                       return (if rc h = 0 then EXIT_SUCCESS else EXIT_FAILURE, digest') }
                     else return (EXIT_FAILURE, digest) }
                   else return (EXIT_FAILURE, digest));
            run (Pk Pk_free);
            return res }
      | _ \<Rightarrow> return (EXIT_FAILURE, digest))"

section \<open>Passphrase\<close>

text \<open>The first line of \<^verbatim>\<open>/proc/sys/kernel/random/boot_id\<close> without its line end, hashed.\<close>
definition cominitCryptoCreateUniqueString :: "(int \<times> byte list) op" where
  "cominitCryptoCreateUniqueString = do {
     f \<leftarrow> sys (Stream (Fopen ''/proc/sys/kernel/random/boot_id'' ''r''));
     if rc f = 0 then return (EXIT_FAILURE, replicate SHA256_LEN 0)
     else do {
       g \<leftarrow> sys (Stream (Fgets 256));
       res \<leftarrow> (if rc g = 0 then return (EXIT_FAILURE, replicate SHA256_LEN 0)
              else do {
                let buffer = takeWhile (\<lambda>b. b \<noteq> 0) (take 255 (bytes g));
                let line = takeWhile (\<lambda>b. b \<noteq> 0x0D \<and> b \<noteq> 0x0A) buffer;
                h \<leftarrow> sys (Pk (Sha256 line));
                let unique = overlay (take SHA256_LEN (bytes h)) (replicate SHA256_LEN 0);
                return (if rc h = 0 then EXIT_SUCCESS else EXIT_FAILURE, unique) });
       run (Stream Fclose);
       return res } }"

definition cominitCryptoCreatePassphrase ::
    "byte list option \<Rightarrow> nat \<Rightarrow> (int \<times> byte list option) op" where
  "cominitCryptoCreatePassphrase passphrase passphraseSize =
     (case passphrase of
        None \<Rightarrow> return (EXIT_FAILURE, passphrase)
      | Some buf \<Rightarrow>
          if passphraseSize = 0 then return (EXIT_FAILURE, passphrase)
          else do {
            run (Pk Entropy_init);
            run (Pk Drbg_init);
            (u, unique) \<leftarrow> cominitCryptoCreateUniqueString;
            s \<leftarrow> sys (Pk (Drbg_seed (if u = EXIT_FAILURE then [] else unique)));
            res \<leftarrow> (if rc s = 0 then do {
                     r \<leftarrow> sys (Pk (Drbg_random passphraseSize));
                     return (if rc r = 0 then EXIT_SUCCESS else EXIT_FAILURE,
                             Some (overlay (take passphraseSize (bytes r)) buf)) }
                   else return (EXIT_FAILURE, passphrase));
            run (Pk Drbg_free);
            run (Pk Entropy_free);
            return res })"

section \<open>Footprints and outcomes\<close>

definition pk_event :: "event \<Rightarrow> bool" where
  "pk_event e = (case e of (Pk _, _) \<Rightarrow> True | _ \<Rightarrow> False)"

lemma pk_event_simps [simp]:
  "pk_event (Pk c, r)" "\<not> pk_event (Fs f, r)" "\<not> pk_event (Proc q, r)"
  by (simp_all add: pk_event_def)

interpretation verify_signature:
    code_operation "cominitCryptoVerifySignature cfg data n sig keyfile" pk_event 0 "- 1"
  unfolding cominitCryptoVerifySignature_def cominitRsaSetPadding_def
  by unfold_locales (auto intro!: emits_intros returns_intros)

interpretation key_digest: operation "cominitCreateSHA256DigestfromKeyfile k d n" pk_event
  unfolding cominitCreateSHA256DigestfromKeyfile_def
  by unfold_locales (auto split: option.split intro!: emits_intros)

definition passphrase_event :: "event \<Rightarrow> bool" where
  "passphrase_event e = (case e of (Pk _, _) \<Rightarrow> True | (Stream (Fopen _ m), _) \<Rightarrow> m = ''r''
     | (Stream (Fgets _), _) \<Rightarrow> True | (Stream Fclose, _) \<Rightarrow> True | _ \<Rightarrow> False)"

interpretation passphrase: operation "cominitCryptoCreatePassphrase p n" passphrase_event
  unfolding cominitCryptoCreatePassphrase_def cominitCryptoCreateUniqueString_def
  by unfold_locales (auto simp: passphrase_event_def split: option.split intro!: emits_intros)

text \<open>
  The calls of an accepted signature: the public key was read from \<open>keyfile\<close>, the data was hashed,
  and mbedTLS accepted the signature over that hash.
\<close>
definition signature_accepted :: "string \<Rightarrow> byte list \<Rightarrow> byte list \<Rightarrow> event list \<Rightarrow> bool" where
  "signature_accepted keyfile data sig ext \<longleftrightarrow>
     (\<exists>i p t c s h v f.
        ext = [(Pk Pk_init, i), (Pk (Pk_parse_public_keyfile keyfile), p), (Pk Pk_get_type, t),
               (Pk Pk_can_do_rsa, c), (Pk Rsa_set_padding_pss_sha256, s), (Pk (Sha256 data), h),
               (Pk (Rsassa_pss_verify (take SHA256_LEN (bytes h)) sig), v), (Pk Pk_free, f)]
        \<and> rc p = 0 \<and> rc t \<noteq> 0 \<and> rc c \<noteq> 0 \<and> rc h = 0 \<and> rc v = 0)"

lemma verify_accepts:
  "wp (cominitCryptoVerifySignature cfg data n sig keyfile)
     (\<lambda>a w'. a = 0 \<longrightarrow> status w = Running \<longrightarrow> status w' = Running \<and> 
        (\<exists>ext. trace w' = trace w @ ext \<and> signature_accepted keyfile (take n data) sig ext)) w"
  by (auto simp: cominitCryptoVerifySignature_def cominitRsaSetPadding_def wp_simps
      signature_accepted_def)

section \<open>Every path of the verification\<close>

text \<open>The key context is set up by the first call and freed by the last one, and by no other.\<close>
definition released :: "event list \<Rightarrow> bool" where
  "released ext \<longleftrightarrow> ext \<noteq> [] \<and> fst (hd ext) = Pk Pk_init \<and> fst (last ext) = Pk Pk_free
     \<and> filter (\<lambda>c. c = Pk Pk_init \<or> c = Pk Pk_free) (map fst ext) = [Pk Pk_init, Pk Pk_free]"

text \<open>C13: Signature verification, for all answers of mbedTLS: it returns 0 exactly when the key was read, is
  an RSA key, the data was hashed and the signature over that hash accepted, and -1 otherwise; the
  key context is freed exactly once on every path.\<close>
theorem verify_signature_calls:
  assumes "status w = Running"
  shows "wp (cominitCryptoVerifySignature cfg data n sig keyfile) (\<lambda>a w'. status w' = Running
     \<and> (\<exists>ext. trace w' = trace w @ ext \<and> released ext
          \<and> (a = 0 \<and> signature_accepted keyfile (take n data) sig ext
             \<or> a = - 1 \<and> \<not> signature_accepted keyfile (take n data) sig ext))) w"
  unfolding cominitCryptoVerifySignature_def cominitRsaSetPadding_def using assms
  by (auto intro!: vcg simp: released_def signature_accepted_def)

theorem verify_signature_calls_witness:
  "status (start (\<lambda>_ _. ok) 0) = Running
   \<and> wp (cominitCryptoVerifySignature default_config [1, 2, 0] 2 [] ''/etc/rootfs_key_pub.pem'')
     (\<lambda>a w'. status w' = Running
       \<and> (\<exists>ext. trace w' = ext \<and> released ext
          \<and> (a = 0 \<and> signature_accepted ''/etc/rootfs_key_pub.pem'' [1, 2] [] ext
             \<or> a = - 1 \<and> \<not> signature_accepted ''/etc/rootfs_key_pub.pem'' [1, 2] [] ext)))
     (start (\<lambda>_ _. ok) 0)"
  using verify_signature_calls [of "start (\<lambda>_ _. ok) 0" default_config "[1, 2, 0]" 2 "[]"
      "''/etc/rootfs_key_pub.pem''"] by simp

end
