(* ===== verification/Meta.thy ===== *)
theory Meta
  imports Common Keyring Crypto
begin

unbundle bit_operations_syntax

text \<open>
  src/meta.c and inc/meta.h: the metadata region of the rootfs partition. It is read from the last 4
  KiB of the partition, its signature is verified, and its text is parsed into the record from which
  the rootfs is set up, with the device-mapper table for dm-verity or dm-integrity.
\<close>

section \<open>The metadata record\<close>

definition COMINIT_ROOTFS_KEY_LOCATION :: string where
  [lits]: "COMINIT_ROOTFS_KEY_LOCATION = ''/etc/rootfs_key_pub.pem''"
definition COMINIT_PART_META_DATA_VERSION :: string where
  [lits]: "COMINIT_PART_META_DATA_VERSION = ''1''"
definition COMINIT_DM_TABLE_SIZE_MAX :: nat where [lits]: "COMINIT_DM_TABLE_SIZE_MAX = 1024"
definition COMINIT_ROOTFS_DEV_PATH_MAX :: nat where [lits]: "COMINIT_ROOTFS_DEV_PATH_MAX = 256"
definition COMINIT_FSTYPE_STR_MAX_LEN :: nat where [lits]: "COMINIT_FSTYPE_STR_MAX_LEN = 32"
definition COMINIT_PART_META_DATA_SIZE :: nat where [lits]: "COMINIT_PART_META_DATA_SIZE = 4096"
definition COMINIT_PART_META_SIG_LENGTH :: nat where [lits]: "COMINIT_PART_META_SIG_LENGTH = 512"

definition COMINIT_CRYPTOPT_NONE :: byte where [lits]: "COMINIT_CRYPTOPT_NONE = 0"
definition COMINIT_CRYPTOPT_VERITY :: byte where [lits]: "COMINIT_CRYPTOPT_VERITY = 1"
definition COMINIT_CRYPTOPT_INTEGRITY :: byte where [lits]: "COMINIT_CRYPTOPT_INTEGRITY = 2"
definition COMINIT_CRYPTOPT_CRYPT :: byte where [lits]: "COMINIT_CRYPTOPT_CRYPT = 4"

record cominitRfsMetaData_t =
  devicePath :: string
  fsType :: string
  ro :: bool
  crypt :: byte
  dmVerintDataSizeBytes :: u64
  dmCryptDataSizeBytes :: u64
  dmTableVerint :: string
  dmTableCrypt :: string

text \<open>The initialiser \<^verbatim>\<open>{0}\<close>.\<close>
definition rfsMeta_zero :: cominitRfsMetaData_t where
  "rfsMeta_zero = \<lparr>devicePath = [], fsType = [], ro = False, crypt = 0, dmVerintDataSizeBytes = 0,
     dmCryptDataSizeBytes = 0, dmTableVerint = [], dmTableCrypt = []\<rparr>"

section \<open>Reading\<close>

text \<open>
  The loop of \<^verbatim>\<open>cominitBinReadall\<close>. Every turn reads to the beginning of \<^verbatim>\<open>buf\<close>: the pointer is not
  advanced.
\<close>
fun readall_loop :: "nat \<Rightarrow> byte list \<Rightarrow> int \<Rightarrow> nat \<Rightarrow> (int \<times> byte list) op" where
  "readall_loop n buf fd len =
     (if len = 0 then return (0, buf)
      else case n of
        0 \<Rightarrow> do { halt Spinning; return (- 1, buf) }
      | Suc n' \<Rightarrow> do {
          r \<leftarrow> sys (Fs (Read fd len));
          if rc r < 0 then return (- 1, buf)
          else if rc r > int len then do { halt (Undefined OutOfBounds); return (- 1, buf) }
          else readall_loop n' (overlay (take (nat (rc r)) (bytes r)) buf) fd (len - nat (rc r)) })"

declare readall_loop.simps [simp del]

definition cominitBinReadall ::
    "byte list option \<Rightarrow> int \<Rightarrow> int \<Rightarrow> nat \<Rightarrow> (int \<times> byte list option) op" where
  "cominitBinReadall buf fd offset len =
     (case buf of
        None \<Rightarrow> return (- 1, None)
      | Some b \<Rightarrow>
          if offset < 0 then return (- 1, buf)
          else do {
            s \<leftarrow> sys (Fs (Lseek fd offset));
            if rc s = - 1 then return (- 1, buf)
            else do {
              n \<leftarrow> get_fuel;
              (res, b') \<leftarrow> readall_loop n b fd len;
              return (res, Some b') } })"

section \<open>Hexadecimal text\<close>

text \<open>
  The loop of \<^verbatim>\<open>cominitBytesToHex\<close>, with the number of bytes left and the index. Each turn prints two
  digits and the terminating zero to \<^verbatim>\<open>dest + 2 * i\<close>, so that a zero is overwritten by the next turn.
  \<^verbatim>\<open>snprintf\<close> cannot fail for this format.
\<close>
primrec hex_loop :: "nat \<Rightarrow> nat \<Rightarrow> string \<Rightarrow> byte list \<Rightarrow> (int \<times> string) op" where
  "hex_loop 0 i dest src = return (0, dest)"
| "hex_loop (Suc left) i dest src =
     (if i < length src \<and> 2 * i + 3 \<le> length dest
      then hex_loop left (Suc i) (write_at (2 * i) (hexw 2 (unat (src ! i)) @ [CHR 0x00]) dest) src
      else do { halt (Undefined OutOfBounds); return (- 1, dest) })"

text \<open>The destination is the whole buffer.\<close>
definition cominitBytesToHex ::
    "string option \<Rightarrow> byte list option \<Rightarrow> nat \<Rightarrow> (int \<times> string option) op" where
  "cominitBytesToHex dest src n =
     (case (dest, src) of
        (Some d, Some s) \<Rightarrow> do {
          (r, d') \<leftarrow> hex_loop n 0 d s;
          return (r, Some d') }
      | _ \<Rightarrow> return (- 1, dest))"

section \<open>dm-verity\<close>

definition cominitGenVerityDmTbl ::
    "cominitRfsMetaData_t option \<Rightarrow> string option \<Rightarrow> int \<times> cominitRfsMetaData_t option" where
  "cominitGenVerityDmTbl meta dmMetaStr =
     (case (meta, dmMetaStr) of
        (Some m, Some str) \<Rightarrow>
          if crypt m \<noteq> COMINIT_CRYPTOPT_VERITY then (- 1, meta)
          else (case strtok_r '' '' str of None \<Rightarrow> (- 1, meta) | Some (verityVersion, st) \<Rightarrow>
            (case strtok_r [] st of None \<Rightarrow> (- 1, meta) | Some (verityTblTail, _) \<Rightarrow>
              (let tbl = verityVersion @ '' '' @ devicePath m @ '' '' @ devicePath m @ '' ''
                         @ verityTblTail;
                   m1 = m\<lparr>dmTableVerint := take (COMINIT_DM_TABLE_SIZE_MAX - 1) tbl\<rparr> in
               if length tbl \<ge> COMINIT_DM_TABLE_SIZE_MAX then (- 1, Some m1)
               else
                (case strtok_r '' '' verityTblTail of None \<Rightarrow> (- 1, Some m1) | Some (blkSize, st1) \<Rightarrow>
                  (let m2 = m1\<lparr>dmVerintDataSizeBytes := value_of (strtoul 10 blkSize)\<rparr> in
                   case strtok_r '' '' st1 of None \<Rightarrow> (- 1, Some m2) | Some (hashBlkSize, st2) \<Rightarrow>
                    (case strtok_r '' '' st2 of None \<Rightarrow> (- 1, Some m2) | Some (blocks, st3) \<Rightarrow>
                      (let m3 = m2\<lparr>dmVerintDataSizeBytes :=
                                   dmVerintDataSizeBytes m2 * value_of (strtoul 10 blocks)\<rparr> in
                       case strtok_r '' '' st3 of None \<Rightarrow> (- 1, Some m3) | Some (hashStart, st4) \<Rightarrow>
                        (case strtok_r '' '' st4 of None \<Rightarrow> (- 1, Some m3) | Some (hashAlg, _) \<Rightarrow>
                          (0, Some m3)))))))))
      | _ \<Rightarrow> (- 1, meta))"

section \<open>dm-integrity\<close>

definition keyOpts :: "string list" where
  [lits]: "keyOpts = [''internal_hash:'', ''journal_crypt:'', ''journal_mac:'']"

text \<open>
  The name of the algorithm that is copied for a log message, and only for it. The offset is the
  length of the first of \<^verbatim>\<open>keyOpts\<close> for each of them; \<open>None\<close> is an option so short that what lies behind its
  end is copied.
\<close>
definition hashTmp :: "string \<Rightarrow> string option" where
  "hashTmp opt = (if length (keyOpts ! 0) \<le> length opt
     then Some (take 31 (takeWhile (\<lambda>c. c \<noteq> CHR 0x3A) (drop (length (keyOpts ! 0)) opt))) else None)"

text \<open>
  One option of the dm-integrity table: an option that takes a key and has the form \<open>opt::desc\<close> gets
  the payload of key \<open>desc\<close> in place of its description. \<open>None\<close> is \<^verbatim>\<open>return -1\<close>; otherwise the text
  \<^verbatim>\<open>snprintf\<close> formats, which reads \<open>keyHex\<close> up to its zero.
\<close>
definition integrity_option :: "string \<Rightarrow> string option op" where
  "integrity_option opt =
     (let optionalKey = (\<exists>k \<in> set keyOpts. starts_with opt k);
          keyDesc = (if optionalKey then find_sub ''::'' opt else None) in
      case keyDesc of
        Some (front, desc) \<Rightarrow>
          if length desc > 2 then do {
            let opt' = front @ '':'';
            (keyLen, keyBytes) \<leftarrow> cominitKeyringGetKey
               (Some (replicate COMINIT_KEYRING_PAYLOAD_MAX_SIZE 0))
               COMINIT_KEYRING_PAYLOAD_MAX_SIZE (Some (drop 2 desc));
            if keyLen < 1 then return None
            else do {
              (h, keyHex) \<leftarrow> cominitBytesToHex
                 (Some (replicate (2 * COMINIT_KEYRING_PAYLOAD_MAX_SIZE + 1) (CHR 0x00)))
                 keyBytes (nat keyLen);
              if h = - 1 then return None
              else return (Some (opt' @ takeWhile (\<lambda>c. c \<noteq> CHR 0x00) (the keyHex) @ '' '')) } }
          else return (Some (opt @ '' ''))
      | None \<Rightarrow> return (Some (opt @ '' '')))"

primrec integrity_options :: "string \<Rightarrow> string list \<Rightarrow> string option op" where
  "integrity_options procAddOpts [] = return (Some procAddOpts)"
| "integrity_options procAddOpts (opt # opts) = do {
     text \<leftarrow> integrity_option opt;
     case text of
       None \<Rightarrow> return None
     | Some t \<Rightarrow>
         let n = COMINIT_DM_TABLE_SIZE_MAX - length procAddOpts in
         if length t \<ge> n then return None
         else integrity_options (procAddOpts @ t) opts }"

definition cominitGenIntegrityDmTbl ::
    "cominitRfsMetaData_t option \<Rightarrow> string option \<Rightarrow> (int \<times> cominitRfsMetaData_t option) op" where
  "cominitGenIntegrityDmTbl meta dmMetaStr =
     (case (meta, dmMetaStr) of
        (Some m, Some str) \<Rightarrow>
          if crypt m \<noteq> COMINIT_CRYPTOPT_INTEGRITY then return (- 1, meta)
          else (case strtok_r '' '' str of None \<Rightarrow> return (- 1, meta) | Some (blocks, st1) \<Rightarrow>
            (let m1 = m\<lparr>dmVerintDataSizeBytes := value_of (strtoul 10 blocks)\<rparr> in
             case strtok_r '' '' st1 of None \<Rightarrow> return (- 1, Some m1) | Some (blksize, st2) \<Rightarrow>
              (let m2 = m1\<lparr>dmVerintDataSizeBytes :=
                           dmVerintDataSizeBytes m1 * value_of (strtoul 10 blksize)\<rparr> in
               case strtok_r '' '' st2 of None \<Rightarrow> return (- 1, Some m2) | Some (numOptStr, st3) \<Rightarrow>
                (case strtok_r [] st3 of None \<Rightarrow> return (- 1, Some m2) | Some (addOpts, _) \<Rightarrow> do {
                  proc \<leftarrow> integrity_options [] (tokens '' '' addOpts);
                  case proc of
                    None \<Rightarrow> return (- 1, Some m2)
                  | Some procAddOpts \<Rightarrow>
                      let numOpts = value_of (strtoul 10 numOptStr);
                          tbl = devicePath m @ '' 0 - J '' @ udec (unat (numOpts + 1))
                                @ '' block_size:'' @ blksize @ '' '' @ procAddOpts;
                          m3 = m2\<lparr>dmTableVerint := take (COMINIT_DM_TABLE_SIZE_MAX - 1) tbl\<rparr> in
                      if length tbl \<ge> COMINIT_DM_TABLE_SIZE_MAX then return (- 1, Some m3)
                      else return (0, Some m3) }))))
      | _ \<Rightarrow> return (- 1, meta))"

section \<open>Parsing\<close>

text \<open>The \<^verbatim>\<open>strcmp\<close> cascade for the crypt field.\<close>
definition crypt_of_name :: "string \<Rightarrow> byte option" where
  "crypt_of_name s =
     (if s = ''plain'' then Some COMINIT_CRYPTOPT_NONE
      else if s = ''verity'' then Some COMINIT_CRYPTOPT_VERITY
      else if s = ''integrity'' then Some COMINIT_CRYPTOPT_INTEGRITY
      else if s = ''crypt'' then Some COMINIT_CRYPTOPT_CRYPT
      else if s = ''crypt-integrity'' then Some (COMINIT_CRYPTOPT_CRYPT OR COMINIT_CRYPTOPT_INTEGRITY)
      else if s = ''crypt-verity'' then Some (COMINIT_CRYPTOPT_CRYPT OR COMINIT_CRYPTOPT_VERITY)
      else None)"

definition cominitParseMetadata ::
    "cominitRfsMetaData_t option \<Rightarrow> string option \<Rightarrow> (int \<times> cominitRfsMetaData_t option) op" where
  "cominitParseMetadata meta metaStr =
     (case (meta, metaStr) of
        (Some m, Some str) \<Rightarrow>
          if \<not> starts_with str COMINIT_PART_META_DATA_VERSION then return (- 1, meta)
          else (case cut_at (CHR 0xFF) str of None \<Rightarrow> return (- 1, meta) | Some (settings, rest) \<Rightarrow>
            (case cut_at (CHR 0xFF) rest of None \<Rightarrow> return (- 1, meta)
             | Some (dmTblVerintStr, dmTblCryptStr) \<Rightarrow>
              (case strtok_r '' '' settings of None \<Rightarrow> return (- 1, meta) | Some (version, st1) \<Rightarrow>
               (case strtok_r '' '' st1 of None \<Rightarrow> return (- 1, meta) | Some (fs, st2) \<Rightarrow>
                (let m1 = m\<lparr>fsType := take (COMINIT_FSTYPE_STR_MAX_LEN - 1) fs\<rparr> in
                 case strtok_r '' '' st2 of None \<Rightarrow> return (- 1, Some m1) | Some (mode, st3) \<Rightarrow>
                  if mode \<noteq> ''ro'' \<and> mode \<noteq> ''rw'' then return (- 1, Some m1)
                  else (let m2 = m1\<lparr>ro := (mode = ''ro'')\<rparr> in
                   case strtok_r '' '' st3 of None \<Rightarrow> return (- 1, Some m2) | Some (cname, st4) \<Rightarrow>
                    (case crypt_of_name cname of None \<Rightarrow> return (- 1, Some m2) | Some c \<Rightarrow>
                     (let m3 = m2\<lparr>crypt := c\<rparr> in
                      if c XOR (COMINIT_CRYPTOPT_VERITY OR COMINIT_CRYPTOPT_INTEGRITY) = 0
                      then return (- 1, Some m3)
                      else (let m4 = m3\<lparr>dmTableVerint := [], dmTableCrypt := []\<rparr> in
                       if c = COMINIT_CRYPTOPT_VERITY
                       then return (cominitGenVerityDmTbl (Some m4) (Some dmTblVerintStr))
                       else if c = COMINIT_CRYPTOPT_INTEGRITY
                       then cominitGenIntegrityDmTbl (Some m4) (Some dmTblVerintStr)
                       else return (0, Some m4)))))))))) 
      | _ \<Rightarrow> return (- 1, meta))"

section \<open>Loading and verifying\<close>

definition cominitLoadVerifyMetadata ::
    "config \<Rightarrow> cominitRfsMetaData_t \<Rightarrow> string \<Rightarrow> (int \<times> cominitRfsMetaData_t) op" where
  "cominitLoadVerifyMetadata cfg meta keyfile = do {
     part \<leftarrow> sys (Fs (Open (devicePath meta) [O_RDONLY]));
     let partFd = rc part;
     if partFd = - 1 then return (- 1, meta)
     else do {
       (e, partSize) \<leftarrow> cominitCommonGetPartSize (Some 0) partFd;
       if e = - 1 then do { run (Fs (Close partFd)); return (- 1, meta) }
       else do {
         let metadataOffset = sint (the partSize - of_nat COMINIT_PART_META_DATA_SIZE);
         (e2, buf) \<leftarrow> cominitBinReadall (Some (replicate COMINIT_PART_META_DATA_SIZE 0)) partFd
                       metadataOffset COMINIT_PART_META_DATA_SIZE;
         if e2 = - 1 then do { run (Fs (Close partFd)); return (- 1, meta) }
         else do {
           run (Fs (Close partFd));
           let metabuf = the buf;
           let metaLen = length (takeWhile (\<lambda>b. b \<noteq> 0) metabuf);
           if metaLen \<ge> COMINIT_PART_META_DATA_SIZE - COMINIT_PART_META_SIG_LENGTH - 1
           then return (- 1, meta)
           else do {
             v \<leftarrow> cominitCryptoVerifySignature cfg metabuf (metaLen + 1) (drop (metaLen + 1) metabuf)
                    keyfile;
             if v = - 1 then return (- 1, meta)
             else do {
               (p, meta') \<leftarrow> cominitParseMetadata (Some meta) (Some (cstr metabuf));
               if p = - 1 then return (- 1, the meta') else return (0, the meta') } } } } } }"

section \<open>Footprints\<close>

text \<open>Loading the metadata only reads: the partition, the keyring, and the key file.\<close>
definition load_event :: "event \<Rightarrow> bool" where
  "load_event e = (case e of
      (Fs (Open _ fl), _) \<Rightarrow> fl = [O_RDONLY] | (Fs (Close _), _) \<Rightarrow> True | (Fs (Lseek _ _), _) \<Rightarrow> True
    | (Fs (Read _ _), _) \<Rightarrow> True | (Dev (Blkgetsize64 _), _) \<Rightarrow> True | (Pk _, _) \<Rightarrow> True
    | (Key (Keyctl_search _), _) \<Rightarrow> True | (Key (Keyctl_read _ _), _) \<Rightarrow> True | _ \<Rightarrow> False)"

lemma load_event_simps [simp]:
  "load_event (Fs (Open p fl), r) = (fl = [O_RDONLY])" "load_event (Fs (Close fd), r)"
  "load_event (Fs (Lseek fd o'), r)" "load_event (Fs (Read fd n), r)"
  "load_event (Dev (Blkgetsize64 fd), r)" "load_event (Pk c, r)"
  "load_event (Key (Keyctl_search d), r)" "load_event (Key (Keyctl_read i n), r)"
  "\<not> load_event (Fs (Mount s t ty mf), r)" "\<not> load_event (Proc q, r)"
  "\<not> load_event (Key (Add_key d k), r)"
  by (simp_all add: load_event_def)

lemma emits_readall_loop: "emits load_event (readall_loop n buf fd len)"
proof (induction n arbitrary: buf len)
  case 0
  show ?case by (subst readall_loop.simps) (auto intro!: emits_intros)
next
  case (Suc n)
  show ?case by (subst readall_loop.simps) (auto intro!: emits_intros Suc)
qed

lemma emits_readall [emits_intros]: "emits load_event (cominitBinReadall buf fd off len)"
  unfolding cominitBinReadall_def by (auto intro!: emits_intros emits_readall_loop split: option.split)

lemma emits_get_key [emits_intros]: "emits load_event (cominitKeyringGetKey key n d)"
  unfolding cominitKeyringGetKey_def by (auto intro!: emits_intros split: option.split)

lemma emits_verify [emits_intros]: "emits load_event (cominitCryptoVerifySignature cfg d n s k)"
  by (rule emits_mono [OF verify_signature.footprint]) (auto simp: pk_event_def split: call.splits)

lemma emits_hex_loop: "emits K (hex_loop left i dest src)"
  by (induction left arbitrary: i dest) (auto intro!: emits_intros)

lemma emits_bytes_to_hex [emits_intros]: "emits K (cominitBytesToHex dest src n)"
  unfolding cominitBytesToHex_def by (auto intro!: emits_intros emits_hex_loop split: option.split)

lemma emits_integrity_option [emits_intros]: "emits load_event (integrity_option opt)"
  unfolding integrity_option_def by (auto intro!: emits_intros)

lemma emits_integrity_options [emits_intros]: "emits load_event (integrity_options acc opts)"
  by (induction opts arbitrary: acc) (auto intro!: emits_intros)

lemma emits_gen_integrity [emits_intros]: "emits load_event (cominitGenIntegrityDmTbl meta str)"
  unfolding cominitGenIntegrityDmTbl_def by (auto intro!: emits_intros split: option.split)

lemma emits_parse [emits_intros]: "emits load_event (cominitParseMetadata meta str)"
  unfolding cominitParseMetadata_def by (auto intro!: emits_intros split: option.split)

lemma emits_part_size [emits_intros]: "emits load_event (cominitCommonGetPartSize p fd)"
  unfolding cominitCommonGetPartSize_def by (auto intro!: emits_intros split: option.split)

interpretation parse_metadata: operation "cominitParseMetadata meta str" load_event
  by unfold_locales (rule emits_parse)

interpretation load_metadata: operation "cominitLoadVerifyMetadata cfg meta keyfile" load_event
  unfolding cominitLoadVerifyMetadata_def
  by unfold_locales (auto intro!: emits_intros)

section \<open>Results of the operations\<close>

lemma readall_loop_length:
  "len \<le> length buf \<Longrightarrow> returns (\<lambda>(e, b). length b = length buf) (readall_loop n buf fd len)"
proof (induction n arbitrary: buf len)
  case 0
  then show ?case by (subst readall_loop.simps) (auto intro!: returns_intros)
next
  case (Suc n)
  have step: "returns (\<lambda>(e, b). length b = length buf)
      (readall_loop n (overlay (take (nat (rc r)) (bytes r)) buf) fd (len - nat (rc r)))"
    if "\<not> rc r > int len" for r
  proof -
    have "length (overlay (take (nat (rc r)) (bytes r)) buf) = length buf"
      using that Suc.prems by (auto simp: max_def)
    with Suc.IH [of "len - nat (rc r)" "overlay (take (nat (rc r)) (bytes r)) buf"] Suc.prems
    show ?thesis by auto
  qed
  show ?case by (subst readall_loop.simps) (auto intro!: returns_intros step)
qed

lemma readall_length:
  assumes "len \<le> length b"
  shows "returns (\<lambda>(e, buf). \<exists>b'. buf = Some b' \<and> length b' = length b)
           (cominitBinReadall (Some b) fd off len)"
  unfolding cominitBinReadall_def option.case
  by (auto intro!: returns_structure returns_bind_spec [OF readall_loop_length [OF assms]])

lemma gen_verity_shape:
  "cominitGenVerityDmTbl (Some m) (Some s) = (e, m') \<Longrightarrow> (e = 0 \<or> e = - 1) \<and> m' \<noteq> None"
  by (auto simp: cominitGenVerityDmTbl_def Let_def split: if_splits option.splits)

lemma gen_integrity_shape:
  "returns (\<lambda>(e, m'). (e = 0 \<or> e = - 1) \<and> m' \<noteq> None) (cominitGenIntegrityDmTbl (Some m) (Some s))"
  unfolding cominitGenIntegrityDmTbl_def
  by (auto intro!: returns_intros)

lemma parse_shape:
  "returns (\<lambda>(e, m'). (e = 0 \<or> e = - 1) \<and> m' \<noteq> None) (cominitParseMetadata (Some m) (Some s))"
  unfolding cominitParseMetadata_def
  by (auto simp del: not_None_eq intro!: returns_structure gen_integrity_shape dest: gen_verity_shape)

section \<open>What is read and accepted\<close>

text \<open>The buffer after the given reads of \<open>len\<close> bytes in all, each of them to its beginning.\<close>
primrec filled :: "int \<Rightarrow> event list \<Rightarrow> nat \<Rightarrow> byte list \<Rightarrow> byte list option" where
  "filled fd [] len buf = (if len = 0 then Some buf else None)"
| "filled fd (e # es) len buf =
     (if len \<noteq> 0 \<and> fst e = Fs (Read fd len) \<and> 0 \<le> rc (snd e) \<and> rc (snd e) \<le> int len
      then filled fd es (len - nat (rc (snd e))) (overlay (take (nat (rc (snd e))) (bytes (snd e))) buf)
      else None)"

lemma readall_loop_filled:
  assumes "status w = Running"
  shows "wp (readall_loop n buf fd len) (\<lambda>(e, b) w'. e = 0 \<and> status w' = Running \<longrightarrow>
     (\<exists>reads. trace w' = trace w @ reads \<and> filled fd reads len buf = Some b)) w"
  using assms
proof (induction n arbitrary: buf len w)
  case 0
  then show ?case by (subst readall_loop.simps) (auto simp: wp_simps)
next
  case (Suc n)
  show ?case
  proof (cases "len = 0")
    case True
    with Suc.prems show ?thesis by (subst readall_loop.simps) (auto simp: wp_simps)
  next
    case False
    let ?r = "env w (trace w) (Fs (Read fd len))"
    let ?w = "w\<lparr>trace := trace w @ [(Fs (Read fd len), ?r)]\<rparr>"
    let ?buf = "overlay (take (nat (rc ?r)) (bytes ?r)) buf"
    have "wp (readall_loop n ?buf fd (len - nat (rc ?r))) (\<lambda>(e, b) w'. e = 0 \<and> status w' = Running \<longrightarrow>
        (\<exists>reads. trace w' = trace w @ reads \<and> filled fd reads len buf = Some b)) ?w" if "0 \<le> rc ?r" "rc ?r \<le> int len"
      by (rule wp_mono [OF Suc.IH]) (use that False Suc.prems in auto)
    with False Suc.prems show ?thesis by (subst readall_loop.simps) (auto simp: wp_simps)
  qed
qed

text \<open>
  The calls that read the region of a device into a buffer: the device is opened, asked for its size,
  positioned 4096 bytes in front of its end, read, and closed.
\<close>
definition region_read :: "string \<Rightarrow> byte list \<Rightarrow> event list \<Rightarrow> bool" where
  "region_read dev metabuf ext \<longleftrightarrow> (\<exists>o' s l reads c.
     let fd = rc o'; off = sint (val s - of_nat COMINIT_PART_META_DATA_SIZE) in
     ext = [(Fs (Open dev [O_RDONLY]), o'), (Dev (Blkgetsize64 fd), s), (Fs (Lseek fd off), l)]
           @ reads @ [(Fs (Close fd), c)]
     \<and> fd \<noteq> - 1 \<and> rc s \<noteq> - 1 \<and> 0 \<le> off \<and> rc l \<noteq> - 1
     \<and> filled fd reads COMINIT_PART_META_DATA_SIZE (replicate COMINIT_PART_META_DATA_SIZE 0) = Some metabuf)"

text \<open>The length of the text of a region, which a zero ends.\<close>
definition text_length :: "byte list \<Rightarrow> nat" where
  "text_length metabuf = length (takeWhile (\<lambda>b. b \<noteq> 0) metabuf)"

text \<open>
  Calls in which the region of a device was read and accepted: the signature is over exactly the text
  read and its terminating zero, and taken from behind it.
\<close>
definition region_accepted :: "string \<Rightarrow> string \<Rightarrow> byte list \<Rightarrow> event list \<Rightarrow> event list \<Rightarrow> bool" where
  "region_accepted keyfile dev metabuf reads acc \<longleftrightarrow> region_read dev metabuf reads
     \<and> length metabuf = COMINIT_PART_META_DATA_SIZE
     \<and> text_length metabuf + 1 + COMINIT_PART_META_SIG_LENGTH \<le> COMINIT_PART_META_DATA_SIZE
     \<and> signature_accepted keyfile (take (text_length metabuf + 1) metabuf) (drop (text_length metabuf + 1) metabuf) acc"

text \<open>Verification and parsing, once the region is in memory.\<close>
lemma verify_then_parse:
  assumes "run_state (do {
       v \<leftarrow> cominitCryptoVerifySignature cfg metabuf n sig keyfile;
       if v = - 1 then return (- 1, meta)
       else do {
         (p, meta') \<leftarrow> cominitParseMetadata (Some meta) (Some (cstr metabuf));
         if p = - 1 then return (- 1, the meta') else return (0, the meta') } }) w
     = ((0 :: int, m'), w')"
    and "status w' = Running"
  shows "\<exists>acc. signature_accepted keyfile (take n metabuf) sig acc
     \<and> run_state (cominitParseMetadata (Some meta) (Some (cstr metabuf))) (w\<lparr>trace := trace w @ acc\<rparr>) = ((0, Some m'), w')"
proof -
  obtain v w1 where v: "run_state (cominitCryptoVerifySignature cfg metabuf n sig keyfile) w = (v, w1)"
    by fastforce
  obtain p m2 w2 where p: "run_state (cominitParseMetadata (Some meta) (Some (cstr metabuf))) w1
      = ((p, m2), w2)" by (metis surj_pair)
  from assms v p have v0: "v \<noteq> - 1" and p0: "p \<noteq> - 1" and w': "w' = w2" and m': "m' = the m2"
    by (auto split: if_splits)
  from returnsD [OF parse_shape p] p0 m' have p1: "p = 0" "m2 = Some m'" by auto
  from p w' assms(2) have run1: "status w1 = Running" by (auto dest: parse_metadata.still_running)
  with v have run: "status w = Running" by (auto dest: verify_signature.still_running)
  from v v0 have "v = 0" by (simp add: verify_signature.not_bad)
  with wp_run_state [OF verify_accepts v] run obtain acc where
    acc: "trace w1 = trace w @ acc" "signature_accepted keyfile (take n metabuf) sig acc" by blast
  then have "w1 = w\<lparr>trace := trace w @ acc\<rparr>"
    using emitsD(1,2) [OF emits_verify v] run run1 by (intro world.equality) simp_all
  with acc p p1 w' show ?thesis by blast
qed

lemma readall_loop_codes: "returns (\<lambda>(e, b). e = 0 \<or> e = - 1) (readall_loop n buf fd len)"
proof (induction n arbitrary: buf len)
  case 0
  show ?case by (subst readall_loop.simps) (auto intro!: returns_intros)
next
  case (Suc n)
  show ?case by (subst readall_loop.simps) (auto intro!: returns_intros Suc)
qed

lemma readall_read:
  assumes "status w = Running"
  shows "wp (cominitBinReadall (Some b) fd off len) (\<lambda>(e, b') w'. (e = 0 \<or> e = - 1) \<and> (e = 0 \<and> status w' = Running \<longrightarrow>
     (\<exists>l reads. trace w' = trace w @ (Fs (Lseek fd off), l) # reads \<and> 0 \<le> off \<and> rc l \<noteq> - 1
        \<and> filled fd reads len b = Some (the b')))) w"
proof -
  have "wp (readall_loop n b fd len) (\<lambda>(e, b') w'. (e = 0 \<or> e = - 1) \<and> (e = 0 \<and> status w' = Running \<longrightarrow>
     (\<exists>reads. trace w' = trace v @ reads \<and> filled fd reads len b = Some b'))) v" if "status v = Running" for n v
    by (rule wpI) (use wp_run_state [OF readall_loop_filled [OF that]] returnsD [OF readall_loop_codes] in fastforce)
  note loop = wp_mono [OF this]
  show ?thesis
    unfolding cominitBinReadall_def option.case using assms by (auto intro!: vcg loop)
qed

text \<open>The part of the loading up to the end of reading.\<close>
lemma read_region:
  assumes "run_state (sys (Fs (Open dev [O_RDONLY]))) w = (r1, w1)"
    and "run_state (cominitCommonGetPartSize (Some 0) (rc r1)) w1 = ((e2, sz), w2)"
    and "run_state (cominitBinReadall (Some (replicate COMINIT_PART_META_DATA_SIZE 0)) (rc r1)
         (sint (the sz - of_nat COMINIT_PART_META_DATA_SIZE)) COMINIT_PART_META_DATA_SIZE) w2 = ((e3, b), w3)"
    and "run_state (run (Fs (Close (rc r1)))) w3 = ((), w4)"
    and "rc r1 \<noteq> - 1" "e2 \<noteq> - 1" "e3 \<noteq> - 1" and "status w4 = Running"
  shows "\<exists>reads. w4 = w\<lparr>trace := trace w @ reads\<rparr> \<and> region_read dev (the b) reads"
proof -
  from assms(4,8) have r3: "status w3 = Running" by (auto simp: run_def sys_def Let_def split: if_splits)
  then have r2: "status w2 = Running" using emitsD(4) [OF emits_readall assms(3)] by metis
  then have r1: "status w1 = Running" using emitsD(4) [OF emits_part_size assms(2)] by metis
  then have r0: "status w = Running" using assms(1) by (auto simp: sys_def Let_def split: if_splits)
  from assms(1) r0 have t1: "w1 = w\<lparr>trace := trace w @ [(Fs (Open dev [O_RDONLY]), r1)]\<rparr>"
    by (auto simp: sys_def Let_def)
  from assms(2,6) r1 obtain s where t2: "w2 = w1\<lparr>trace := trace w1 @ [(Dev (Blkgetsize64 (rc r1)), s)]\<rparr>"
    "rc s \<noteq> - 1" "sz = Some (val s)"
    by (auto simp: cominitCommonGetPartSize_def sys_def Let_def split: if_splits)
  define off where "off = sint (val s - of_nat COMINIT_PART_META_DATA_SIZE)"
  have read: "run_state (cominitBinReadall (Some (replicate COMINIT_PART_META_DATA_SIZE 0)) (rc r1) off
      COMINIT_PART_META_DATA_SIZE) w2 = ((e3, b), w3)" using assms(3) t2(3) by (simp add: off_def)
  from wp_run_state [OF readall_read [OF r2] read] assms(7) r3 obtain l reads where
    t3: "trace w3 = trace w2 @ (Fs (Lseek (rc r1) off), l) # reads" "0 \<le> off" "rc l \<noteq> - 1"
      "filled (rc r1) reads COMINIT_PART_META_DATA_SIZE (replicate COMINIT_PART_META_DATA_SIZE 0) = Some (the b)"
    by auto
  have w3: "w3 = w2\<lparr>trace := trace w3\<rparr>"
    using emitsD(1,2) [OF emits_readall read] r2 r3 by (intro world.equality) simp_all
  from assms(4) r3 obtain c where t4: "w4 = w3\<lparr>trace := trace w3 @ [(Fs (Close (rc r1)), c)]\<rparr>"
    by (auto simp: run_def sys_def Let_def)
  let ?reads = "[(Fs (Open dev [O_RDONLY]), r1), (Dev (Blkgetsize64 (rc r1)), s), (Fs (Lseek (rc r1) off), l)]
    @ reads @ [(Fs (Close (rc r1)), c)]"
  have "w4 = w\<lparr>trace := trace w @ ?reads\<rparr>" unfolding t4 by (subst w3) (simp add: t3(1) t2(1) t1)
  moreover have "region_read dev (the b) ?reads"
    unfolding region_read_def Let_def off_def [symmetric] using t2 t3 assms(5) off_def by blast
  ultimately show ?thesis by blast
qed

lemma load_accepted:
  assumes "run_state (cominitLoadVerifyMetadata cfg meta keyfile) w = ((0, meta'), w')"
    and "status w' = Running"
  shows "\<exists>metabuf reads acc. region_accepted keyfile (devicePath meta) metabuf reads acc
     \<and> run_state (cominitParseMetadata (Some meta) (Some (cstr metabuf))) (w\<lparr>trace := trace w @ reads @ acc\<rparr>)
         = ((0, Some meta'), w')"
proof -
  from assms(1) obtain r1 w1 e2 sz w2 e3 b w3 w4 where
    steps: "run_state (sys (Fs (Open (devicePath meta) [O_RDONLY]))) w = (r1, w1)"
      "run_state (cominitCommonGetPartSize (Some 0) (rc r1)) w1 = ((e2, sz), w2)"
      "run_state (cominitBinReadall (Some (replicate COMINIT_PART_META_DATA_SIZE 0)) (rc r1)
         (sint (the sz - of_nat COMINIT_PART_META_DATA_SIZE)) COMINIT_PART_META_DATA_SIZE) w2
         = ((e3, b), w3)"
      "run_state (run (Fs (Close (rc r1)))) w3 = ((), w4)"
    and codes: "rc r1 \<noteq> - 1" "e2 \<noteq> - 1" "e3 \<noteq> - 1"
    and short: "\<not> COMINIT_PART_META_DATA_SIZE - COMINIT_PART_META_SIG_LENGTH - 1 \<le> text_length (the b)"
    and rest: "run_state (do {
       v \<leftarrow> cominitCryptoVerifySignature cfg (the b) (text_length (the b) + 1)
              (drop (text_length (the b) + 1) (the b)) keyfile;
       if v = - 1 then return (- 1, meta)
       else do {
         (p, meta') \<leftarrow> cominitParseMetadata (Some meta) (Some (cstr (the b)));
         if p = - 1 then return (- 1, the meta') else return (0, the meta') } }) w4 = ((0 :: int, meta'), w')"
    by (auto simp: cominitLoadVerifyMetadata_def Let_def text_length_def split: prod.splits if_splits)
  from verify_then_parse [OF rest assms(2)] obtain acc where
    acc: "signature_accepted keyfile (take (text_length (the b) + 1) (the b)) (drop (text_length (the b) + 1) (the b)) acc"
      "run_state (cominitParseMetadata (Some meta) (Some (cstr (the b)))) (w4\<lparr>trace := trace w4 @ acc\<rparr>) = ((0, Some meta'), w')"
    by blast
  have "status w4 = Running" using emitsD(4) [OF emits_parse acc(2)] assms(2) by (cases "status w4 = Running") auto
  from read_region [OF steps codes this] obtain reads where
    reads: "w4 = w\<lparr>trace := trace w @ reads\<rparr>" "region_read (devicePath meta) (the b) reads" by blast
  have "length (the b) = COMINIT_PART_META_DATA_SIZE"
    using returnsD [OF readall_length steps(3)] by auto
  with reads(2) acc(1) short have "region_accepted keyfile (devicePath meta) (the b) reads acc"
    by (simp add: region_accepted_def lits)
  with acc(2) reads(1) show ?thesis by (intro exI [of _ "the b"] exI [of _ reads] exI [of _ acc]) simp
qed

section \<open>The read loop\<close>

text \<open>
  What POSIX says of \<^verbatim>\<open>read\<close> in front of the end of a file: an error, or between one and \<open>n\<close> bytes.
  At the end of the file it returns 0.
\<close>
definition reads_progress :: "(event list \<Rightarrow> call \<Rightarrow> reply) \<Rightarrow> bool" where
  "reads_progress E \<longleftrightarrow> (\<forall>h fd n. 0 < n \<longrightarrow>
     rc (E h (Fs (Read fd n))) < 0
     \<or> 1 \<le> rc (E h (Fs (Read fd n))) \<and> rc (E h (Fs (Read fd n))) \<le> int n)"

definition reads_eof :: "(event list \<Rightarrow> call \<Rightarrow> reply) \<Rightarrow> bool" where
  "reads_eof E \<longleftrightarrow> (\<forall>h fd n. rc (E h (Fs (Read fd n))) = 0)"

lemma readall_loop_terminates:
  assumes "reads_progress (env w)" and "status w = Running" and "len \<le> n"
  shows "wp (readall_loop n buf fd len) (\<lambda>_ w'. status w' = Running) w"
  using assms
proof (induction n arbitrary: buf len w)
  case 0
  then show ?case by (subst readall_loop.simps) (simp add: wp_simps)
next
  case (Suc n)
  show ?case
  proof (cases "len = 0")
    case True
    then show ?thesis using Suc.prems by (subst readall_loop.simps) (simp add: wp_simps)
  next
    case False
    let ?r = "env w (trace w) (Fs (Read fd len))"
    let ?w = "w\<lparr>trace := trace w @ [(Fs (Read fd len), ?r)]\<rparr>"
    from Suc.prems(1) False have r: "rc ?r < 0 \<or> 1 \<le> rc ?r \<and> rc ?r \<le> int len"
      by (auto simp: reads_progress_def)
    have "wp (readall_loop n b fd (len - nat (rc ?r))) (\<lambda>_ w'. status w' = Running) ?w"
      if "1 \<le> rc ?r" for b
      using that Suc.prems by (intro Suc.IH) auto
    with r False Suc.prems(2) show ?thesis by (subst readall_loop.simps) (auto simp: wp_simps)
  qed
qed

lemma readall_loop_eof:
  assumes "reads_eof (env w)" and "status w = Running" and "0 < len"
  shows "wp (readall_loop n buf fd len) (\<lambda>_ w'. status w' = Spinning) w"
  using assms
proof (induction n arbitrary: buf w)
  case 0
  then show ?case by (subst readall_loop.simps) (simp add: wp_simps)
next
  case (Suc n)
  have "wp (readall_loop n b fd len) (\<lambda>_ w'. status w' = Spinning)
      (w\<lparr>trace := trace w @ [(Fs (Read fd len), env w (trace w) (Fs (Read fd len)))]\<rparr>)" for b
    using Suc.prems by (intro Suc.IH) auto
  moreover have "rc (env w (trace w) (Fs (Read fd len))) = 0"
    using Suc.prems(1) by (simp add: reads_eof_def)
  ultimately show ?case using Suc.prems by (subst readall_loop.simps) (simp add: wp_simps)
qed

text \<open>A turn that reads \<open>k\<close> bytes.\<close>
lemma readall_loop_step:
  assumes "status w = Running" and "r = env w (trace w) (Fs (Read fd len))" and "0 < len"
    and "rc r = int k" and "k \<le> len"
  shows "run_state (readall_loop (Suc n) buf fd len) w =
     run_state (readall_loop n (overlay (take k (bytes r)) buf) fd (len - k))
       (w\<lparr>trace := trace w @ [(Fs (Read fd len), r)]\<rparr>)"
  using assms by (subst readall_loop.simps) (simp add: sys_def Let_def)

lemma readall_loop_done [simp]: "readall_loop n buf fd 0 = return (0, buf)"
  by (subst readall_loop.simps) simp

section \<open>Sizes\<close>

text \<open>What the fixed-size arrays of the record can hold, and the features that exist.\<close>
definition meta_wf :: "cominitRfsMetaData_t \<Rightarrow> bool" where
  "meta_wf m \<longleftrightarrow> length (devicePath m) < COMINIT_ROOTFS_DEV_PATH_MAX
     \<and> length (fsType m) < COMINIT_FSTYPE_STR_MAX_LEN
     \<and> length (dmTableVerint m) < COMINIT_DM_TABLE_SIZE_MAX
     \<and> length (dmTableCrypt m) < COMINIT_DM_TABLE_SIZE_MAX
     \<and> crypt m \<in> {0, 1, 2, 4, 5, 6}"

lemma crypt_of_name_range: "crypt_of_name s = Some c \<Longrightarrow> c \<in> {0, 1, 2, 4, 5, 6}"
  by (auto simp: crypt_of_name_def lits split: if_splits)

text \<open>The fields that decide how the rootfs is mounted.\<close>
definition same_mount :: "cominitRfsMetaData_t \<Rightarrow> cominitRfsMetaData_t \<Rightarrow> bool" where
  "same_mount m m' \<longleftrightarrow>
     devicePath m' = devicePath m \<and> fsType m' = fsType m \<and> ro m' = ro m \<and> crypt m' = crypt m"

lemma gen_verity_wf:
  assumes "meta_wf m"
  shows "\<exists>m'. snd (cominitGenVerityDmTbl (Some m) (Some s)) = Some m' \<and> meta_wf m' \<and> same_mount m m'"
  using assms
  by (auto simp: cominitGenVerityDmTbl_def Let_def meta_wf_def same_mount_def lits min_less_iff_disj
      split: option.split)

lemma gen_integrity_wf:
  assumes "meta_wf m"
  shows "returns (\<lambda>(e, r). \<exists>m'. r = Some m' \<and> meta_wf m' \<and> same_mount m m')
     (cominitGenIntegrityDmTbl (Some m) (Some s))"
  unfolding cominitGenIntegrityDmTbl_def
  using assms by (auto simp: meta_wf_def same_mount_def lits min_less_iff_disj intro!: returns_intros)

lemma gen_verity_same: "\<exists>m'. snd (cominitGenVerityDmTbl (Some m) (Some s)) = Some m' \<and> same_mount m m'"
  by (auto simp: cominitGenVerityDmTbl_def Let_def same_mount_def split: option.split)

lemma gen_integrity_same:
  "returns (\<lambda>(e, r). \<exists>m'. r = Some m' \<and> same_mount m m') (cominitGenIntegrityDmTbl (Some m) (Some s))"
  unfolding cominitGenIntegrityDmTbl_def by (auto simp: same_mount_def intro!: returns_intros)

lemma meta_wf_updates:
  assumes "meta_wf m"
  shows "meta_wf (m\<lparr>fsType := take (COMINIT_FSTYPE_STR_MAX_LEN - 1) t\<rparr>)"
    and "meta_wf (m\<lparr>ro := b\<rparr>)"
    and "crypt_of_name n = Some c \<Longrightarrow> meta_wf (m\<lparr>crypt := c\<rparr>)"
    and "meta_wf (m\<lparr>dmTableVerint := [], dmTableCrypt := []\<rparr>)"
  using assms crypt_of_name_range [of n c] by (auto simp: meta_wf_def lits min_less_iff_disj)

lemma parse_wf:
  assumes "meta_wf m"
  shows "returns (\<lambda>(e, r). \<exists>m'. r = Some m' \<and> meta_wf m' \<and> devicePath m' = devicePath m)
     (cominitParseMetadata (Some m) (Some s))"
proof -
  let ?P = "\<lambda>(e :: int, r). \<exists>m'. r = Some m' \<and> meta_wf m' \<and> devicePath m' = devicePath m"
  have keep: "returns ?P (return (e, Some k))" if "meta_wf k" "devicePath k = devicePath m" for e k
    using that by (intro returns_return) simp
  have verity: "returns ?P (return (cominitGenVerityDmTbl (Some k) (Some t)))"
    if "meta_wf k" "devicePath k = devicePath m" for k t
    using gen_verity_wf [OF that(1), of t] that(2)
    by (intro returns_return) (auto simp: same_mount_def split: prod.splits)
  have integrity: "returns ?P (cominitGenIntegrityDmTbl (Some k) (Some t))"
    if "meta_wf k" "devicePath k = devicePath m" for k t
    by (rule returns_mono [OF gen_integrity_wf [OF that(1)]]) (auto simp: same_mount_def that(2))
  show ?thesis
    unfolding cominitParseMetadata_def prod.case option.case Let_def
    by (intro returns_if returns_case_option returns_case_prod keep verity integrity)
      (simp_all add: assms meta_wf_updates del: One_nat_def)
qed

text \<open>The device path is not part of the region.\<close>
lemma parse_device:
  "returns (\<lambda>(e, r). \<exists>m'. r = Some m' \<and> devicePath m' = devicePath m) (cominitParseMetadata (Some m) (Some s))"
proof -
  let ?P = "\<lambda>(e :: int, r). \<exists>m'. r = Some m' \<and> devicePath m' = devicePath m"
  have keep: "returns ?P (return (e, Some k))" if "devicePath k = devicePath m" for e k
    using that by (intro returns_return) simp
  have verity: "returns ?P (return (cominitGenVerityDmTbl (Some k) (Some t)))" if "devicePath k = devicePath m" for k t
    using gen_verity_same [of k t] that by (intro returns_return) (auto simp: same_mount_def split: prod.splits)
  have integrity: "returns ?P (cominitGenIntegrityDmTbl (Some k) (Some t))" if "devicePath k = devicePath m" for k t
    by (rule returns_mono [OF gen_integrity_same]) (auto simp: same_mount_def that)
  show ?thesis
    unfolding cominitParseMetadata_def prod.case option.case Let_def
    by (intro returns_if returns_case_option returns_case_prod keep verity integrity) simp_all
qed

end
