(* ===== verification/Dmctl.thy ===== *)
theory Dmctl
  imports Meta
begin

text \<open>
  src/dmctl.c: creating, loading and starting the device-mapper device of the rootfs through the
  \<^verbatim>\<open>ioctl\<close>s of \<^verbatim>\<open>/dev/mapper/control\<close>.
\<close>

section \<open>Operations\<close>

definition COMINIT_ROOTFS_DM_NAME :: string where [lits]: "COMINIT_ROOTFS_DM_NAME = ''rootfs''"

text \<open>The name and the size of the header are what the cleared header is filled with; the kernel
  writes the device number back.\<close>
definition cominitDmctlCreateNewDmDevice :: "config \<Rightarrow> int \<Rightarrow> string \<Rightarrow> (int \<times> u64) op" where
  "cominitDmctlCreateNewDmDevice cfg dmCtlFd name = do {
     r \<leftarrow> sys (Dev (Dm_dev_create dmCtlFd name (dm_ioctl_size cfg)));
     return (rc r, val r) }"

definition cominitDmctlStartDmDevice :: "config \<Rightarrow> int \<Rightarrow> u64 \<Rightarrow> int op" where
  "cominitDmctlStartDmDevice cfg dmCtlFd devId = do {
     r \<leftarrow> sys (Dev (Dm_dev_suspend dmCtlFd devId (dm_ioctl_size cfg)));
     return (rc r) }"

text \<open>The fields that \<^verbatim>\<open>cominitSetupDmDevice\<close> sets in \<^verbatim>\<open>cominitDmIoctlData_t\<close> for the table.\<close>
record cominitDmIoctlData_t =
  ioctl_dev :: u64
  readonly_flag :: bool
  target_count :: nat
  data_start :: nat
  sectors :: u64
  target_type :: string
  dmTbl :: string
  data_size :: nat

definition cominitDmctlLoadDmTable :: "int \<Rightarrow> cominitDmIoctlData_t \<Rightarrow> int op" where
  "cominitDmctlLoadDmTable dmCtlFd dmi = do {
     r \<leftarrow> sys (Dev (Dm_table_load dmCtlFd (ioctl_dev dmi) (readonly_flag dmi) (target_count dmi)
            (data_start dmi) (sectors dmi) (target_type dmi) (dmTbl dmi) (data_size dmi)));
     return (rc r) }"

definition dm_target_name :: "cominitRfsMetaData_t \<Rightarrow> string option" where
  "dm_target_name m =
     (if crypt m = COMINIT_CRYPTOPT_VERITY then (if \<not> ro m then None else Some ''verity'')
      else if crypt m = COMINIT_CRYPTOPT_INTEGRITY then Some ''integrity''
      else None)"

text \<open>Table and header: one target from sector 0, the table behind its specification.\<close>
definition dm_table_data :: "config \<Rightarrow> u64 \<Rightarrow> string \<Rightarrow> cominitRfsMetaData_t \<Rightarrow> cominitDmIoctlData_t" where
  "dm_table_data cfg devId dmTgtStr m =
     (let tbl = take (COMINIT_DM_TABLE_SIZE_MAX - 1) (dmTableVerint m) in
      \<lparr>ioctl_dev = devId, readonly_flag = ro m, target_count = 1, data_start = dm_tspec_offset cfg,
       sectors = dmVerintDataSizeBytes m div 512, target_type = take 15 dmTgtStr, dmTbl = tbl,
       data_size = dm_table_offset cfg + length tbl + 1\<rparr>)"

definition dm_rootfs_path :: "config \<Rightarrow> string" where
  "dm_rootfs_path cfg = ''/dev/'' @ dm_dir cfg @ ''/'' @ COMINIT_ROOTFS_DM_NAME"

definition cominitSetupDmDevice ::
    "config \<Rightarrow> cominitRfsMetaData_t option \<Rightarrow> (int \<times> cominitRfsMetaData_t option) op" where
  "cominitSetupDmDevice cfg rfsMeta =
     (case rfsMeta of
        None \<Rightarrow> return (- 1, None)
      | Some m \<Rightarrow>
          (case dm_target_name m of
             None \<Rightarrow> return (- 1, Some m)
           | Some dmTgtStr \<Rightarrow> do {
               ctl \<leftarrow> sys (Fs (Open (''/dev/'' @ dm_dir cfg @ ''/'' @ dm_control_node cfg) [O_RDWR]));
               let dmCtlFd = rc ctl;
               if dmCtlFd = - 1 then return (- 1, Some m)
               else do {
                 (c, devId) \<leftarrow> cominitDmctlCreateNewDmDevice cfg dmCtlFd COMINIT_ROOTFS_DM_NAME;
                 if c = - 1 then do { run (Fs (Close dmCtlFd)); return (- 1, Some m) }
                 else do {
                   l \<leftarrow> cominitDmctlLoadDmTable dmCtlFd (dm_table_data cfg devId dmTgtStr m);
                   if l = - 1 then do { run (Fs (Close dmCtlFd)); return (- 1, Some m) }
                   else do {
                     s \<leftarrow> cominitDmctlStartDmDevice cfg dmCtlFd devId;
                     if s = - 1 then do { run (Fs (Close dmCtlFd)); return (- 1, Some m) }
                     else do {
                       let m' = m\<lparr>devicePath := dm_rootfs_path cfg\<rparr>;
                       k \<leftarrow> sys (Fs (Mknod (devicePath m')
                              (if ro m then [S_IFBLK, S_IRUSR] else [S_IFBLK, S_IRUSR, S_IWUSR]) devId));
                       if rc k = - 1 then do { run (Fs (Close dmCtlFd)); return (- 1, Some m') }
                       else do { run (Fs (Close dmCtlFd)); return (0, Some m') } } } } } }))"

section \<open>Footprint and outcome\<close>

text \<open>A table that is loaded is the one of the record: target, text, size and read-only flag.\<close>
definition record_table :: "cominitRfsMetaData_t \<Rightarrow> bool \<Rightarrow> u64 \<Rightarrow> string \<Rightarrow> string \<Rightarrow> bool" where
  "record_table m readonly secs tgt tbl \<longleftrightarrow> dm_target_name m = Some tgt \<and> readonly = ro m
     \<and> secs = dmVerintDataSizeBytes m div 512 \<and> tbl = take (COMINIT_DM_TABLE_SIZE_MAX - 1) (dmTableVerint m)"

text \<open>The calls of the setup of a record: the control node, the device \<^verbatim>\<open>rootfs\<close>, the table of the record and
  the node of the device.\<close>
definition dm_event :: "config \<Rightarrow> cominitRfsMetaData_t \<Rightarrow> event \<Rightarrow> bool" where
  "dm_event cfg m e = (case e of
       (Fs (Open p fl), _) \<Rightarrow> p = ''/dev/'' @ dm_dir cfg @ ''/'' @ dm_control_node cfg \<and> fl = [O_RDWR]
     | (Fs (Close _), _) \<Rightarrow> True
     | (Fs (Mknod p _ _), _) \<Rightarrow> p = dm_rootfs_path cfg
     | (Dev (Dm_dev_create _ name _), _) \<Rightarrow> name = COMINIT_ROOTFS_DM_NAME
     | (Dev (Dm_table_load _ _ readonly _ _ secs tgt tbl _), _) \<Rightarrow> record_table m readonly secs tgt tbl
     | (Dev (Dm_dev_suspend _ _ _), _) \<Rightarrow> True
     | _ \<Rightarrow> False)"

lemma dm_target_short: "dm_target_name m = Some t \<Longrightarrow> take 15 t = t"
  by (auto simp: dm_target_name_def split: if_splits)

lemmas dm_ops = cominitDmctlCreateNewDmDevice_def cominitDmctlLoadDmTable_def cominitDmctlStartDmDevice_def

interpretation setup_dm: operation "cominitSetupDmDevice cfg (Some m)" "dm_event cfg m"
  unfolding cominitSetupDmDevice_def dm_ops
  by unfold_locales
    (auto simp: dm_event_def record_table_def dm_table_data_def Let_def dm_target_short intro!: emits_intros)

text \<open>A code of 0 or -1, and a record that differs in the device path at most.\<close>
lemma setup_dm_shape:
  "returns (\<lambda>(e, r). (e = 0 \<or> e = - 1) \<and> (e = 0 \<longrightarrow> dm_target_name m \<noteq> None) \<and>
      (\<exists>m'. r = Some m' \<and> (m' = m \<or> m' = m\<lparr>devicePath := dm_rootfs_path cfg\<rparr>)
          \<and> (e = 0 \<longrightarrow> m' = m\<lparr>devicePath := dm_rootfs_path cfg\<rparr>)))
     (cominitSetupDmDevice cfg (Some m))"
  unfolding cominitSetupDmDevice_def dm_ops by (auto intro!: returns_intros)

text \<open>The calls of a successful setup: create, load the table, resume, make the node, in this order
  and all for the device number the kernel gave.\<close>
definition dm_started :: "config \<Rightarrow> cominitRfsMetaData_t \<Rightarrow> string \<Rightarrow> event list \<Rightarrow> bool" where
  "dm_started cfg m tgt ext \<longleftrightarrow>
     (\<exists>o' c l s k x. let fd = rc o'; d = dm_table_data cfg (val c) tgt m in
        ext = [(Fs (Open (''/dev/'' @ dm_dir cfg @ ''/'' @ dm_control_node cfg) [O_RDWR]), o'),
               (Dev (Dm_dev_create fd COMINIT_ROOTFS_DM_NAME (dm_ioctl_size cfg)), c),
               (Dev (Dm_table_load fd (val c) (ro m) 1 (dm_tspec_offset cfg) (sectors d) tgt
                       (dmTableVerint m) (data_size d)), l),
               (Dev (Dm_dev_suspend fd (val c) (dm_ioctl_size cfg)), s),
               (Fs (Mknod (dm_rootfs_path cfg)
                  (if ro m then [S_IFBLK, S_IRUSR] else [S_IFBLK, S_IRUSR, S_IWUSR]) (val c)), k),
               (Fs (Close fd), x)]
        \<and> rc o' \<noteq> - 1 \<and> rc c \<noteq> - 1 \<and> rc l \<noteq> - 1 \<and> rc s \<noteq> - 1 \<and> rc k \<noteq> - 1)"

lemma setup_dm_started:
  assumes "meta_wf m" and "status w = Running"
  shows "wp (cominitSetupDmDevice cfg (Some m))
     (\<lambda>(e, r) w'. status w' = Running \<and> (e = 0 \<longrightarrow>
        (\<exists>tgt ext. dm_target_name m = Some tgt \<and> trace w' = trace w @ ext \<and> dm_started cfg m tgt ext))) w"
proof -
  have tbl: "take (COMINIT_DM_TABLE_SIZE_MAX - 1) (dmTableVerint m) = dmTableVerint m"
    using assms by (simp add: meta_wf_def lits)
  show ?thesis
    unfolding cominitSetupDmDevice_def dm_ops dm_started_def
    using assms(2)
    by (auto simp: dm_table_data_def Let_def tbl dm_target_short simp del: One_nat_def intro!: vcg)
qed

text \<open>The descriptor of the control node is given back by the last call.\<close>
definition control_closed :: "event list \<Rightarrow> bool" where
  "control_closed ext \<longleftrightarrow> (\<forall>p fl o'. (Fs (Open p fl), o') \<in> set ext \<longrightarrow> rc o' \<noteq> - 1 \<longrightarrow>
     (\<exists>x. last ext = (Fs (Close (rc o')), x)))"

lemma setup_dm_closes:
  assumes "status w = Running"
  shows "wp (cominitSetupDmDevice cfg (Some m)) (\<lambda>_ w'. \<exists>ext. trace w' = trace w @ ext \<and> control_closed ext) w"
  unfolding cominitSetupDmDevice_def dm_ops using assms
  by (auto simp: control_closed_def intro!: vcg)

text \<open>C20: Setting up the device-mapper device: success means that the device was created, its table loaded
  with the target and the text of the metadata, resumed and given a node, in this order and for the
  device number the kernel gave; the record then names this node and is otherwise unchanged. A
  verity rootfs that is not read-only, and any other kind, is refused without a call. On every path
  the descriptor of the control node is closed by the last call.\<close>
theorem dm_setup_outcome:
  assumes "meta_wf m" and "status w = Running"
  shows "wp (cominitSetupDmDevice cfg (Some m)) (\<lambda>(e, r) w'. status w' = Running \<and>
     (\<exists>ext. trace w' = trace w @ ext \<and> control_closed ext \<and>
       (case dm_target_name m of
          None \<Rightarrow> e = - 1 \<and> r = Some m \<and> ext = []
        | Some tgt \<Rightarrow> e = - 1 \<or> e = 0 \<and> r = Some (m\<lparr>devicePath := dm_rootfs_path cfg\<rparr>)
            \<and> dm_started cfg m tgt ext))) w"
proof (cases "dm_target_name m")
  case None
  then show ?thesis
    using assms by (simp add: cominitSetupDmDevice_def wp_simps control_closed_def)
next
  case (Some tgt)
  with setup_dm_started [OF assms, of cfg] setup_dm_closes [OF assms(2), of cfg m]
  show ?thesis
    by (auto simp: wp_def split: prod.splits dest!: returnsD [OF setup_dm_shape])
qed

text \<open>A read-only squashfs under dm-verity.\<close>
definition sample_verity :: cominitRfsMetaData_t where
  "sample_verity = rfsMeta_zero\<lparr>devicePath := ''/dev/sda2'', fsType := ''squashfs'', ro := True,
     crypt := COMINIT_CRYPTOPT_VERITY, dmTableVerint := ''1 /dev/sda2 /dev/sda2 4096 4096''\<rparr>"

lemma sample_verity_wf: "meta_wf sample_verity"
  by (simp add: sample_verity_def rfsMeta_zero_def meta_wf_def lits)

lemma sample_verity_target: "dm_target_name sample_verity = Some ''verity''"
  by (simp add: sample_verity_def dm_target_name_def)

theorem dm_setup_outcome_witness:
  "wp (cominitSetupDmDevice default_config (Some sample_verity)) (\<lambda>(e, r) w'. e = 0 \<and>
     dm_started default_config sample_verity ''verity'' (trace w') \<and> control_closed (trace w')) (start (\<lambda>_ _. ok) 0)"
proof -
  have code: "wp (cominitSetupDmDevice default_config (Some sample_verity)) (\<lambda>(e, r) _. e = 0) (start (\<lambda>_ _. ok) 0)"
    by (simp add: cominitSetupDmDevice_def dm_ops sample_verity_target wp_simps Let_def ok_def)
  show ?thesis
    using wp_conj [THEN iffD2, OF conjI, OF code
        dm_setup_outcome [OF sample_verity_wf start_simps(4), of default_config "\<lambda>_ _. ok" 0]]
    by (rule wp_mono) (auto simp: sample_verity_target)
qed

end
