(* ===== verification/Minsetup.thy ===== *)
theory Minsetup
  imports Dmctl
begin

text \<open>
  src/minsetup.c: the minimal system (\<^verbatim>\<open>/dev\<close>, \<^verbatim>\<open>/proc\<close>, selinuxfs), mounting the rootfs, and the
  switch into it. The flags of a call are kept; its numeric modes are in octal in the source.
\<close>

section \<open>Minimal system\<close>

text \<open>\<^verbatim>\<open>mkdir\<close> and \<^verbatim>\<open>mount\<close> where an existing directory or a mounted filesystem is no error; the
  pattern of \<^verbatim>\<open>cominitSetupSysfiles\<close> and \<^verbatim>\<open>cominitSetupSysSelinuxfiles\<close>.\<close>
definition mkdir_exist_ok :: "string \<Rightarrow> nat \<Rightarrow> bool op" where
  "mkdir_exist_ok path mode = do {
     r \<leftarrow> sys (Fs (Mkdir path mode));
     return (rc r \<noteq> - 1 \<or> err r = EEXIST) }"

definition mount_busy_ok :: "string \<Rightarrow> string \<Rightarrow> mount_flag list \<Rightarrow> bool op" where
  "mount_busy_ok target fstype flags = do {
     r \<leftarrow> sys (Fs (Mount ''none'' target (Some fstype) flags));
     return (rc r \<noteq> - 1 \<or> err r = EBUSY) }"

text \<open>0755 is 493 and 0555 is 365.\<close>
definition cominitSetupSysfiles :: "int op" where
  "cominitSetupSysfiles = do {
     run (Proc (Umask 0));
     d \<leftarrow> mkdir_exist_ok ''/dev'' 493;
     if \<not> d then return (- 1) else do {
     md \<leftarrow> mount_busy_ok ''/dev'' ''devtmpfs'' [MS_NOEXEC, MS_NOSUID];
     if \<not> md then return (- 1) else do {
     p \<leftarrow> mkdir_exist_ok ''/proc'' 365;
     if \<not> p then return (- 1) else do {
     mp \<leftarrow> mount_busy_ok ''/proc'' ''proc'' [MS_NODEV, MS_NOEXEC, MS_NOSUID];
     if \<not> mp then return (- 1) else do {
     run (Proc (Umask 18));
     return 0 } } } } }"

definition cominitSetupSysSelinuxfiles :: "int op" where
  "cominitSetupSysSelinuxfiles = do {
     a \<leftarrow> mkdir_exist_ok ''/sys'' 493;
     if \<not> a then return (- 1) else do {
     b \<leftarrow> mkdir_exist_ok ''/sys/fs'' 493;
     if \<not> b then return (- 1) else do {
     c \<leftarrow> mkdir_exist_ok ''/sys/fs/selinux'' 493;
     if \<not> c then return (- 1) else do {
     m \<leftarrow> mount_busy_ok ''/sys/fs/selinux'' ''selinuxfs'' [MS_NODEV, MS_NOEXEC, MS_NOSUID];
     if \<not> m then return (- 1) else return 0 } } } }"

text \<open>\<^verbatim>\<open>cominitFailIf(call == -1)\<close>.\<close>
definition fail_if_minus1 :: "call \<Rightarrow> int op" where
  "fail_if_minus1 c = do { r \<leftarrow> sys c; if rc r = - 1 then return (- 1) else return 0 }"

definition cominitCleanupSysfiles :: "int op" where
  "cominitCleanupSysfiles = fail_if_minus1 (Fs (Umount2_detach ''/dev''))"

definition cominitCleanupSelinuxfiles :: "int op" where
  "cominitCleanupSelinuxfiles = fail_if_minus1 (Fs (Umount2_detach ''/sys/fs/selinux''))"

section \<open>The rootfs\<close>

text \<open>From the directory on: what follows the device-mapper setup.\<close>
definition mount_newroot :: "cominitRfsMetaData_t \<Rightarrow> int op" where
  "mount_newroot m = do {
     d \<leftarrow> mkdir_exist_ok ''/newroot'' 493;
     if \<not> d then return (- 1)
     else fail_if_minus1 (Fs (Mount (devicePath m) ''/newroot'' (Some (fsType m))
            (if ro m then [MS_RDONLY] else []))) }"

definition cominitSetupRootfs ::
    "config \<Rightarrow> cominitRfsMetaData_t option \<Rightarrow> (int \<times> cominitRfsMetaData_t option) op" where
  "cominitSetupRootfs cfg rfsMeta =
     (case rfsMeta of
        None \<Rightarrow> return (- 1, None)
      | Some m \<Rightarrow>
          if \<not> ro m \<and> fsType m = ''squashfs'' then return (- 1, Some m)
          else do {
            (e, dm) \<leftarrow> (if crypt m \<noteq> COMINIT_CRYPTOPT_NONE then cominitSetupDmDevice cfg (Some m)
                       else return (0, Some m));
            if e = - 1 then return (- 1, dm)
            else do { r \<leftarrow> mount_newroot (the dm); return (r, dm) } })"

section \<open>Switching\<close>

text \<open>The type flags of \<^verbatim>\<open>nftw\<close>; \<open>FTW_other\<close> stands for \<^verbatim>\<open>FTW_SLN\<close> and \<^verbatim>\<open>default\<close>.\<close>
datatype ftw = FTW_F | FTW_D | FTW_DNR | FTW_NS | FTW_SL | FTW_DP | FTW_other

text \<open>Numbers of <ftw.h>.\<close>
definition ftw_of :: "u64 \<Rightarrow> ftw" where
  "ftw_of n = (if n = 0 then FTW_F else if n = 1 then FTW_D else if n = 2 then FTW_DNR
     else if n = 3 then FTW_NS else if n = 4 then FTW_SL else if n = 5 then FTW_DP else FTW_other)"

definition cominitNftwRemove :: "string \<Rightarrow> ftw \<Rightarrow> int \<Rightarrow> int op" where
  "cominitNftwRemove fpath tflag level = do {
     (case tflag of
        FTW_F \<Rightarrow> run (Fs (Unlink fpath))
      | FTW_SL \<Rightarrow> run (Fs (Unlink fpath))
      | FTW_DP \<Rightarrow> if level > 0 then run (Fs (Rmdir fpath)) else return ()
      | _ \<Rightarrow> return ());
     return 0 }"

text \<open>
  \<^verbatim>\<open>nftw("/", cominitNftwRemove, ...)\<close>: the walk reports an entry, its end or an error; the callback
  always returns 0, so it never stops the walk.
\<close>
primrec nftw_loop :: "nat \<Rightarrow> int op" where
  "nftw_loop 0 = do { halt Spinning; return (- 1) }"
| "nftw_loop (Suc n) = do {
     e \<leftarrow> sys (Fs (Nftw_next ''/'' 32 [FTW_DEPTH, FTW_PHYS, FTW_MOUNT]));
     if rc e \<noteq> 1 then return (rc e)
     else do {
       r \<leftarrow> cominitNftwRemove (cstr (bytes e)) (ftw_of (val e)) (sint (val2 e));
       if r \<noteq> 0 then return r else nftw_loop n } }"

definition cominitSwitchIntoRootfs :: "int op" where
  "cominitSwitchIntoRootfs = do {
     n \<leftarrow> get_fuel;
     _ \<leftarrow> nftw_loop n;
     a \<leftarrow> sys (Fs (Chdir ''/newroot''));
     if rc a = - 1 then return (- 1) else do {
     b \<leftarrow> sys (Fs (Mount ''/newroot'' ''/'' None [MS_MOVE]));
     if rc b = - 1 then return (- 1) else do {
     c \<leftarrow> sys (Fs (Chroot ''.''));
     if rc c = - 1 then return (- 1) else do {
     d \<leftarrow> sys (Fs (Chdir ''/''));
     if rc d = - 1 then return (- 1) else return 0 } } } }"

section \<open>Footprints and codes\<close>

text \<open>The minimal system is made of directories and pseudo filesystems whose source is \<open>none\<close>.\<close>
definition sysfiles_event :: "event \<Rightarrow> bool" where
  "sysfiles_event e = (case e of (Fs (Mkdir _ _), _) \<Rightarrow> True
     | (Fs (Mount s t _ _), _) \<Rightarrow> s = ''none'' \<and> t \<in> {''/dev'', ''/proc'', ''/sys/fs/selinux''}
     | (Fs (Umount2_detach t), _) \<Rightarrow> t \<in> {''/dev'', ''/sys/fs/selinux''}
     | (Proc (Umask _), _) \<Rightarrow> True | _ \<Rightarrow> False)"

lemmas sysfiles_ops = mkdir_exist_ok_def mount_busy_ok_def fail_if_minus1_def

interpretation sysfiles: code_operation cominitSetupSysfiles sysfiles_event 0 "- 1"
  unfolding cominitSetupSysfiles_def sysfiles_ops
  by unfold_locales (auto simp: sysfiles_event_def intro!: emits_intros returns_intros)

interpretation selinuxfiles: code_operation cominitSetupSysSelinuxfiles sysfiles_event 0 "- 1"
  unfolding cominitSetupSysSelinuxfiles_def sysfiles_ops
  by unfold_locales (auto simp: sysfiles_event_def intro!: emits_intros returns_intros)

interpretation cleanup_sys: code_operation cominitCleanupSysfiles sysfiles_event 0 "- 1"
  unfolding cominitCleanupSysfiles_def sysfiles_ops
  by unfold_locales (auto simp: sysfiles_event_def intro!: emits_intros returns_intros)

interpretation cleanup_selinux: code_operation cominitCleanupSelinuxfiles sysfiles_event 0 "- 1"
  unfolding cominitCleanupSelinuxfiles_def sysfiles_ops
  by unfold_locales (auto simp: sysfiles_event_def intro!: emits_intros returns_intros)

text \<open>A rootfs that the metadata allow to be mounted.\<close>
definition mountable :: "cominitRfsMetaData_t \<Rightarrow> bool" where
  "mountable m \<longleftrightarrow> (fsType m = ''squashfs'' \<longrightarrow> ro m) \<and> (crypt m = COMINIT_CRYPTOPT_VERITY \<longrightarrow> ro m)
     \<and> crypt m \<in> {COMINIT_CRYPTOPT_NONE, COMINIT_CRYPTOPT_VERITY, COMINIT_CRYPTOPT_INTEGRITY}"

lemma dm_target_mountable:
  assumes "dm_target_name m = Some tgt" and "fsType m = ''squashfs'' \<longrightarrow> ro m"
  shows "mountable m"
  using assms by (auto simp: dm_target_name_def mountable_def split: if_splits)

text \<open>The only thing mounted is the given rootfs, at \<^verbatim>\<open>/newroot\<close>, read-only if it is so marked.\<close>
definition rootfs_event :: "config \<Rightarrow> cominitRfsMetaData_t \<Rightarrow> event \<Rightarrow> bool" where
  "rootfs_event cfg m e \<longleftrightarrow> dm_event cfg m e \<or> (case e of
       (Fs (Mkdir p _), _) \<Rightarrow> p = ''/newroot''
     | (Fs (Mount s t ty fl), _) \<Rightarrow> mountable m \<and> t = ''/newroot'' \<and> ty = Some (fsType m)
         \<and> fl = (if ro m then [MS_RDONLY] else [])
         \<and> s = (if crypt m = COMINIT_CRYPTOPT_NONE then devicePath m else dm_rootfs_path cfg)
     | _ \<Rightarrow> False)"

interpretation mount_root: code_operation "mount_newroot m" "\<lambda>e. (case e of
       (Fs (Mkdir p _), _) \<Rightarrow> p = ''/newroot''
     | (Fs (Mount s t ty fl), _) \<Rightarrow> t = ''/newroot'' \<and> ty = Some (fsType m)
         \<and> fl = (if ro m then [MS_RDONLY] else []) \<and> s = devicePath m
     | _ \<Rightarrow> False)" 0 "- 1"
  unfolding mount_newroot_def sysfiles_ops
  by unfold_locales (auto intro!: emits_intros returns_intros)

text \<open>The device that is mounted: the device-mapper device where the metadata ask for one.\<close>
definition rootfs_device :: "config \<Rightarrow> cominitRfsMetaData_t \<Rightarrow> cominitRfsMetaData_t" where
  "rootfs_device cfg m = (if crypt m = COMINIT_CRYPTOPT_NONE then m else m\<lparr>devicePath := dm_rootfs_path cfg\<rparr>)"

abbreviation device_step :: "config \<Rightarrow> cominitRfsMetaData_t \<Rightarrow> (int \<times> cominitRfsMetaData_t option) op" where
  "device_step cfg m \<equiv> (if crypt m \<noteq> COMINIT_CRYPTOPT_NONE then cominitSetupDmDevice cfg (Some m)
     else return (0, Some m))"

lemma device_step_events: "emits (dm_event cfg m) (device_step cfg m)"
  by (auto intro!: emits_intros setup_dm.footprint)

lemma device_step_result:
  assumes "\<not> (\<not> ro m \<and> fsType m = ''squashfs'')"
  shows "returns (\<lambda>(e, r). e \<noteq> - 1 \<longrightarrow> r = Some (rootfs_device cfg m) \<and> mountable m) (device_step cfg m)"
proof -
  have ok: "mountable m" if "crypt m = COMINIT_CRYPTOPT_NONE \<or> dm_target_name m \<noteq> None"
    using assms that dm_target_mountable [of m] by (cases "dm_target_name m") (auto simp: mountable_def lits)
  show ?thesis
    by (auto simp: rootfs_device_def ok intro!: returns_return returns_mono [OF setup_dm_shape])
qed

lemma setup_rootfs_footprint: "emits (rootfs_event cfg m) (cominitSetupRootfs cfg (Some m))"
proof -
  have dm: "emits (rootfs_event cfg m) (device_step cfg m)"
    by (rule emits_mono [OF device_step_events]) (simp add: rootfs_event_def)
  have mnt: "emits (rootfs_event cfg m) (mount_newroot (rootfs_device cfg m))" if "mountable m"
    by (rule emits_mono [OF mount_root.footprint])
      (use that in \<open>auto simp: rootfs_event_def rootfs_device_def split: call.splits fs_call.splits if_splits\<close>)
  show ?thesis
    unfolding cominitSetupRootfs_def option.case using mnt
    by (intro emits_if emits_return emits_bind_spec [OF dm device_step_result] emits_case_prod)
      (auto intro!: emits_intros split: prod.splits if_splits)
qed

interpretation setup_rootfs: operation "cominitSetupRootfs cfg (Some m)" "rootfs_event cfg m"
  by unfold_locales (rule setup_rootfs_footprint)

lemma setup_rootfs_codes:
  "returns (\<lambda>(e, r). e = 0 \<or> e = - 1) (cominitSetupRootfs cfg (Some m))"
  unfolding cominitSetupRootfs_def option.case
  by (intro returns_structure returns_bind returns_bind_spec [OF mount_root.codes]) auto

text \<open>The walk removes files, links, and directories below the root.\<close>
definition nftw_event :: "event \<Rightarrow> bool" where
  "nftw_event e = (case e of (Fs (Nftw_next p _ fl), _) \<Rightarrow> p = ''/'' \<and> fl = [FTW_DEPTH, FTW_PHYS, FTW_MOUNT] | (Fs (Unlink _), _) \<Rightarrow> True
     | (Fs (Rmdir _), _) \<Rightarrow> True | _ \<Rightarrow> False)"

lemma emits_nftw_loop: "emits nftw_event (nftw_loop n)"
  by (induction n)
    (auto simp: nftw_event_def cominitNftwRemove_def split: ftw.split intro!: emits_intros)

definition switch_event :: "event \<Rightarrow> bool" where
  "switch_event e \<longleftrightarrow> nftw_event e \<or> (case e of (Fs (Chdir _), _) \<Rightarrow> True | (Fs (Chroot _), _) \<Rightarrow> True
     | (Fs (Mount s t ty fl), _) \<Rightarrow> s = ''/newroot'' \<and> t = ''/'' \<and> ty = None \<and> fl = [MS_MOVE]
     | _ \<Rightarrow> False)"

interpretation switch_root: code_operation cominitSwitchIntoRootfs switch_event 0 "- 1"
  unfolding cominitSwitchIntoRootfs_def
  by unfold_locales
    (auto simp: switch_event_def intro!: emits_intros returns_intros emits_mono [OF emits_nftw_loop])

section \<open>Outcomes\<close>

text \<open>The calls of a successful setup: the device mapper where the metadata ask for it, then the
  directory and the mount.\<close>
definition rootfs_mounted :: "config \<Rightarrow> cominitRfsMetaData_t \<Rightarrow> event list \<Rightarrow> bool" where
  "rootfs_mounted cfg m ext \<longleftrightarrow> (\<exists>dm d r.
     ext = dm @ [(Fs (Mkdir ''/newroot'' 493), d),
                 (Fs (Mount (if crypt m = COMINIT_CRYPTOPT_NONE then devicePath m else dm_rootfs_path cfg)
                        ''/newroot'' (Some (fsType m)) (if ro m then [MS_RDONLY] else [])), r)]
     \<and> rc r \<noteq> - 1
     \<and> (if crypt m = COMINIT_CRYPTOPT_NONE then dm = []
        else \<exists>tgt. dm_target_name m = Some tgt \<and> dm_started cfg m tgt dm))"

lemma mount_newroot_mounts:
  assumes "status w = Running"
  shows "wp (mount_newroot m) (\<lambda>e w'. status w' = Running \<and> (e = 0 \<longrightarrow> (\<exists>d r. trace w' = trace w @
     [(Fs (Mkdir ''/newroot'' 493), d), (Fs (Mount (devicePath m) ''/newroot'' (Some (fsType m))
         (if ro m then [MS_RDONLY] else [])), r)] \<and> rc r \<noteq> - 1))) w"
  unfolding mount_newroot_def sysfiles_ops using assms by (auto intro!: vcg)

lemma setup_rootfs_mounts:
  assumes "meta_wf m" and "status w = Running"
  shows "wp (cominitSetupRootfs cfg (Some m)) (\<lambda>(e, r) w'. status w' = Running \<and> (e = 0 \<longrightarrow>
     mountable m \<and> (\<exists>ext. trace w' = trace w @ ext \<and> rootfs_mounted cfg m ext))) w"
proof (cases "crypt m = COMINIT_CRYPTOPT_NONE")
  case True
  then have "wp (mount_newroot m) (\<lambda>e w'. status w' = Running \<and> (e = 0 \<longrightarrow>
      (\<exists>ext. trace w' = trace w @ ext \<and> rootfs_mounted cfg m ext))) w"
    by (intro wp_mono [OF mount_newroot_mounts [OF assms(2)]]) (auto simp: rootfs_mounted_def)
  with True assms(2) show ?thesis
    unfolding cominitSetupRootfs_def
    by (auto simp: mountable_def lits wp_simps elim: wp_mono intro!: vcg)
next
  case False
  let ?m = "m\<lparr>devicePath := dm_rootfs_path cfg\<rparr>"
  have dm: "wp (cominitSetupDmDevice cfg (Some m)) (\<lambda>(e, r) w1. status w1 = Running \<and>
     (e = 0 \<or> e = - 1) \<and> (e = 0 \<longrightarrow> r = Some ?m \<and> (\<exists>tgt dm. dm_target_name m = Some tgt
        \<and> trace w1 = trace w @ dm \<and> dm_started cfg m tgt dm))) w"
    using setup_dm_started [OF assms, of cfg] returns_wp [OF setup_dm_shape]
    by (auto simp: wp_def split: prod.splits dest!: returnsD [OF setup_dm_shape])
  have mnt: "wp (mount_newroot ?m) (\<lambda>e w'. status w' = Running \<and> (e = 0 \<longrightarrow>
      (\<exists>ext. trace w' = trace w @ ext \<and> rootfs_mounted cfg m ext))) w1"
    if "status w1 = Running" "dm_target_name m = Some tgt" "trace w1 = trace w @ dm"
      "dm_started cfg m tgt dm" for w1 tgt dm
    by (intro wp_mono [OF mount_newroot_mounts [OF that(1)]])
      (use that False in \<open>auto simp: rootfs_mounted_def\<close>)
  show ?thesis
    unfolding cominitSetupRootfs_def option.case if_P [OF False]
    by (auto intro!: vcg wp_mono [OF dm] elim!: wp_mono [OF mnt]
        intro: assms(2) dm_target_mountable split: prod.splits)
qed

text \<open>A removal directly follows the report of its path by the walk; a directory is removed below
  the root only.\<close>
definition removal_reported :: "event option \<Rightarrow> event \<Rightarrow> bool" where
  "removal_reported prev e = (case fst e of
      Fs (Rmdir p) \<Rightarrow> (case prev of
          Some (Fs (Nftw_next _ _ _), r) \<Rightarrow> p = cstr (bytes r) \<and> ftw_of (val r) = FTW_DP \<and> 0 < sint (val2 r)
        | _ \<Rightarrow> False)
    | Fs (Unlink p) \<Rightarrow> (case prev of
          Some (Fs (Nftw_next _ _ _), r) \<Rightarrow> p = cstr (bytes r) \<and> ftw_of (val r) \<in> {FTW_F, FTW_SL}
        | _ \<Rightarrow> False)
    | _ \<Rightarrow> True)"

primrec removals_reported :: "event option \<Rightarrow> event list \<Rightarrow> bool" where
  "removals_reported prev [] = True"
| "removals_reported prev (e # es) = (removal_reported prev e \<and> removals_reported (Some e) es)"

lemma removals_later: "removals_reported None es \<Longrightarrow> removals_reported prev es"
  by (cases es) (auto simp: removal_reported_def split: call.splits fs_call.splits)

lemma removals_append:
  "removals_reported prev a \<Longrightarrow> removals_reported None b \<Longrightarrow> removals_reported prev (a @ b)"
  by (induction a arbitrary: prev) (auto intro: removals_later)

lemma nftw_removes:
  assumes "status w = Running"
  shows "wp (nftw_loop n)
     (\<lambda>_ w'. \<exists>ext. trace w' = trace w @ ext \<and> removals_reported None ext) w"
  using assms
proof (induction n arbitrary: w)
  case 0
  then show ?case by (auto intro!: vcg)
next
  case (Suc n)
  have step: "wp (nftw_loop n) (\<lambda>_ w'. \<exists>ext. trace w' = trace w @ ext \<and> removals_reported None ext)
      (w\<lparr>trace := trace w @ pre\<rparr>)" if "removals_reported None pre" for pre
    by (rule wp_mono [OF Suc.IH]) (use Suc.prems that in \<open>auto intro: removals_append\<close>)
  show ?case
    using Suc.prems
    by (auto simp: cominitNftwRemove_def removal_reported_def split: ftw.split intro!: vcg step)
qed

text \<open>The calls of a successful switch, in order.\<close>
lemma switch_order:
  assumes "run_state cominitSwitchIntoRootfs w = (0, w')" and "status w' = Running"
  shows "\<exists>walk a b c d. trace w' = trace w @ walk @
     [(Fs (Chdir ''/newroot''), a), (Fs (Mount ''/newroot'' ''/'' None [MS_MOVE]), b),
      (Fs (Chroot ''.''), c), (Fs (Chdir ''/''), d)]
     \<and> list_all nftw_event walk \<and> removals_reported None walk
     \<and> rc a \<noteq> - 1 \<and> rc b \<noteq> - 1 \<and> rc c \<noteq> - 1 \<and> rc d \<noteq> - 1"
proof -
  have run: "status w = Running" using assms switch_root.still_running by blast
  obtain x w1 where x: "run_state (nftw_loop (fuel w)) w = (x, w1)" by fastforce
  from wp_run_state [OF nftw_removes [OF run] x] obtain walk where
    walk: "trace w1 = trace w @ walk" "removals_reported None walk" by blast
  then have "list_all nftw_event walk" using emitsD(3) [OF emits_nftw_loop x] by (auto simp: list_all_iff)
  let ?rest = "do {
     a \<leftarrow> sys (Fs (Chdir ''/newroot''));
     if rc a = - 1 then return (- 1) else do {
     b \<leftarrow> sys (Fs (Mount ''/newroot'' ''/'' None [MS_MOVE]));
     if rc b = - 1 then return (- 1) else do {
     c \<leftarrow> sys (Fs (Chroot ''.''));
     if rc c = - 1 then return (- 1) else do {
     d \<leftarrow> sys (Fs (Chdir ''/''));
     if rc d = - 1 then return (- 1) else return (0 :: int) } } } }"
  have rest: "run_state ?rest w1 = (0, w')"
    using assms(1) x by (simp add: cominitSwitchIntoRootfs_def get_fuel_def)
  have foot: "emits (\<lambda>_. True) ?rest" by (intro emits_intros) auto
  have run1: "status w1 = Running" using emitsD(4) [OF foot rest] assms(2) by metis
  have "wp ?rest (\<lambda>e w'. e = 0 \<longrightarrow> (\<exists>a b c d. trace w' = trace w1 @
     [(Fs (Chdir ''/newroot''), a), (Fs (Mount ''/newroot'' ''/'' None [MS_MOVE]), b),
      (Fs (Chroot ''.''), c), (Fs (Chdir ''/''), d)]
     \<and> rc a \<noteq> - 1 \<and> rc b \<noteq> - 1 \<and> rc c \<noteq> - 1 \<and> rc d \<noteq> - 1)) w1"
    using run1 by (auto intro!: vcg)
  from wp_run_state [OF this rest] walk \<open>list_all nftw_event walk\<close> show ?thesis by auto
qed

section \<open>The mounted rootfs and the switch\<close>

text \<open>C19: Mounting the rootfs: success means that the metadata allow it (a squashfs or a dm-verity device
  only read-only, no dm-crypt), that the device-mapper device was set up where they ask for one, and
  that the last call mounted that device, or the partition itself, at \<^verbatim>\<open>/newroot\<close> with the signed
  filesystem type, read-only if so marked. Metadata that do not allow it are refused before any call
  when a squashfs is to be written to.\<close>
theorem rootfs_mount_outcome:
  assumes "meta_wf m" and "status w = Running"
  shows "wp (cominitSetupRootfs cfg (Some m)) (\<lambda>(e, r) w'. status w' = Running \<and> (e = 0 \<or> e = - 1)
     \<and> (fsType m = ''squashfs'' \<and> \<not> ro m \<longrightarrow> e = - 1 \<and> w' = w)
     \<and> (e = 0 \<longrightarrow> mountable m \<and> (\<exists>ext. trace w' = trace w @ ext \<and> rootfs_mounted cfg m ext))) w"
proof (cases "fsType m = ''squashfs'' \<and> \<not> ro m")
  case True
  then show ?thesis using assms(2) by (simp add: cominitSetupRootfs_def wp_simps)
next
  case False
  then show ?thesis
    using setup_rootfs_mounts [OF assms, of cfg]
    by (auto simp: wp_def split: prod.splits dest!: returnsD [OF setup_rootfs_codes])
qed

theorem rootfs_mount_outcome_witness:
  "wp (cominitSetupRootfs default_config (Some sample_verity)) (\<lambda>(e, r) w'. e = 0 \<and> mountable sample_verity
     \<and> rootfs_mounted default_config sample_verity (trace w')) (start (\<lambda>_ _. ok) 0)"
proof -
  have code: "wp (cominitSetupRootfs default_config (Some sample_verity)) (\<lambda>(e, r) _. e = 0) (start (\<lambda>_ _. ok) 0)"
  proof -
    have shape: "\<not> (\<not> ro sample_verity \<and> fsType sample_verity = ''squashfs'')" "crypt sample_verity \<noteq> COMINIT_CRYPTOPT_NONE"
      by (simp_all add: sample_verity_def lits)
    show ?thesis
      unfolding cominitSetupRootfs_def option.case if_not_P [OF shape(1)] if_P [OF shape(2)]
      by (simp add: cominitSetupDmDevice_def mount_newroot_def sysfiles_ops dm_ops
        sample_verity_target wp_simps Let_def ok_def)
  qed
  show ?thesis
    using wp_conj [THEN iffD2, OF conjI, OF code
        rootfs_mount_outcome [OF sample_verity_wf start_simps(4), of default_config "\<lambda>_ _. ok" 0]]
    by (rule wp_mono) auto
qed

text \<open>C21: The switch into the rootfs: success means that after the walk over the initramfs the last four calls
  entered \<^verbatim>\<open>/newroot\<close>, moved it over the root, changed the root directory and entered it, each with
  success. The walk starts at the root, takes directories after their contents, follows no link and stays on
  the filesystem of the initramfs; it removes only what it was reported, files and links as such and
  directories when left, and never its starting point.\<close>
theorem switch_outcome:
  "wp cominitSwitchIntoRootfs (\<lambda>e w'. (e = 0 \<or> e = - 1) \<and> (e = 0 \<longrightarrow> status w' = Running \<longrightarrow>
     (\<exists>walk a b c d. trace w' = trace w @ walk @
       [(Fs (Chdir ''/newroot''), a), (Fs (Mount ''/newroot'' ''/'' None [MS_MOVE]), b),
        (Fs (Chroot ''.''), c), (Fs (Chdir ''/''), d)]
     \<and> list_all nftw_event walk \<and> removals_reported None walk
     \<and> rc a \<noteq> - 1 \<and> rc b \<noteq> - 1 \<and> rc c \<noteq> - 1 \<and> rc d \<noteq> - 1))) w"
  by (rule wpI) (use returnsD [OF switch_root.codes] in \<open>auto intro: switch_order\<close>)

text \<open>A walk over one file.\<close>
definition walk_env :: "event list \<Rightarrow> call \<Rightarrow> reply" where
  "walk_env h c = (if h = [] then ok\<lparr>rc := 1, bytes := bytes_of ''/init''\<rparr> else ok)"

theorem switch_outcome_witness:
  "wp cominitSwitchIntoRootfs (\<lambda>e w'. e = 0 \<and> (\<exists>walk rest. trace w' = walk @ rest \<and> length rest = 4
     \<and> removals_reported None walk)) (start walk_env 2)"
proof -
  have first: "walk_env [] c = ok\<lparr>rc := 1, bytes := bytes_of ''/init''\<rparr>" "walk_env (e # h) c = ok"
    "walk_env (h @ [e]) c = ok" for c e h
    by (simp_all add: walk_env_def)
  have two: "(2 :: nat) = Suc (Suc 0)" by simp
  have code: "wp cominitSwitchIntoRootfs (\<lambda>e w'. e = 0 \<and> status w' = Running) (start walk_env 2)"
    by (simp add: cominitSwitchIntoRootfs_def wp_simps first ok_def two cominitNftwRemove_def ftw_of_def)
  show ?thesis
    using wp_conj [THEN iffD2, OF conjI, OF code switch_outcome [of "start walk_env 2"]]
    by (rule wp_mono) fastforce
qed

end
