(* ===== verification/Automount.thy ===== *)
theory Automount
  imports Meta
begin

text \<open>
  src/automount.c and inc/automount.h: looking for a partition by its type GUID in the GUID partition
  tables of the block devices under \<^verbatim>\<open>/dev\<close>. Words of the table are read in the byte order of the
  host, which is taken to be little-endian, the byte order of the table.
\<close>

section \<open>Structures\<close>

record cominitGPTHeader_t =
  signature :: "byte list"
  revision :: u32
  headerSize :: u32
  headerCrc32 :: u32
  reserved :: u32
  currentLba :: u64
  backupLba :: u64
  firstUsableLba :: u64
  lastUsableLba :: u64
  diskGuid :: "byte list"
  partitionEntriesLba :: u64
  partitionEntryCount :: u32
  partitionEntrySize :: u32
  partitionEntriesCrc32 :: u32

record cominitGPTDisk_t =
  diskName :: string
  blockSize :: int
  hdr :: cominitGPTHeader_t

definition GPT_HEADER_SIZE :: nat where [lits]: "GPT_HEADER_SIZE = 92"
definition GPT_HEADER_DEFAULT_ENTRY_SIZE :: nat where [lits]: "GPT_HEADER_DEFAULT_ENTRY_SIZE = 128"
definition COMINIT_ROOTFS_GUID_TYPE :: string where
  [lits]: "COMINIT_ROOTFS_GUID_TYPE = ''b921b045-1df0-41c3-af44-4c6f280d3fae''"
definition COMINIT_SECURE_STORAGE_GUID_TYPE :: string where
  [lits]: "COMINIT_SECURE_STORAGE_GUID_TYPE = ''CA7D7CCB-63ED-4C53-861C-1742536059CC''"

primrec le_nat :: "byte list \<Rightarrow> nat" where
  "le_nat [] = 0"
| "le_nat (b # bs) = unat b + 256 * le_nat bs"

definition bytes_at :: "nat \<Rightarrow> nat \<Rightarrow> byte list \<Rightarrow> byte list" where
  "bytes_at off n bs = take n (drop off bs)"

text \<open>The packed structure as \<^verbatim>\<open>pread\<close> fills it.\<close>
definition header_of :: "byte list \<Rightarrow> cominitGPTHeader_t" where
  "header_of bs =
     \<lparr>signature = bytes_at 0 8 bs, revision = of_nat (le_nat (bytes_at 8 4 bs)),
      headerSize = of_nat (le_nat (bytes_at 12 4 bs)), headerCrc32 = of_nat (le_nat (bytes_at 16 4 bs)),
      reserved = of_nat (le_nat (bytes_at 20 4 bs)), currentLba = of_nat (le_nat (bytes_at 24 8 bs)),
      backupLba = of_nat (le_nat (bytes_at 32 8 bs)), firstUsableLba = of_nat (le_nat (bytes_at 40 8 bs)),
      lastUsableLba = of_nat (le_nat (bytes_at 48 8 bs)), diskGuid = bytes_at 56 16 bs,
      partitionEntriesLba = of_nat (le_nat (bytes_at 72 8 bs)),
      partitionEntryCount = of_nat (le_nat (bytes_at 80 4 bs)),
      partitionEntrySize = of_nat (le_nat (bytes_at 84 4 bs)),
      partitionEntriesCrc32 = of_nat (le_nat (bytes_at 88 4 bs))\<rparr>"

definition gptDisk_zero :: cominitGPTDisk_t where
  "gptDisk_zero = \<lparr>diskName = [], blockSize = 0, hdr = header_of (replicate GPT_HEADER_SIZE 0)\<rparr>"

section \<open>Probing a device\<close>

definition cominitAutomountGetBlockSize :: "int \<Rightarrow> (int \<times> int option) op" where
  "cominitAutomountGetBlockSize fd = do {
     r \<leftarrow> sys (Dev (Blksszget fd));
     if rc r < 0 then return (EXIT_FAILURE, None)
     else return (EXIT_SUCCESS, Some (sint (ucast (val r) :: u32))) }"

definition blacklist :: "string list" where
  "blacklist = [''loop'', ''zram'', ''dm-'', ''md'', ''sr'', ''ram'']"

definition cominitAutomountIsBlacklistedName :: "string \<Rightarrow> bool" where
  "cominitAutomountIsBlacklistedName name = (\<exists>b \<in> set blacklist. starts_with name b)"

text \<open>
  \<^verbatim>\<open>memcpy\<close> copies \<^verbatim>\<open>sizeof(diskName)\<close> bytes: a longer device name fills the array and leaves it
  without its NUL, here a name of that very length.
\<close>
definition cominitAutomountFindGpt ::
    "string \<Rightarrow> cominitGPTDisk_t \<Rightarrow> (int \<times> cominitGPTDisk_t) op" where
  "cominitAutomountFindGpt blockDevice gptDisk = do {
     o' \<leftarrow> sys (Fs (Open blockDevice [O_RDONLY, O_CLOEXEC]));
     let fd = rc o';
     if fd < 0 then return (EXIT_FAILURE, gptDisk)
     else do {
       (e, bs) \<leftarrow> cominitAutomountGetBlockSize fd;
       res \<leftarrow> (if e = EXIT_FAILURE then return (EXIT_FAILURE, gptDisk)
              else do {
                let disk1 = gptDisk\<lparr>blockSize := the bs\<rparr>;
                p \<leftarrow> sys (Fs (Pread fd GPT_HEADER_SIZE (of_int (the bs))));
                if rc p \<noteq> int GPT_HEADER_SIZE then return (EXIT_FAILURE, disk1)
                else do {
                  let disk2 = disk1\<lparr>hdr := header_of (take GPT_HEADER_SIZE (bytes p))\<rparr>;
                  if signature (hdr disk2) \<noteq> bytes_of ''EFI PART'' then return (EXIT_FAILURE, disk2)
                  else return (EXIT_SUCCESS,
                         disk2\<lparr>diskName := take COMINIT_ROOTFS_DEV_PATH_MAX blockDevice\<rparr>) } });
       run (Fs (Close fd));
       return res } }"

section \<open>GUIDs and device nodes\<close>

definition cominitAutomountFormatGuid :: "byte list \<Rightarrow> string" where
  "cominitAutomountFormatGuid rawGuid =
     hexw 8 (le_nat (bytes_at 0 4 rawGuid)) @ ''-'' @ hexw 4 (le_nat (bytes_at 4 2 rawGuid)) @ ''-''
     @ hexw 4 (le_nat (bytes_at 6 2 rawGuid)) @ ''-''
     @ concat (map (\<lambda>b. hexw 2 (unat b)) (bytes_at 8 2 rawGuid)) @ ''-''
     @ concat (map (\<lambda>b. hexw 2 (unat b)) (bytes_at 10 6 rawGuid))"

definition tolower :: "char \<Rightarrow> char" where
  "tolower c = (let n = of_char c :: nat in if 65 \<le> n \<and> n \<le> 90 then char_of (n + 32) else c)"

text \<open>\<^verbatim>\<open>strcasecmp(a, b) == 0\<close>\<close>
definition case_equal :: "string \<Rightarrow> string \<Rightarrow> bool" where
  "case_equal a b \<longleftrightarrow> map tolower a = map tolower b"

definition partition_node :: "string \<Rightarrow> nat \<Rightarrow> string" where
  "partition_node disk idx =
     disk @ (if disk \<noteq> [] \<and> isdigit (last disk) then ''p'' else []) @ udec idx"

definition cominitAutomountBuildPartitionNode :: "string \<Rightarrow> u32 \<Rightarrow> nat \<Rightarrow> int \<times> string" where
  "cominitAutomountBuildPartitionNode disk idx partitionNameSize =
     (let node = partition_node disk (unat idx) in
      if length node \<ge> partitionNameSize then (EXIT_FAILURE, take (partitionNameSize - 1) node)
      else (EXIT_SUCCESS, node))"

section \<open>The partition table\<close>

text \<open>The offset of an entry, in 64-bit arithmetic; the block size is sign-extended.\<close>
definition entry_offset :: "cominitGPTDisk_t \<Rightarrow> nat \<Rightarrow> u64" where
  "entry_offset disk entryIndex =
     partitionEntriesLba (hdr disk) * of_int (blockSize disk)
     + of_nat entryIndex * ucast (partitionEntrySize (hdr disk))"

text \<open>
  The loop over the entries with \<open>n\<close> of them left; the result, the partition name and the buffer are
  the variables it changes. The comparison with \<^verbatim>\<open>UINT64_MAX\<close> is always false.
\<close>
primrec entries_loop ::
    "nat \<Rightarrow> cominitGPTDisk_t \<Rightarrow> int \<Rightarrow> u64 \<Rightarrow> string \<Rightarrow> nat \<Rightarrow> string \<Rightarrow> byte list
       \<Rightarrow> (int \<times> string \<times> byte list) op" where
  "entries_loop 0 disk fd diskSize guidType nameSize name buf = return (EXIT_FAILURE, name, buf)"
| "entries_loop (Suc n) disk fd diskSize guidType nameSize name buf =
     (let entryIndex = unat (partitionEntryCount (hdr disk)) - Suc n;
          entryOffset = entry_offset disk entryIndex;
          entrySize = unat (partitionEntrySize (hdr disk)) in
      if entryOffset > diskSize then return (EXIT_FAILURE, name, buf)
      else do {
        r \<leftarrow> sys (Fs (Pread fd entrySize entryOffset));
        let buf' = overlay (take entrySize (take (nat (rc r)) (bytes r))) buf;
        if rc r \<noteq> int entrySize then return (EXIT_FAILURE, name, buf')
        else if (\<forall>b \<in> set (take 16 buf'). b = 0)
        then entries_loop n disk fd diskSize guidType nameSize name buf'
        else if case_equal (cominitAutomountFormatGuid (take 16 buf')) guidType
        then (case cominitAutomountBuildPartitionNode (diskName disk) (of_nat entryIndex + 1) nameSize of
                (res, node) \<Rightarrow> return (res, node, buf'))
        else entries_loop n disk fd diskSize guidType nameSize name buf' })"

text \<open>The buffer's contents before the first read are those of fresh memory, in the reply of
  \<^verbatim>\<open>malloc\<close>. A name without NUL cannot be passed to \<^verbatim>\<open>open\<close>.\<close>
definition cominitAutomountFindPartitionOnDisk ::
    "cominitGPTDisk_t option \<Rightarrow> string option \<Rightarrow> string option \<Rightarrow> nat \<Rightarrow> (int \<times> string option) op" where
  "cominitAutomountFindPartitionOnDisk gptDisk guidType partitionName partitionNameSize =
     (case (gptDisk, guidType, partitionName) of
        (Some disk, Some guid, Some name) \<Rightarrow>
          if diskName disk = [] \<or> partitionNameSize = 0 then return (EXIT_FAILURE, partitionName)
          else if length (diskName disk) \<ge> COMINIT_ROOTFS_DEV_PATH_MAX
          then do { halt (Undefined OutOfBounds); return (EXIT_FAILURE, partitionName) }
          else do {
            o' \<leftarrow> sys (Fs (Open (diskName disk) [O_RDONLY, O_CLOEXEC]));
            let fd = rc o';
            if fd < 0 then return (EXIT_FAILURE, partitionName)
            else do {
              (e, sz) \<leftarrow> cominitCommonGetPartSize (Some 0) fd;
              let diskSize = the sz;
              let entrySize = unat (partitionEntrySize (hdr disk));
              res \<leftarrow>
                (if e = - 1 then return (EXIT_FAILURE, name)
                 else if entrySize < GPT_HEADER_DEFAULT_ENTRY_SIZE \<or> entrySize > unat diskSize
                 then return (EXIT_FAILURE, name)
                 else do {
                   m \<leftarrow> sys (Mem (Malloc entrySize));
                   if rc m = 0 then return (EXIT_FAILURE, name)
                   else do {
                     (r, name', buf) \<leftarrow> entries_loop (unat (partitionEntryCount (hdr disk))) disk fd
                        diskSize guid partitionNameSize name
                        (overlay (take entrySize (bytes m)) (replicate entrySize 0));
                     run (Mem (Free buf));
                     return (r, name') } });
              run (Fs (Close fd));
              return (fst res, Some (snd res)) } }
      | _ \<Rightarrow> return (EXIT_FAILURE, partitionName))"

section \<open>All devices\<close>

text \<open>A name that is not skipped by the two tests on it.\<close>
definition probed_name :: "string \<Rightarrow> bool" where
  "probed_name name \<longleftrightarrow> (name = [] \<or> hd name \<noteq> CHR ''.'') \<and> \<not> cominitAutomountIsBlacklistedName name"

definition device_path :: "string \<Rightarrow> string" where
  "device_path name = take (2 * COMINIT_ROOTFS_DEV_PATH_MAX - 1) (''/dev/'' @ name)"

text \<open>The \<^verbatim>\<open>readdir\<close> loop; \<open>result\<close> is what the last probed device gave.\<close>
primrec devices_loop ::
    "nat \<Rightarrow> int \<Rightarrow> cominitGPTDisk_t \<Rightarrow> string \<Rightarrow> string \<Rightarrow> nat
       \<Rightarrow> (int \<times> cominitGPTDisk_t \<times> string) op" where
  "devices_loop 0 result gptDisk guid name nameSize = do {
     halt Spinning;
     return (result, gptDisk, name) }"
| "devices_loop (Suc n) result gptDisk guid name nameSize = do {
     d \<leftarrow> sys (Fs Readdir);
     if rc d = 0 then return (result, gptDisk, name)
     else do {
       let entry = cstr (bytes d);
       if \<not> probed_name entry then devices_loop n result gptDisk guid name nameSize
       else do {
         let device = device_path entry;
         st \<leftarrow> sys (Fs (Lstat device));
         if rc st \<noteq> 0 then devices_loop n result gptDisk guid name nameSize
         else if kind st \<noteq> BlockDevice then devices_loop n result gptDisk guid name nameSize
         else do {
           (r, disk) \<leftarrow> cominitAutomountFindGpt device gptDisk_zero;
           if r \<noteq> EXIT_SUCCESS then devices_loop n r gptDisk guid name nameSize
           else do {
             (r', name') \<leftarrow> cominitAutomountFindPartitionOnDisk (Some disk) (Some guid) (Some name) nameSize;
             if r' = EXIT_SUCCESS then return (EXIT_SUCCESS, disk, the name')
             else devices_loop n r' gptDisk guid (the name') nameSize } } } } }"

definition cominitAutomountFindPartition ::
    "cominitGPTDisk_t option \<Rightarrow> string option \<Rightarrow> string option \<Rightarrow> nat
       \<Rightarrow> (int \<times> cominitGPTDisk_t option \<times> string option) op" where
  "cominitAutomountFindPartition gptDisk guidType partitionName partitionNameSize =
     (case (gptDisk, guidType, partitionName) of
        (Some disk, Some guid, Some name) \<Rightarrow>
          if partitionNameSize = 0 then return (EXIT_FAILURE, gptDisk, partitionName)
          else do {
            d \<leftarrow> sys (Fs (Opendir ''/dev''));
            if rc d = 0 then return (EXIT_FAILURE, gptDisk, partitionName)
            else do {
              n \<leftarrow> get_fuel;
              (r, disk', name') \<leftarrow> devices_loop n EXIT_FAILURE disk guid name partitionNameSize;
              run (Fs Closedir);
              return (r, Some disk', Some name') } }
      | _ \<Rightarrow> return (EXIT_FAILURE, gptDisk, partitionName))"

section \<open>GUID texts\<close>

lemma le_nat_less: "le_nat bs < 256 ^ length bs"
proof (induction bs)
  case (Cons b bs)
  then have "256 * (le_nat bs + 1) \<le> 256 * 256 ^ length bs" by (intro mult_le_mono2) simp
  with unat_byte_less [of b] show ?case by (simp del: unat_byte_less)
qed simp

lemma le_nat_inject: "length a = length b \<Longrightarrow> le_nat a = le_nat b \<Longrightarrow> a = b"
proof (induction a b rule: list_induct2)
  case (Cons x xs y ys)
  have xy: "unat x < 256" "unat y < 256" by simp_all
  from Cons.prems have eq: "unat x + 256 * le_nat xs = unat y + 256 * le_nat ys" by simp
  have "unat x = (unat x + 256 * le_nat xs) mod 256" using xy by simp
  also have "\<dots> = unat y" using xy eq by simp
  finally have u: "unat x = unat y" .
  with eq Cons.IH have "xs = ys" by simp
  with u show ?case by (simp add: word_unat_eq_iff)
qed simp

lemma hex_bytes_inject:
  assumes "length xs = length ys"
  shows "concat (map (\<lambda>b. hexw 2 (unat (b :: byte))) xs) = concat (map (\<lambda>b. hexw 2 (unat b)) ys)
     \<longleftrightarrow> xs = ys"
proof -
  have "concat (map (hexw 2) (map unat xs)) = concat (map (hexw 2) (map unat ys))
     \<longleftrightarrow> map unat xs = map unat ys"
    using assms by (intro hex.concat_enc_inject) auto
  also have "\<dots> \<longleftrightarrow> xs = ys"
    using assms by (induction xs ys rule: list_induct2) (auto simp: word_unat_eq_iff)
  finally show ?thesis by (simp add: comp_def)
qed

lemma length_hex_bytes [simp]: "length (concat (map (\<lambda>b. hexw 2 (unat (b :: byte))) xs)) = 2 * length xs"
  by (induction xs) auto

lemma format_guid_length: "length raw = 16 \<Longrightarrow> length (cominitAutomountFormatGuid raw) = 36"
  by (simp add: cominitAutomountFormatGuid_def bytes_at_def)

lemma le_field_less:
  assumes "length raw = 16" and "off + k \<le> 16"
  shows "le_nat (bytes_at off k raw) < 16 ^ (2 * k)"
proof -
  have "length (bytes_at off k raw) = k" using assms by (simp add: bytes_at_def)
  with le_nat_less [of "bytes_at off k raw"] show ?thesis by (simp add: power_mult)
qed

lemma format_guid_inject:
  assumes "length a = 16" and "length b = 16"
    and "cominitAutomountFormatGuid a = cominitAutomountFormatGuid b"
  shows "a = b"
proof -
  note bounds = le_field_less [OF assms(1)] le_field_less [OF assms(2)]
  have parts: "le_nat (bytes_at 0 4 a) = le_nat (bytes_at 0 4 b)"
    "le_nat (bytes_at 4 2 a) = le_nat (bytes_at 4 2 b)" "le_nat (bytes_at 6 2 a) = le_nat (bytes_at 6 2 b)"
    "concat (map (\<lambda>b. hexw 2 (unat b)) (bytes_at 8 2 a)) = concat (map (\<lambda>b. hexw 2 (unat b)) (bytes_at 8 2 b))"
    "concat (map (\<lambda>b. hexw 2 (unat b)) (bytes_at 10 6 a)) = concat (map (\<lambda>b. hexw 2 (unat b)) (bytes_at 10 6 b))"
    using assms(3) bounds [of 0 4] bounds [of 4 2] bounds [of 6 2] assms(1,2)
    by (auto simp: cominitAutomountFormatGuid_def hex.enc_inject append_eq_append_conv
        bytes_at_def)
  have "bytes_at 0 4 a = bytes_at 0 4 b" "bytes_at 4 2 a = bytes_at 4 2 b"
    "bytes_at 6 2 a = bytes_at 6 2 b" "bytes_at 8 2 a = bytes_at 8 2 b" "bytes_at 10 6 a = bytes_at 10 6 b"
    using parts assms(1,2) by (auto intro!: le_nat_inject simp: hex_bytes_inject bytes_at_def)
  moreover have "x = bytes_at 0 4 x @ bytes_at 4 2 x @ bytes_at 6 2 x @ bytes_at 8 2 x @ bytes_at 10 6 x"
    if "length x = 16" for x :: "byte list"
  proof -
    have cut: "drop k x = take n (drop k x) @ drop (k + n) x" for k n
      by (metis append_take_drop_id drop_drop add.commute)
    show ?thesis
      using cut [of 0 4] cut [of 4 2] cut [of 6 2] cut [of 8 2] that by (simp add: bytes_at_def)
  qed
  ultimately show ?thesis using assms(1,2) by metis
qed

section \<open>Footprints\<close>

definition probed_path :: "string \<Rightarrow> bool" where
  "probed_path p \<longleftrightarrow> (\<exists>name. p = device_path name \<and> probed_name name)"

lemma probed_path_device [simp]: "probed_name name \<Longrightarrow> probed_path (device_path name)"
  by (auto simp: probed_path_def)

text \<open>The scan only reads, and only devices whose name it probes.\<close>
definition scan_event :: "event \<Rightarrow> bool" where
  "scan_event e = (case e of
      (Fs (Open p fl), _) \<Rightarrow> fl = [O_RDONLY, O_CLOEXEC] \<and> probed_path p
    | (Fs (Close _), _) \<Rightarrow> True | (Fs (Pread _ _ _), _) \<Rightarrow> True | (Fs (Lstat _), _) \<Rightarrow> True
    | (Fs Readdir, _) \<Rightarrow> True | (Fs (Opendir p), _) \<Rightarrow> p = ''/dev'' | (Fs Closedir, _) \<Rightarrow> True
    | (Dev (Blksszget _), _) \<Rightarrow> True | (Dev (Blkgetsize64 _), _) \<Rightarrow> True
    | (Mem (Malloc _), _) \<Rightarrow> True | (Mem (Free _), _) \<Rightarrow> True | _ \<Rightarrow> False)"

lemma scan_event_simps [simp]:
  "scan_event (Fs Readdir, r)" "scan_event (Fs (Lstat p), r)" "scan_event (Fs Closedir, r)"
  "scan_event (Fs (Opendir p), r) = (p = ''/dev'')" "\<not> scan_event (Fs (Mount a b c d), r)"
  "\<not> scan_event (Proc q, r)"
  by (simp_all add: scan_event_def)

text \<open>On a given disk.\<close>
definition disk_event :: "string \<Rightarrow> event \<Rightarrow> bool" where
  "disk_event disk e = (case e of
      (Fs (Open p fl), _) \<Rightarrow> fl = [O_RDONLY, O_CLOEXEC] \<and> p = disk
    | (Fs (Close _), _) \<Rightarrow> True | (Fs (Pread _ _ _), _) \<Rightarrow> True
    | (Dev (Blksszget _), _) \<Rightarrow> True | (Dev (Blkgetsize64 _), _) \<Rightarrow> True
    | (Mem (Malloc _), _) \<Rightarrow> True | (Mem (Free _), _) \<Rightarrow> True | _ \<Rightarrow> False)"

lemma emits_entries_loop:
  assumes "\<And>k off r. K (Fs (Pread fd k off), r)"
  shows "emits K (entries_loop n disk fd ds guid sz name buf)"
  by (induction n arbitrary: buf) (auto simp: assms intro!: emits_intros split: prod.split)

interpretation find_gpt: operation "cominitAutomountFindGpt device disk" "disk_event device"
  unfolding cominitAutomountFindGpt_def cominitAutomountGetBlockSize_def
  by unfold_locales (auto simp: disk_event_def intro!: emits_intros)

lemma emits_find_on_disk:
  "emits (disk_event (diskName disk)) (cominitAutomountFindPartitionOnDisk (Some disk) guid name sz)"
  unfolding cominitAutomountFindPartitionOnDisk_def cominitCommonGetPartSize_def
  by (auto simp: disk_event_def split: option.split intro!: emits_intros emits_entries_loop)

interpretation find_on_disk:
    operation "cominitAutomountFindPartitionOnDisk (Some disk) guid name sz" "disk_event (diskName disk)"
  by unfold_locales (rule emits_find_on_disk)

text \<open>A successful probe names the device.\<close>
lemma find_gpt_disk:
  "returns (\<lambda>(r, d). r = EXIT_SUCCESS \<longrightarrow> diskName d = take COMINIT_ROOTFS_DEV_PATH_MAX device)
     (cominitAutomountFindGpt device disk)"
  unfolding cominitAutomountFindGpt_def cominitAutomountGetBlockSize_def
  by (rule returns_bind, rule returns_Let, rule returns_if, simp add: returns_return,
      rule returns_bind, rule returns_case_prod,
      rule returns_bind_spec [where R = "\<lambda>(r, d). r = EXIT_SUCCESS \<longrightarrow>
        diskName d = take COMINIT_ROOTFS_DEV_PATH_MAX device"])
    (auto intro!: returns_intros)

lemma emits_devices_loop: "emits scan_event (devices_loop n r disk guid name sz)"
proof (induction n arbitrary: r disk name)
  case 0
  show ?case by (auto intro!: emits_intros)
next
  case (Suc n)
  have gpt: "emits scan_event (cominitAutomountFindGpt (device_path e) gptDisk_zero)" if "probed_name e" for e
    by (rule emits_mono [OF find_gpt.footprint])
      (use that in \<open>auto simp: disk_event_def scan_event_def
        split: call.splits fs_call.splits dev_call.splits mem_call.splits\<close>)
  have part: "emits scan_event (cominitAutomountFindPartitionOnDisk (Some d) (Some guid) (Some name) sz)"
    if "probed_name e" "diskName d = take COMINIT_ROOTFS_DEV_PATH_MAX (device_path e)" for d e name
  proof (cases "length (device_path e) < COMINIT_ROOTFS_DEV_PATH_MAX")
    case True
    with that(2) have "diskName d = device_path e" by simp
    then show ?thesis
      by (intro emits_mono [OF emits_find_on_disk])
        (use that(1) in \<open>auto simp: disk_event_def scan_event_def
          split: call.splits fs_call.splits dev_call.splits mem_call.splits\<close>)
  next
    case False
    with that(2) have "COMINIT_ROOTFS_DEV_PATH_MAX \<le> length (diskName d)" by simp
    then show ?thesis
      unfolding cominitAutomountFindPartitionOnDisk_def by (auto intro!: emits_intros)
  qed
  have probe: "emits scan_event (State_Monad.bind (cominitAutomountFindGpt (device_path e) gptDisk_zero) f)"
    if "probed_name e" "\<And>r d. (r = EXIT_SUCCESS \<longrightarrow> diskName d = take COMINIT_ROOTFS_DEV_PATH_MAX (device_path e))
        \<Longrightarrow> emits scan_event (f (r, d))" for e f
    by (rule emits_bind_spec [OF gpt [OF that(1)] find_gpt_disk]) (use that(2) in auto)
  show ?case
    by (auto intro!: emits_intros Suc probe part)
qed

interpretation find_partition: operation "cominitAutomountFindPartition disk guid name sz" scan_event
  unfolding cominitAutomountFindPartition_def
  by unfold_locales
    (auto split: option.split intro!: emits_intros emits_devices_loop)

section \<open>The first entry of a type\<close>

definition has_type :: "string \<Rightarrow> byte list \<Rightarrow> bool" where
  "has_type guid e \<longleftrightarrow> \<not> (\<forall>b \<in> set (take 16 e). b = 0)
     \<and> case_equal (cominitAutomountFormatGuid (take 16 e)) guid"

text \<open>The specification of the loop: a search in the list of entries.\<close>
primrec lookup_type :: "string \<Rightarrow> nat \<Rightarrow> byte list list \<Rightarrow> nat option" where
  "lookup_type guid i [] = None"
| "lookup_type guid i (e # es) = (if has_type guid e then Some i else lookup_type guid (Suc i) es)"

lemma lookup_type_first:
  "lookup_type guid i es = Some k \<longleftrightarrow>
   (\<exists>j < length es. k = i + j \<and> has_type guid (es ! j) \<and> (\<forall>l < j. \<not> has_type guid (es ! l)))"
proof (induction es arbitrary: i)
  case (Cons e es)
  show ?case by (auto simp: Cons.IH Ex_less_Suc2 All_less_Suc2)
qed simp

text \<open>A disk whose table can be read: \<^verbatim>\<open>pread\<close> delivers every entry in full.\<close>
definition table_readable ::
    "(event list \<Rightarrow> call \<Rightarrow> reply) \<Rightarrow> int \<Rightarrow> cominitGPTDisk_t \<Rightarrow> byte list list \<Rightarrow> bool" where
  "table_readable E fd disk entries \<longleftrightarrow>
     length entries = unat (partitionEntryCount (hdr disk))
     \<and> (\<forall>h. \<forall>i < length entries.
          let r = E h (Fs (Pread fd (unat (partitionEntrySize (hdr disk))) (entry_offset disk i))) in
          rc r = int (unat (partitionEntrySize (hdr disk))) \<and> bytes r = entries ! i
          \<and> length (entries ! i) = unat (partitionEntrySize (hdr disk)))"

lemma entries_loop_lookup:
  assumes "table_readable (env w) fd disk entries" and "status w = Running"
    and "\<forall>i < length entries. entry_offset disk i \<le> diskSize"
    and "length buf = unat (partitionEntrySize (hdr disk))" and "n \<le> length entries"
  shows "wp (entries_loop n disk fd diskSize guid nameSize name buf)
     (\<lambda>(res, nm, _) w'. status w' = Running \<and> (res, nm) =
        (case lookup_type guid (length entries - n) (drop (length entries - n) entries) of
           None \<Rightarrow> (EXIT_FAILURE, name)
         | Some i \<Rightarrow> cominitAutomountBuildPartitionNode (diskName disk) (of_nat i + 1) nameSize)) w"
  using assms
proof (induction n arbitrary: buf w)
  case 0
  then show ?case by (simp add: wp_simps)
next
  case (Suc n)
  let ?i = "length entries - Suc n" and ?sz = "unat (partitionEntrySize (hdr disk))"
  let ?r = "env w (trace w) (Fs (Pread fd ?sz (entry_offset disk ?i)))"
  let ?w = "w\<lparr>trace := trace w @ [(Fs (Pread fd ?sz (entry_offset disk ?i)), ?r)]\<rparr>"
  have i: "?i < length entries" using Suc.prems(5) by simp
  have cnt: "unat (partitionEntryCount (hdr disk)) = length entries"
    using Suc.prems(1) by (simp add: table_readable_def)
  have r: "rc ?r = int ?sz" "bytes ?r = entries ! ?i" "length (entries ! ?i) = ?sz"
    using Suc.prems(1) i unfolding table_readable_def Let_def by blast+
  have d: "drop ?i entries = entries ! ?i # drop (length entries - n) entries"
    using i Suc.prems(5) by (metis Cons_nth_drop_Suc Suc_diff_Suc Suc_le_lessD)
  have next_i: "Suc ?i = length entries - n" using Suc.prems(5) by simp
  have le: "\<not> diskSize < entry_offset disk ?i" using Suc.prems(3) i by (simp add: not_less)
  have step: "wp (entries_loop n disk fd diskSize guid nameSize name (entries ! ?i))
     (\<lambda>(res, nm, _) w'. status w' = Running \<and> (res, nm) =
        (case lookup_type guid (length entries - n) (drop (length entries - n) entries) of
           None \<Rightarrow> (EXIT_FAILURE, name)
         | Some i \<Rightarrow> cominitAutomountBuildPartitionNode (diskName disk) (of_nat i + 1) nameSize)) ?w"
    using Suc.prems r(3) by (intro Suc.IH) auto
  have buf: "overlay (take ?sz (take (nat (rc ?r)) (bytes ?r))) buf = entries ! ?i"
    using r Suc.prems(4) by simp
  show ?case
    using Suc.prems(2) le r(1) step
    unfolding entries_loop.simps Let_def cnt wp_if wp_bind wp_sys buf d next_i [symmetric]
    by (auto simp: wp_simps has_type_def split: prod.split)
qed

section \<open>GUIDs as text\<close>

lemma tolower_hex_digit: "tolower (hex_digit n) = hex_digit n"
proof (cases "n < 16")
  case True
  from less_16_cases [OF this] show ?thesis by (auto simp: hex_digit_def tolower_def)
qed (simp add: hex_digit_def tolower_def)

lemma map_tolower_hexw: "map tolower (hexw k n) = hexw k n"
  by (induction k arbitrary: n) (auto simp: tolower_hex_digit)

lemma map_tolower_guid: "map tolower (cominitAutomountFormatGuid raw) = cominitAutomountFormatGuid raw"
proof -
  have "map tolower (concat (map (\<lambda>b. hexw 2 (unat (b :: byte))) bs)) = concat (map (\<lambda>b. hexw 2 (unat b)) bs)" for bs
    by (induction bs) (auto simp: map_tolower_hexw)
  then show ?thesis by (simp add: cominitAutomountFormatGuid_def map_tolower_hexw) (simp add: tolower_def)
qed

text \<open>C23: The text of a GUID identifies it: it has 36 characters, and the comparison of two such texts without
  regard to case holds if and only if the 16 bytes are the same.\<close>
theorem guid_text_exact:
  assumes "length a = 16" and "length b = 16"
  shows "length (cominitAutomountFormatGuid a) = 36
     \<and> (case_equal (cominitAutomountFormatGuid a) (cominitAutomountFormatGuid b) \<longleftrightarrow> a = b)"
  using assms format_guid_inject [OF assms] by (auto simp: format_guid_length case_equal_def map_tolower_guid)

theorem guid_text_exact_witness:
  "\<not> case_equal (cominitAutomountFormatGuid (replicate 16 1)) (cominitAutomountFormatGuid (replicate 16 2))"
  using guid_text_exact [of "replicate 16 1" "replicate 16 2"] by simp

section \<open>The partition of a type\<close>

text \<open>A disk that answers: it can be opened, has room for its entries, and its table can be read.\<close>
definition disk_readable ::
    "(event list \<Rightarrow> call \<Rightarrow> reply) \<Rightarrow> cominitGPTDisk_t \<Rightarrow> byte list list \<Rightarrow> bool" where
  "disk_readable E disk entries \<longleftrightarrow> (\<exists>fd size. 0 \<le> fd \<and> table_readable E fd disk entries
     \<and> GPT_HEADER_DEFAULT_ENTRY_SIZE \<le> unat (partitionEntrySize (hdr disk))
     \<and> unat (partitionEntrySize (hdr disk)) \<le> unat size
     \<and> (\<forall>i < length entries. entry_offset disk i \<le> size)
     \<and> (\<forall>h. rc (E h (Fs (Open (diskName disk) [O_RDONLY, O_CLOEXEC]))) = fd
          \<and> rc (E h (Dev (Blkgetsize64 fd))) = 0 \<and> val (E h (Dev (Blkgetsize64 fd))) = size
          \<and> (\<forall>n. rc (E h (Mem (Malloc n))) \<noteq> 0)))"

lemma on_disk_search:
  assumes disk: "disk_readable (env w) disk entries" and run: "status w = Running"
    and name: "diskName disk \<noteq> []" "length (diskName disk) < COMINIT_ROOTFS_DEV_PATH_MAX" "0 < nameSize"
  shows "wp (cominitAutomountFindPartitionOnDisk (Some disk) (Some guid) (Some name) nameSize)
     (\<lambda>(res, nm) w'. status w' = Running \<and> (res, nm) =
        (case lookup_type guid 0 entries of
           None \<Rightarrow> (EXIT_FAILURE, Some name)
         | Some i \<Rightarrow> map_prod id Some (cominitAutomountBuildPartitionNode (diskName disk) (of_nat i + 1) nameSize))) w"
proof -
  from disk obtain fd size where fd: "0 \<le> fd" "table_readable (env w) fd disk entries"
    "GPT_HEADER_DEFAULT_ENTRY_SIZE \<le> unat (partitionEntrySize (hdr disk))"
    "unat (partitionEntrySize (hdr disk)) \<le> unat size" "\<forall>i < length entries. entry_offset disk i \<le> size"
    and E: "\<And>h. rc (env w h (Fs (Open (diskName disk) [O_RDONLY, O_CLOEXEC]))) = fd"
      "\<And>h. rc (env w h (Dev (Blkgetsize64 fd))) = 0" "\<And>h. val (env w h (Dev (Blkgetsize64 fd))) = size"
      "\<And>h n. rc (env w h (Mem (Malloc n))) \<noteq> 0"
    unfolding disk_readable_def by blast
  define n where "n = unat (partitionEntryCount (hdr disk))"
  have n: "n = length entries" using fd(2) by (simp add: table_readable_def n_def)
  have loop: "wp (entries_loop n disk fd size guid nameSize name buf)
      (\<lambda>(res, nm, _) w'. status w' = Running \<and> (res, nm) = (case lookup_type guid 0 entries of
           None \<Rightarrow> (EXIT_FAILURE, name)
         | Some i \<Rightarrow> cominitAutomountBuildPartitionNode (diskName disk) (of_nat i + 1) nameSize)) v"
    if "status v = Running" "env v = env w" "length buf = unat (partitionEntrySize (hdr disk))" for v buf
    using entries_loop_lookup [of v fd disk entries size buf n guid nameSize name] fd that n by simp
  show ?thesis
    unfolding cominitAutomountFindPartitionOnDisk_def cominitCommonGetPartSize_def
    using run name fd(1,3,4) E
    by (auto simp: wp_simps Let_def n_def [symmetric] map_prod_def split_def prod_eq_iff
        intro!: wp_mono [OF loop] split: option.split)
qed

text \<open>C22: The scan of a partition table implements the search in the list of its entries: on a readable
  disk the result is the device node of the first entry whose type GUID is the wanted one, compared
  without regard to case, numbered from one; without such an entry the search fails and the name is
  left as it was.\<close>
theorem partition_search:
  assumes disk: "disk_readable (env w) disk entries" and run: "status w = Running"
    and name: "diskName disk \<noteq> []" "length (diskName disk) < COMINIT_ROOTFS_DEV_PATH_MAX" "0 < nameSize"
  shows "wp (cominitAutomountFindPartitionOnDisk (Some disk) (Some guid) (Some name) nameSize)
     (\<lambda>(res, nm) w'. status w' = Running \<and> (res, nm) =
        (case lookup_type guid 0 entries of
           None \<Rightarrow> (EXIT_FAILURE, Some name)
         | Some i \<Rightarrow> map_prod id Some (cominitAutomountBuildPartitionNode (diskName disk) (of_nat i + 1) nameSize))) w"
  using assms by (rule on_disk_search)

text \<open>A disk whose second entry is a rootfs.\<close>
definition rootfs_guid :: "byte list" where
  "rootfs_guid = [0x45, 0xb0, 0x21, 0xb9, 0xf0, 0x1d, 0xc3, 0x41, 0xaf, 0x44, 0x4c, 0x6f, 0x28, 0x0d, 0x3f, 0xae]"

definition rootfs_entry :: "byte list" where
  "rootfs_entry = rootfs_guid @ replicate 112 0"

definition sample_disk :: cominitGPTDisk_t where
  "sample_disk = gptDisk_zero\<lparr>diskName := ''/dev/nvme0n1'', blockSize := 512,
     hdr := (hdr gptDisk_zero)\<lparr>partitionEntriesLba := 2, partitionEntryCount := 2, partitionEntrySize := 128\<rparr>\<rparr>"

definition disk_env :: "event list \<Rightarrow> call \<Rightarrow> reply" where
  "disk_env h c = (case c of
      Dev (Blkgetsize64 fd) \<Rightarrow> ok\<lparr>val := 1048576\<rparr>
    | Mem (Malloc n) \<Rightarrow> ok\<lparr>rc := 1\<rparr>
    | Fs (Pread fd n off) \<Rightarrow> ok\<lparr>rc := int n, bytes := (if off = 1024 then replicate 128 0 else rootfs_entry)\<rparr>
    | _ \<Rightarrow> ok)"

lemma length_rootfs_guid: "length rootfs_guid = 16"
  by (simp add: rootfs_guid_def)

lemma take_rootfs_entry: "take 16 rootfs_entry = rootfs_guid"
  by (simp add: rootfs_entry_def length_rootfs_guid)

lemma hexw_numeral: "hexw (numeral k) n = hexw (pred_numeral k) (n div 16) @ [hex_digit (n mod 16)]"
  by (simp add: numeral_eq_Suc [of k])

lemma rootfs_guid_text: "cominitAutomountFormatGuid rootfs_guid = COMINIT_ROOTFS_GUID_TYPE"
  by (simp add: cominitAutomountFormatGuid_def rootfs_guid_def bytes_at_def hexw_numeral hex_digit_def lits)

lemma sample_lookup: "lookup_type COMINIT_ROOTFS_GUID_TYPE 0 [replicate 128 0, rootfs_entry] = Some 1"
proof -
  have "\<not> has_type COMINIT_ROOTFS_GUID_TYPE (replicate 128 0)" by (simp add: has_type_def)
  moreover have "has_type COMINIT_ROOTFS_GUID_TYPE rootfs_entry"
    unfolding has_type_def take_rootfs_entry rootfs_guid_text case_equal_def by (simp add: rootfs_guid_def)
  ultimately show ?thesis by simp
qed

lemma sample_table: "table_readable disk_env 0 sample_disk [replicate 128 0, rootfs_entry]"
proof -
  have entry: "length rootfs_entry = 128" by (simp add: rootfs_entry_def length_rootfs_guid)
  show ?thesis
    unfolding table_readable_def
    by (auto simp: sample_disk_def disk_env_def ok_def entry_offset_def entry Let_def less_Suc_eq)
qed

lemma sample_disk_readable: "disk_readable disk_env sample_disk [replicate 128 0, rootfs_entry]"
  unfolding disk_readable_def
  by (rule exI [of _ 0], rule exI [of _ 1048576], intro conjI, simp, rule sample_table)
    (auto simp: sample_disk_def disk_env_def ok_def entry_offset_def lits less_Suc_eq)

lemma sample_node:
  "cominitAutomountBuildPartitionNode ''/dev/nvme0n1'' 2 256 = (EXIT_SUCCESS, ''/dev/nvme0n1p2'')"
  by (simp add: cominitAutomountBuildPartitionNode_def partition_node_def isdigit_def digit_val_def
      udec.simps hex_digit_def Let_def)
theorem partition_search_witness:
  "wp (cominitAutomountFindPartitionOnDisk (Some sample_disk) (Some COMINIT_ROOTFS_GUID_TYPE) (Some []) 256)
     (\<lambda>(res, nm) w'. status w' = Running \<and> res = EXIT_SUCCESS \<and> nm = Some ''/dev/nvme0n1p2'') (start disk_env 0)"
proof -
  have name: "diskName sample_disk = ''/dev/nvme0n1''" by (simp add: sample_disk_def)
  show ?thesis
    using partition_search [of "start disk_env 0" sample_disk "[replicate 128 0, rootfs_entry]" 256
        COMINIT_ROOTFS_GUID_TYPE "[]"]
    unfolding sample_lookup by (simp add: sample_disk_readable name sample_node COMINIT_ROOTFS_DEV_PATH_MAX_def)
qed

end
