(* ===== verification/Output.thy ===== *)
theory Output
  imports Config
begin

text \<open>
  src/output.c and inc/output.h: log levels, the visible level, and the log function. The message
  that \<^verbatim>\<open>vfprintf\<close> makes of the format and its arguments, and the text of \<^verbatim>\<open>strerror(errno)\<close>, are
  arguments of the model. Log output of the other components is not part of their models.
\<close>

section \<open>Log levels\<close>

datatype cominitLogLevelE_t =
    COMINIT_LOG_LEVEL_NONE
  | COMINIT_LOG_LEVEL_ERR
  | COMINIT_LOG_LEVEL_WARN
  | COMINIT_LOG_LEVEL_INFO
  | COMINIT_LOG_LEVEL_DEBUG
  | COMINIT_LOG_LEVEL_SENSITIVE
  | COMINIT_LOG_LEVEL_COUNT
  | COMINIT_LOG_LEVEL_INVALID

fun level_code :: "cominitLogLevelE_t \<Rightarrow> nat" where
  "level_code COMINIT_LOG_LEVEL_NONE = 0"
| "level_code COMINIT_LOG_LEVEL_ERR = 1"
| "level_code COMINIT_LOG_LEVEL_WARN = 2"
| "level_code COMINIT_LOG_LEVEL_INFO = 3"
| "level_code COMINIT_LOG_LEVEL_DEBUG = 4"
| "level_code COMINIT_LOG_LEVEL_SENSITIVE = 5"
| "level_code COMINIT_LOG_LEVEL_COUNT = 6"
| "level_code COMINIT_LOG_LEVEL_INVALID = 7"

lemma level_code_inject [simp]: "level_code a = level_code b \<longleftrightarrow> a = b"
  by (cases a; cases b) auto

text \<open>The enumeration is compared with \<open><\<close> and \<open>\<le>\<close> as C compares its constants.\<close>
instantiation cominitLogLevelE_t :: linorder
begin

definition less_eq_cominitLogLevelE_t :: "cominitLogLevelE_t \<Rightarrow> cominitLogLevelE_t \<Rightarrow> bool" where
  "less_eq_cominitLogLevelE_t a b \<longleftrightarrow> level_code a \<le> level_code b"

definition less_cominitLogLevelE_t :: "cominitLogLevelE_t \<Rightarrow> cominitLogLevelE_t \<Rightarrow> bool" where
  "less_cominitLogLevelE_t a b \<longleftrightarrow> level_code a < level_code b"

instance
  by intro_classes (auto simp: less_eq_cominitLogLevelE_t_def less_cominitLogLevelE_t_def)

end

lemmas level_order = less_eq_cominitLogLevelE_t_def less_cominitLogLevelE_t_def

text \<open>The cast \<^verbatim>\<open>(cominitLogLevelE_t)n\<close>, applied by the code to values below the count only.\<close>
definition level_of_code :: "nat \<Rightarrow> cominitLogLevelE_t" where
  "level_of_code n =
     (if n = 0 then COMINIT_LOG_LEVEL_NONE else if n = 1 then COMINIT_LOG_LEVEL_ERR
      else if n = 2 then COMINIT_LOG_LEVEL_WARN else if n = 3 then COMINIT_LOG_LEVEL_INFO
      else if n = 4 then COMINIT_LOG_LEVEL_DEBUG else if n = 5 then COMINIT_LOG_LEVEL_SENSITIVE
      else if n = 6 then COMINIT_LOG_LEVEL_COUNT else COMINIT_LOG_LEVEL_INVALID)"

lemma level_code_of_code [simp]: "n < 6 \<Longrightarrow> level_code (level_of_code n) = n"
  by (auto simp: level_of_code_def)

section \<open>The log context\<close>

definition DEFAULT_LOG_LEVEL :: cominitLogLevelE_t where
  "DEFAULT_LOG_LEVEL = COMINIT_LOG_LEVEL_INFO"

text \<open>The table of the static \<^verbatim>\<open>cominitLogContext\<close>: the prefix of a level, \<^const>\<open>None\<close> being \<^verbatim>\<open>NULL\<close>.\<close>
fun level_prefix :: "cominitLogLevelE_t \<Rightarrow> string option" where
  "level_prefix COMINIT_LOG_LEVEL_ERR = Some ''ERROR: ''"
| "level_prefix COMINIT_LOG_LEVEL_WARN = Some ''WARNING: ''"
| "level_prefix COMINIT_LOG_LEVEL_DEBUG = Some ''DEBUG: ''"
| "level_prefix COMINIT_LOG_LEVEL_SENSITIVE = Some ''SENSITIVE: ''"
| "level_prefix _ = None"

record cominitLogContext_t =
  visibleLevel :: cominitLogLevelE_t

definition cominitLogContext_init :: cominitLogContext_t where
  "cominitLogContext_init = \<lparr>visibleLevel = DEFAULT_LOG_LEVEL\<rparr>"

definition cominitOutputSetVisibleLogLevel ::
    "cominitLogLevelE_t \<Rightarrow> cominitLogContext_t \<Rightarrow> cominitLogContext_t" where
  "cominitOutputSetVisibleLogLevel l ctx =
     (if l = COMINIT_LOG_LEVEL_INVALID then ctx\<lparr>visibleLevel := DEFAULT_LOG_LEVEL\<rparr>
      else ctx\<lparr>visibleLevel := l\<rparr>)"

text \<open>The value is narrowed to \<^verbatim>\<open>unsigned int\<close> before it is compared with the number of levels.\<close>
definition cominitOutputParseLogLevel ::
    "config \<Rightarrow> cominitLogLevelE_t \<Rightarrow> string option \<Rightarrow> int \<times> cominitLogLevelE_t" where
  "cominitOutputParseLogLevel cfg logLevel argValue =
     (case argValue of
        None \<Rightarrow> (EXIT_FAILURE, logLevel)
      | Some s \<Rightarrow>
          let x = strtoul 0 s; visibleLogLevel = (ucast (value_of x) :: u32) in
          if \<not> strtoul_errno cfg x \<and> endptr x = []
             \<and> unat visibleLogLevel < level_code COMINIT_LOG_LEVEL_COUNT
          then (EXIT_SUCCESS, level_of_code (unat visibleLogLevel))
          else (EXIT_FAILURE, COMINIT_LOG_LEVEL_INVALID))"

section \<open>The log function\<close>

definition COMINIT_PRINT_PREFIX :: string where
  "COMINIT_PRINT_PREFIX = ''[COMINIT] ''"

text \<open>One \<^verbatim>\<open>fprintf(stderr, ...)\<close>.\<close>
definition print_err :: "string \<Rightarrow> int op" where
  "print_err s = do { r \<leftarrow> sys (Stream (Print_stderr s)); return (rc r) }"

definition cominitOutputLogFunc ::
    "config \<Rightarrow> cominitLogContext_t \<Rightarrow> cominitLogLevelE_t \<Rightarrow> string \<Rightarrow> string \<Rightarrow> nat \<Rightarrow> bool
     \<Rightarrow> string \<Rightarrow> string \<Rightarrow> int op" where
  "cominitOutputLogFunc cfg ctx logLevel file func line printErrno message errorText =
     (if logLevel \<le> COMINIT_LOG_LEVEL_NONE \<or> logLevel \<ge> COMINIT_LOG_LEVEL_COUNT then return 0
      else if logLevel > visibleLevel ctx then return 0
      else if \<not> sensitive_logging cfg \<and> logLevel \<ge> COMINIT_LOG_LEVEL_SENSITIVE then return 0
      else do {
        ret1 \<leftarrow> (if logLevel = COMINIT_LOG_LEVEL_INFO then print_err COMINIT_PRINT_PREFIX
               else case level_prefix logLevel of
                 None \<Rightarrow> do { halt (Undefined NullPointer); return (- 1) }
               | Some pre \<Rightarrow>
                   print_err (COMINIT_PRINT_PREFIX @ ''('' @ file @ '':'' @ func @ '':'' @ udec line
                              @ '') '' @ pre));
        if ret1 < 0 then return ret1
        else do {
          ret2 \<leftarrow> print_err message;
          if ret2 < 0 then return ret2
          else do {
            ret3 \<leftarrow> print_err [CHR 0x0A];
            if ret3 < 0 then return ret3
            else if printErrno then do {
              ret4 \<leftarrow> print_err ('' Errno: '' @ errorText @ [CHR 0x0A]);
              if ret4 < 0 then return ret4
              else return (ret1 + ret2 + ret3 + ret4) }
            else return (ret1 + ret2 + ret3) } } })"

text \<open>The macros of inc/output.h: a level each, and whether \<^verbatim>\<open>errno\<close> is shown.\<close>
definition cominitDebugPrint ::
    "config \<Rightarrow> cominitLogContext_t \<Rightarrow> string \<Rightarrow> string \<Rightarrow> nat \<Rightarrow> string \<Rightarrow> int op" where
  "cominitDebugPrint cfg ctx file func line message =
     cominitOutputLogFunc cfg ctx COMINIT_LOG_LEVEL_DEBUG file func line False message []"

definition cominitErrPrint ::
    "config \<Rightarrow> cominitLogContext_t \<Rightarrow> string \<Rightarrow> string \<Rightarrow> nat \<Rightarrow> string \<Rightarrow> int op" where
  "cominitErrPrint cfg ctx file func line message =
     cominitOutputLogFunc cfg ctx COMINIT_LOG_LEVEL_ERR file func line False message []"

definition cominitErrnoPrint ::
    "config \<Rightarrow> cominitLogContext_t \<Rightarrow> string \<Rightarrow> string \<Rightarrow> nat \<Rightarrow> string \<Rightarrow> string \<Rightarrow> int op" where
  "cominitErrnoPrint cfg ctx file func line message errorText =
     cominitOutputLogFunc cfg ctx COMINIT_LOG_LEVEL_ERR file func line True message errorText"

definition cominitInfoPrint ::
    "config \<Rightarrow> cominitLogContext_t \<Rightarrow> string \<Rightarrow> string \<Rightarrow> nat \<Rightarrow> string \<Rightarrow> int op" where
  "cominitInfoPrint cfg ctx file func line message =
     cominitOutputLogFunc cfg ctx COMINIT_LOG_LEVEL_INFO file func line False message []"

definition cominitSensitivePrint ::
    "config \<Rightarrow> cominitLogContext_t \<Rightarrow> string \<Rightarrow> string \<Rightarrow> nat \<Rightarrow> string \<Rightarrow> int op" where
  "cominitSensitivePrint cfg ctx file func line message =
     cominitOutputLogFunc cfg ctx COMINIT_LOG_LEVEL_SENSITIVE file func line False message []"

section \<open>Properties\<close>

lemma visible_prefix:
  assumes "COMINIT_LOG_LEVEL_NONE < l" "l < COMINIT_LOG_LEVEL_COUNT" "l \<noteq> COMINIT_LOG_LEVEL_INFO"
  shows "\<exists>p. level_prefix l = Some p"
  using assms by (cases l) (auto simp: level_order)

text \<open>Whether a message of a level is shown.\<close>
definition shown :: "config \<Rightarrow> cominitLogContext_t \<Rightarrow> cominitLogLevelE_t \<Rightarrow> bool" where
  "shown cfg ctx l \<longleftrightarrow>
     COMINIT_LOG_LEVEL_NONE < l \<and> l < COMINIT_LOG_LEVEL_COUNT \<and> l \<le> visibleLevel ctx
     \<and> (sensitive_logging cfg \<or> l < COMINIT_LOG_LEVEL_SENSITIVE)"

lemma LogFunc_hidden:
  "\<not> shown cfg ctx l \<Longrightarrow> cominitOutputLogFunc cfg ctx l f g n e m t = return 0"
  by (auto simp: cominitOutputLogFunc_def shown_def not_less not_le)

text \<open>The text a shown message begins with.\<close>
definition log_head :: "cominitLogLevelE_t \<Rightarrow> string \<Rightarrow> string \<Rightarrow> nat \<Rightarrow> string" where
  "log_head l file func line =
     (if l = COMINIT_LOG_LEVEL_INFO then COMINIT_PRINT_PREFIX
      else COMINIT_PRINT_PREFIX @ ''('' @ file @ '':'' @ func @ '':'' @ udec line @ '') ''
           @ the (level_prefix l))"

lemma LogFunc_shown:
  assumes "shown cfg ctx l"
  shows "cominitOutputLogFunc cfg ctx l file func line e m t = do {
     ret1 \<leftarrow> print_err (log_head l file func line);
     if ret1 < 0 then return ret1
     else do {
       ret2 \<leftarrow> print_err m;
       if ret2 < 0 then return ret2
       else do {
         ret3 \<leftarrow> print_err [CHR 0x0A];
         if ret3 < 0 then return ret3
         else if e then do {
           ret4 \<leftarrow> print_err ('' Errno: '' @ t @ [CHR 0x0A]);
           if ret4 < 0 then return ret4
           else return (ret1 + ret2 + ret3 + ret4) }
         else return (ret1 + ret2 + ret3) } } }"
proof -
  have l: "\<not> l \<le> COMINIT_LOG_LEVEL_NONE" "\<not> COMINIT_LOG_LEVEL_COUNT \<le> l"
    "\<not> visibleLevel ctx < l" "sensitive_logging cfg \<or> \<not> COMINIT_LOG_LEVEL_SENSITIVE \<le> l"
    using assms by (auto simp: shown_def)
  moreover have "l \<noteq> COMINIT_LOG_LEVEL_INFO \<Longrightarrow> \<exists>p. level_prefix l = Some p"
    using assms by (auto simp: shown_def intro: visible_prefix)
  ultimately show ?thesis
    by (auto simp: cominitOutputLogFunc_def log_head_def)
qed

definition stderr_event :: "event \<Rightarrow> bool" where
  "stderr_event e = (case e of (Stream (Print_stderr s), r) \<Rightarrow> True | _ \<Rightarrow> False)"

interpretation log_func: operation "cominitOutputLogFunc cfg ctx l file func line e m t" stderr_event
  unfolding cominitOutputLogFunc_def print_err_def
  by unfold_locales (intro emits_intros; simp add: stderr_event_def)

section \<open>What is printed\<close>

text \<open>The texts of a shown message, in order.\<close>
definition log_texts :: "cominitLogLevelE_t \<Rightarrow> string \<Rightarrow> string \<Rightarrow> nat \<Rightarrow> bool \<Rightarrow> string \<Rightarrow> string \<Rightarrow> string list" where
  "log_texts l file func line e m t =
     [log_head l file func line, m, [CHR 0x0A]] @ (if e then ['' Errno: '' @ t @ [CHR 0x0A]] else [])"

text \<open>Print one text after the other, stopping at the first error; the sum of the counts.\<close>
primrec print_all :: "string list \<Rightarrow> int \<Rightarrow> int op" where
  "print_all [] count = return count"
| "print_all (s # ss) count = do {
     ret \<leftarrow> print_err s;
     if ret < 0 then return ret else print_all ss (count + ret) }"

text \<open>Whatever level is made visible, a build without the option never prints a sensitive message; and at the
  level a process starts with, errors and infos are printed and debug messages are not.\<close>
lemma sensitive_needs_option:
  "\<not> sensitive_logging cfg \<Longrightarrow> cominitSensitivePrint cfg ctx file func line m = return 0"
  unfolding cominitSensitivePrint_def by (rule LogFunc_hidden) (simp add: shown_def)

lemma initially_visible:
  "cominitDebugPrint cfg cominitLogContext_init file func line m = return 0"
  "cominitErrnoPrint cfg cominitLogContext_init file func line m t
     = print_all (log_texts COMINIT_LOG_LEVEL_ERR file func line True m t) 0"
  "cominitInfoPrint cfg cominitLogContext_init file func line m
     = print_all [COMINIT_PRINT_PREFIX, m, [CHR 0x0A]] 0"
proof -
  have "\<not> shown cfg cominitLogContext_init COMINIT_LOG_LEVEL_DEBUG" "shown cfg cominitLogContext_init COMINIT_LOG_LEVEL_ERR"
    "shown cfg cominitLogContext_init COMINIT_LOG_LEVEL_INFO"
    by (simp_all add: shown_def cominitLogContext_init_def DEFAULT_LOG_LEVEL_def level_order)
  then show "cominitDebugPrint cfg cominitLogContext_init file func line m = return 0"
    "cominitErrnoPrint cfg cominitLogContext_init file func line m t
       = print_all (log_texts COMINIT_LOG_LEVEL_ERR file func line True m t) 0"
    "cominitInfoPrint cfg cominitLogContext_init file func line m = print_all [COMINIT_PRINT_PREFIX, m, [CHR 0x0A]] 0"
    unfolding cominitDebugPrint_def cominitErrnoPrint_def cominitInfoPrint_def
    by (simp_all add: LogFunc_hidden LogFunc_shown log_texts_def log_head_def cong: if_cong)
qed

text \<open>The logger prints nothing for a message whose level is hidden, and otherwise exactly the head with
  level and position, the message, a line end and, on request, the text for \<^verbatim>\<open>errno\<close>, returning the
  sum of the counts or the first error.\<close>
theorem log_message:
  "cominitOutputLogFunc cfg ctx l file func line e m t =
     (if shown cfg ctx l then print_all (log_texts l file func line e m t) 0 else return 0)"
  by (simp add: LogFunc_shown LogFunc_hidden log_texts_def cong: if_cong)

text \<open>The log level option, for every number of 64 bits: accepted are those that are below the
  number of levels after narrowing to 32 bits, so also 4294967296 (as level 0).\<close>
theorem parse_log_level:
  assumes "n < 2 ^ 64"
  shows "cominitOutputParseLogLevel cfg l (Some (udec n)) =
     (if n mod 2 ^ 32 < 6 then (EXIT_SUCCESS, level_of_code (n mod 2 ^ 32))
      else (EXIT_FAILURE, COMINIT_LOG_LEVEL_INVALID))"
  using assms by (simp add: cominitOutputParseLogLevel_def strtoul_udec_auto strtoul_errno_def unsigned_of_nat take_bit_eq_mod mod_mod_cancel)

theorem parse_log_level_witness:
  "(4294967296 :: nat) < 2 ^ 64
   \<and> cominitOutputParseLogLevel default_config COMINIT_LOG_LEVEL_INVALID (Some (udec 4294967296))
     = (EXIT_SUCCESS, COMINIT_LOG_LEVEL_NONE)"
  using parse_log_level [of 4294967296 default_config COMINIT_LOG_LEVEL_INVALID]
  by (simp add: level_of_code_def)

end
