(* ===== verification/Options.thy ===== *)
theory Options
  imports Output Meta
begin

text \<open>
  The options: the structure of inc/common.h, the parsers of single values in src/tpm.c and
  src/cominit.c, and the argument loop of \<^verbatim>\<open>main\<close>. Nothing here makes a call.
\<close>

section \<open>The structure\<close>

text \<open>\<open>pcrSeal\<close> has \<^verbatim>\<open>TPM2_PT_PCR_COUNT\<close> elements.\<close>
record cominitCliArgs_t =
  pcrSet :: bool
  pcrIndex :: u64
  pcrSealCount :: nat
  pcrSeal :: "u64 list"
  devNodeBlob :: string
  devNodeCrypt :: string
  enableSelinux :: bool
  enableEnforceMode :: bool
  devNodeRootFs :: string
  visibleLogLevel :: cominitLogLevelE_t

text \<open>The initialiser of \<^verbatim>\<open>main\<close>.\<close>
definition argCtx_init :: "config \<Rightarrow> cominitCliArgs_t" where
  "argCtx_init cfg = \<lparr>pcrSet = False, pcrIndex = 0, pcrSealCount = 0,
     pcrSeal = replicate (pcr_count cfg) 0, devNodeBlob = [], devNodeCrypt = [],
     enableSelinux = False, enableEnforceMode = False, devNodeRootFs = [],
     visibleLogLevel = COMINIT_LOG_LEVEL_INVALID\<rparr>"

section \<open>PCR indexes\<close>

definition cominitTpmParsePcrIndex ::
    "config \<Rightarrow> cominitCliArgs_t option \<Rightarrow> string option \<Rightarrow> int \<times> cominitCliArgs_t option" where
  "cominitTpmParsePcrIndex cfg argCtx argValue =
     (case (argCtx, argValue) of
        (Some a, Some s) \<Rightarrow>
          let x = strtoul 0 s; a' = a\<lparr>pcrSet := False\<rparr> in
          if \<not> strtoul_errno cfg x \<and> endptr x = [] \<and> unat (value_of x) < pcr_count cfg
          then (EXIT_SUCCESS, Some (a'\<lparr>pcrSet := True, pcrIndex := value_of x\<rparr>))
          else (EXIT_FAILURE, Some a')
      | _ \<Rightarrow> (EXIT_FAILURE, argCtx))"

text \<open>The loop of \<^verbatim>\<open>cominitTpmParsePcrIndexes\<close>: characters that are no digits are skipped.\<close>
function pcr_indexes_loop :: "config \<Rightarrow> nat \<Rightarrow> u64 list \<Rightarrow> string \<Rightarrow> nat \<times> u64 list" where
  "pcr_indexes_loop cfg i seal p =
     (case p of
        [] \<Rightarrow> (i, seal)
      | c # rest \<Rightarrow>
          if isdigit c then
            let x = strtoul 10 p in
            if \<not> strtoul_errno cfg x \<and> converted x \<and> unat (value_of x) < pcr_count cfg
               \<and> pcr_count cfg > i
            then pcr_indexes_loop cfg (i + 1) (seal[i := value_of x]) (endptr x)
            else (0, seal)
          else pcr_indexes_loop cfg i seal rest)"
  by pat_completeness auto
termination
  by (relation "measure (\<lambda>(cfg, i, seal, p). length p)") (auto dest: strtoul_progress)

declare pcr_indexes_loop.simps [simp del]

text \<open>The count is written through \<^verbatim>\<open>argCtx\<close> also when it is \<^verbatim>\<open>NULL\<close>.\<close>
definition cominitTpmParsePcrIndexes ::
    "config \<Rightarrow> cominitCliArgs_t option \<Rightarrow> string option \<Rightarrow> fault + int \<times> cominitCliArgs_t" where
  "cominitTpmParsePcrIndexes cfg argCtx argValue =
     (case argCtx of
        None \<Rightarrow> Inl NullPointer
      | Some a \<Rightarrow>
          let (i, seal) = (case argValue of None \<Rightarrow> (0, pcrSeal a)
                           | Some s \<Rightarrow> pcr_indexes_loop cfg 0 (pcrSeal a) s) in
          Inr (if i > 0 then EXIT_SUCCESS else EXIT_FAILURE,
               a\<lparr>pcrSeal := seal, pcrSealCount := i\<rparr>))"

definition cominitTpmSecureStorageEnabled :: "cominitCliArgs_t option \<Rightarrow> bool" where
  "cominitTpmSecureStorageEnabled argCtx =
     (case argCtx of None \<Rightarrow> False
      | Some a \<Rightarrow> devNodeBlob a \<noteq> [] \<and> pcrSealCount a > 0 \<and> devNodeCrypt a \<noteq> [])"

definition cominitTpmExtendEnabled :: "cominitCliArgs_t option \<Rightarrow> bool" where
  "cominitTpmExtendEnabled argCtx = (case argCtx of None \<Rightarrow> False | Some a \<Rightarrow> pcrSet a)"

definition cominitUseTpm :: "cominitCliArgs_t option \<Rightarrow> bool" where
  "cominitUseTpm argCtx =
     (if cominitTpmExtendEnabled argCtx then True else cominitTpmSecureStorageEnabled argCtx)"

section \<open>One argument\<close>

text \<open>\<^verbatim>\<open>strncmp\<close> with the size of the literal compares its NUL too: equality.\<close>
definition cominitParamCheck :: "string \<Rightarrow> string \<Rightarrow> string \<Rightarrow> bool" where
  "cominitParamCheck inputParam cmpShort cmpLong \<longleftrightarrow> inputParam = cmpShort \<or> inputParam = cmpLong"

definition arg_value :: "string \<Rightarrow> string \<Rightarrow> string option" where
  "arg_value arg key =
     (if starts_with arg key \<and> length arg > length key \<and> arg ! length key = CHR ''=''
      then Some (drop (length key + 1) arg) else None)"

definition cominitParseArgValue :: "string \<Rightarrow> string \<Rightarrow> string \<Rightarrow> string option" where
  "cominitParseArgValue arg key1 key2 =
     (case arg_value arg key1 of Some v \<Rightarrow> Some v | None \<Rightarrow> arg_value arg key2)"

definition cominitParseDeviceNode ::
    "string option \<Rightarrow> string option \<Rightarrow> int \<times> string option" where
  "cominitParseDeviceNode device argValue =
     (case (device, argValue) of
        (Some d, Some v) \<Rightarrow>
          if starts_with v ''/dev/'' \<and> length v < COMINIT_ROOTFS_DEV_PATH_MAX
          then (EXIT_SUCCESS, Some v) else (EXIT_FAILURE, Some d)
      | _ \<Rightarrow> (EXIT_FAILURE, device))"

section \<open>The argument loop\<close>

text \<open>
  A block \<^verbatim>\<open>if ((argValue = ...) != NULL) { if (parse == EXIT_FAILURE) continue; }\<close>: the Boolean says
  whether the rest of the loop body is executed.
\<close>
definition value_block ::
    "string \<Rightarrow> string \<Rightarrow> string \<Rightarrow> (string \<Rightarrow> cominitCliArgs_t \<Rightarrow> int \<times> cominitCliArgs_t)
       \<Rightarrow> cominitCliArgs_t \<Rightarrow> bool \<times> cominitCliArgs_t" where
  "value_block arg key1 key2 parse a =
     (case cominitParseArgValue arg key1 key2 of
        None \<Rightarrow> (True, a)
      | Some v \<Rightarrow> (case parse v a of (r, a') \<Rightarrow> (r \<noteq> EXIT_FAILURE, a')))"

definition root_block :: "string \<Rightarrow> cominitCliArgs_t \<Rightarrow> int \<times> cominitCliArgs_t" where
  "root_block v a = (case cominitParseDeviceNode (Some (devNodeRootFs a)) (Some v) of
     (r, d) \<Rightarrow> (r, a\<lparr>devNodeRootFs := the d\<rparr>))"

definition level_block :: "config \<Rightarrow> string \<Rightarrow> cominitCliArgs_t \<Rightarrow> int \<times> cominitCliArgs_t" where
  "level_block cfg v a = (case cominitOutputParseLogLevel cfg (visibleLogLevel a) (Some v) of
     (r, l) \<Rightarrow> (r, a\<lparr>visibleLogLevel := l\<rparr>))"

definition extend_block :: "config \<Rightarrow> string \<Rightarrow> cominitCliArgs_t \<Rightarrow> int \<times> cominitCliArgs_t" where
  "extend_block cfg v a = (case cominitTpmParsePcrIndex cfg (Some a) (Some v) of (r, a') \<Rightarrow> (r, the a'))"

definition blob_block :: "string \<Rightarrow> cominitCliArgs_t \<Rightarrow> int \<times> cominitCliArgs_t" where
  "blob_block v a = (case cominitParseDeviceNode (Some (devNodeBlob a)) (Some v) of
     (r, d) \<Rightarrow> (r, a\<lparr>devNodeBlob := the d\<rparr>))"

definition seal_block :: "config \<Rightarrow> string \<Rightarrow> cominitCliArgs_t \<Rightarrow> int \<times> cominitCliArgs_t" where
  "seal_block cfg v a = (case cominitTpmParsePcrIndexes cfg (Some a) (Some v) of
     Inl _ \<Rightarrow> (EXIT_FAILURE, a) | Inr (r, a') \<Rightarrow> (r, a'))"

definition crypt_block :: "string \<Rightarrow> cominitCliArgs_t \<Rightarrow> int \<times> cominitCliArgs_t" where
  "crypt_block v a = (case cominitParseDeviceNode (Some (devNodeCrypt a)) (Some v) of
     (r, d) \<Rightarrow> (r, a\<lparr>devNodeCrypt := the d\<rparr>))"

definition flag_block ::
    "string \<Rightarrow> string \<Rightarrow> string \<Rightarrow> (cominitCliArgs_t \<Rightarrow> cominitCliArgs_t) \<Rightarrow> cominitCliArgs_t
       \<Rightarrow> bool \<times> cominitCliArgs_t" where
  "flag_block arg key1 key2 set_flag a =
     (True, if cominitParamCheck arg key1 key2 then set_flag a else a)"

text \<open>The blocks of the loop body, in order; the last four are under \<^verbatim>\<open>COMINIT_USE_TPM\<close>.\<close>
definition arg_blocks :: "config \<Rightarrow> string \<Rightarrow> (cominitCliArgs_t \<Rightarrow> bool \<times> cominitCliArgs_t) list" where
  "arg_blocks cfg arg =
     [value_block arg ''root'' ''cominit.rootfs'' root_block,
      value_block arg ''logLevel'' ''cominit.logLevel'' (level_block cfg),
      flag_block arg ''selinux'' ''cominit.selinux'' (\<lambda>a. a\<lparr>enableSelinux := True\<rparr>),
      flag_block arg ''enforcing'' ''cominit.enforcing'' (\<lambda>a. a\<lparr>enableEnforceMode := True\<rparr>)]
     @ (if use_tpm cfg then
          [value_block arg ''pcrExtend'' ''cominit.pcrExtend'' (extend_block cfg),
           value_block arg ''blob'' ''cominit.blob'' blob_block,
           value_block arg ''pcrSeal'' ''cominit.pcrSeal'' (seal_block cfg),
           value_block arg ''crypt'' ''cominit.crypt'' crypt_block]
        else [])"

primrec run_blocks ::
    "(cominitCliArgs_t \<Rightarrow> bool \<times> cominitCliArgs_t) list \<Rightarrow> cominitCliArgs_t \<Rightarrow> cominitCliArgs_t" where
  "run_blocks [] a = a"
| "run_blocks (b # bs) a = (case b a of (go, a') \<Rightarrow> if go then run_blocks bs a' else a')"

text \<open>The two options that make \<^verbatim>\<open>main\<close> print a text and return.\<close>
datatype early_exit = PrintVersion | PrintUsage

text \<open>One turn of the loop; \<open>Inl\<close> is the return for \<^verbatim>\<open>--version\<close> and \<^verbatim>\<open>--help\<close>.\<close>
definition parse_arg :: "config \<Rightarrow> string \<Rightarrow> cominitCliArgs_t \<Rightarrow> early_exit + cominitCliArgs_t" where
  "parse_arg cfg arg a =
     (if cominitParamCheck arg ''-V'' ''--version'' then Inl PrintVersion
      else if cominitParamCheck arg ''-h'' ''--help'' then Inl PrintUsage
      else Inr (run_blocks (arg_blocks cfg arg) a))"

primrec parse_args :: "config \<Rightarrow> string list \<Rightarrow> cominitCliArgs_t \<Rightarrow> early_exit + cominitCliArgs_t" where
  "parse_args cfg [] a = Inr a"
| "parse_args cfg (arg # rest) a =
     (case parse_arg cfg arg a of Inl x \<Rightarrow> Inl x | Inr a' \<Rightarrow> parse_args cfg rest a')"

section \<open>Well-formed options\<close>

definition node_wf :: "string \<Rightarrow> bool" where
  "node_wf d \<longleftrightarrow> d = [] \<or> starts_with d ''/dev/'' \<and> length d < COMINIT_ROOTFS_DEV_PATH_MAX"

definition args_wf :: "config \<Rightarrow> cominitCliArgs_t \<Rightarrow> bool" where
  "args_wf cfg a \<longleftrightarrow> node_wf (devNodeRootFs a) \<and> node_wf (devNodeBlob a) \<and> node_wf (devNodeCrypt a)
     \<and> (pcrSet a \<longrightarrow> unat (pcrIndex a) < pcr_count cfg)
     \<and> length (pcrSeal a) = pcr_count cfg \<and> pcrSealCount a \<le> pcr_count cfg
     \<and> (\<forall>i < pcrSealCount a. unat (pcrSeal a ! i) < pcr_count cfg)
     \<and> (visibleLogLevel a < COMINIT_LOG_LEVEL_COUNT \<or> visibleLogLevel a = COMINIT_LOG_LEVEL_INVALID)"

lemma args_wf_init: "args_wf cfg (argCtx_init cfg)"
  by (simp add: args_wf_def argCtx_init_def node_wf_def)

lemma pcr_indexes_wf:
  assumes "length seal = pcr_count cfg" and "i \<le> pcr_count cfg"
    and "\<forall>k < i. unat (seal ! k) < pcr_count cfg" and "pcr_indexes_loop cfg i seal p = (j, seal')"
  shows "length seal' = pcr_count cfg \<and> j \<le> pcr_count cfg \<and> (\<forall>k < j. unat (seal' ! k) < pcr_count cfg)"
  using assms
proof (induction cfg i seal p arbitrary: j seal' rule: pcr_indexes_loop.induct)
  case (1 cfg i seal p)
  show ?case
  proof (cases p)
    case Nil
    with "1.prems" show ?thesis by (simp add: pcr_indexes_loop.simps)
  next
    case (Cons c rest)
    show ?thesis
      using "1.IH" [OF Cons] "1.prems" Cons
      by (subst (asm) pcr_indexes_loop.simps)
        (auto simp: Let_def nth_list_update less_Suc_eq split: if_splits)
  qed
qed

lemma device_node_wf:
  "node_wf d \<Longrightarrow> cominitParseDeviceNode (Some d) (Some v) = (r, d') \<Longrightarrow> node_wf (the d')"
  by (auto simp: cominitParseDeviceNode_def node_wf_def split: if_splits)

lemma log_level_range:
  "cominitOutputParseLogLevel cfg l (Some v) = (r, l') \<Longrightarrow>
   l' < COMINIT_LOG_LEVEL_COUNT \<or> l' = COMINIT_LOG_LEVEL_INVALID"
  by (auto simp: cominitOutputParseLogLevel_def Let_def level_order split: if_splits)

lemma blocks_wf:
  assumes "args_wf cfg a"
  shows "args_wf cfg (snd (root_block v a))" "args_wf cfg (snd (level_block cfg v a))"
    "args_wf cfg (snd (extend_block cfg v a))" "args_wf cfg (snd (blob_block v a))"
    "args_wf cfg (snd (seal_block cfg v a))" "args_wf cfg (snd (crypt_block v a))"
proof -
  show "args_wf cfg (snd (root_block v a))" "args_wf cfg (snd (blob_block v a))"
    "args_wf cfg (snd (crypt_block v a))"
    using assms
    by (auto simp: root_block_def blob_block_def crypt_block_def args_wf_def split: prod.split
        dest: device_node_wf)
  show "args_wf cfg (snd (level_block cfg v a))"
    using assms by (auto simp: level_block_def args_wf_def split: prod.split dest: log_level_range)
  show "args_wf cfg (snd (extend_block cfg v a))"
    using assms by (auto simp: extend_block_def cominitTpmParsePcrIndex_def args_wf_def Let_def)
  show "args_wf cfg (snd (seal_block cfg v a))"
    using assms pcr_indexes_wf [of "pcrSeal a" cfg 0 v]
    by (auto simp: seal_block_def cominitTpmParsePcrIndexes_def args_wf_def Let_def split: prod.split)
qed

lemma run_blocks_keeps:
  assumes "\<And>b a. b \<in> set bs \<Longrightarrow> I a \<Longrightarrow> I (snd (b a))" and "I a"
  shows "I (run_blocks bs a)"
  using assms
proof (induction bs arbitrary: a)
  case (Cons b bs)
  have "I (snd (b a))" using Cons.prems by simp
  with Cons.IH Cons.prems(1) show ?case by (auto split: prod.split)
qed simp

lemma value_block_keeps:
  "(\<And>v. I (snd (parse v a))) \<Longrightarrow> I a \<Longrightarrow> I (snd (value_block arg k1 k2 parse a))"
  by (auto simp: value_block_def split: option.split prod.split) (metis snd_conv)+

lemma flag_block_keeps: "I (set_flag a) \<Longrightarrow> I a \<Longrightarrow> I (snd (flag_block arg k1 k2 set_flag a))"
  by (simp add: flag_block_def)

lemma arg_blocks_wf:
  assumes "b \<in> set (arg_blocks cfg arg)" and wf: "args_wf cfg a"
  shows "args_wf cfg (snd (b a))"
proof -
  note vb = value_block_keeps [where I = "args_wf cfg", OF _ wf]
  have flags: "args_wf cfg (a\<lparr>enableSelinux := True\<rparr>)" "args_wf cfg (a\<lparr>enableEnforceMode := True\<rparr>)"
    using wf by (simp_all add: args_wf_def)
  show ?thesis
    using assms(1) unfolding arg_blocks_def
    by (auto split: if_splits simp: flag_block_def flags wf intro!: vb blocks_wf [OF wf])
qed

lemma parse_arg_wf: "args_wf cfg a \<Longrightarrow> parse_arg cfg arg a = Inr a' \<Longrightarrow> args_wf cfg a'"
  using run_blocks_keeps [where I = "args_wf cfg" and bs = "arg_blocks cfg arg" and a = a] arg_blocks_wf
  by (auto simp: parse_arg_def split: if_splits)

lemma parse_args_wf: "args_wf cfg a \<Longrightarrow> parse_args cfg as a = Inr a' \<Longrightarrow> args_wf cfg a'"
  by (induction as arbitrary: a) (auto split: sum.splits dest: parse_arg_wf)

section \<open>The last device node wins\<close>

definition root_value :: "string \<Rightarrow> string option" where
  "root_value arg = (case cominitParseArgValue arg ''root'' ''cominit.rootfs'' of
     Some v \<Rightarrow> if starts_with v ''/dev/'' \<and> length v < COMINIT_ROOTFS_DEV_PATH_MAX then Some v else None
   | None \<Rightarrow> None)"

lemma blocks_keep_root [simp]:
  "devNodeRootFs (snd (level_block cfg v a)) = devNodeRootFs a"
  "devNodeRootFs (snd (extend_block cfg v a)) = devNodeRootFs a"
  "devNodeRootFs (snd (blob_block v a)) = devNodeRootFs a"
  "devNodeRootFs (snd (seal_block cfg v a)) = devNodeRootFs a"
  "devNodeRootFs (snd (crypt_block v a)) = devNodeRootFs a"
  by (auto simp: level_block_def extend_block_def blob_block_def seal_block_def crypt_block_def
      cominitTpmParsePcrIndex_def cominitTpmParsePcrIndexes_def Let_def split: prod.split)

lemma parse_arg_root:
  assumes "parse_arg cfg arg a = Inr a'"
  shows "devNodeRootFs a' = (case root_value arg of Some v \<Rightarrow> v | None \<Rightarrow> devNodeRootFs a)"
proof -
  let ?root = "value_block arg ''root'' ''cominit.rootfs'' root_block"
  obtain bs where bs: "arg_blocks cfg arg = ?root # bs" by (simp add: arg_blocks_def)
  have keep: "devNodeRootFs (snd (x b)) = devNodeRootFs b" if "x \<in> set bs" for x b
    using that bs by (auto simp: arg_blocks_def flag_block_def split: if_splits
        intro!: value_block_keeps [where I = "\<lambda>y. devNodeRootFs y = devNodeRootFs b"])
  have rest: "devNodeRootFs (run_blocks bs b) = devNodeRootFs b" for b
    by (rule run_blocks_keeps [where I = "\<lambda>x. devNodeRootFs x = devNodeRootFs b"]) (auto simp: keep)
  have "devNodeRootFs a' = devNodeRootFs (snd (?root a))"
    using assms rest bs by (auto simp: parse_arg_def split: if_splits prod.splits)
  also have "\<dots> = (case root_value arg of Some v \<Rightarrow> v | None \<Rightarrow> devNodeRootFs a)"
    by (auto simp: value_block_def root_block_def cominitParseDeviceNode_def root_value_def
        split: option.split)
  finally show ?thesis .
qed

lemma parse_args_root:
  "parse_args cfg as a = Inr a' \<Longrightarrow>
   devNodeRootFs a' = last (devNodeRootFs a # List.map_filter root_value as)"
proof (induction as arbitrary: a)
  case (Cons arg as)
  then obtain b where b: "parse_arg cfg arg a = Inr b" "parse_args cfg as b = Inr a'"
    by (auto split: sum.splits)
  from Cons.IH [OF b(2)] parse_arg_root [OF b(1)]
  show ?case by (auto simp: map_filter_simps split: option.split)
qed simp

section \<open>PCR lists are read back\<close>

text \<open>A comma-separated list of PCR indexes, as README.md describes the option.\<close>
fun pcr_list_text :: "nat list \<Rightarrow> string" where
  "pcr_list_text [] = []"
| "pcr_list_text [n] = udec n"
| "pcr_list_text (n # ns) = udec n @ '','' @ pcr_list_text ns"

lemma isdigit_hd_udec: "isdigit (hd (udec n))"
  using hd_udec [of n] by (auto simp: isdigit_def)

lemma pcr_loop_number:
  assumes "n < pcr_count cfg" "i < pcr_count cfg" "n < 2 ^ 64"
    and rest: "rest = [] \<or> \<not> isdigit (hd rest)"
  shows "pcr_indexes_loop cfg i seal (udec n @ rest) =
     pcr_indexes_loop cfg (i + 1) (seal[i := of_nat n]) rest"
proof -
  obtain c t where ct: "udec n = c # t" by (cases "udec n") auto
  with isdigit_hd_udec [of n] have c: "isdigit c" by simp
  have u: "unat (of_nat n :: u64) = n" using assms(3) by (simp add: unat_of_nat take_bit_nat_eq_self)
  have x: "strtoul 10 (udec n @ rest)
      = \<lparr>value_of = of_nat n, endptr = rest, converted = True, erange = False\<rparr>"
    using assms(3) rest by (rule strtoul_udec_append)
  show ?thesis
    using c x u assms(1,2) ct
    by (subst pcr_indexes_loop.simps) (simp add: Let_def strtoul_errno_def)
qed

lemma pcr_loop_comma [simp]:
  "pcr_indexes_loop cfg i seal (CHR '','' # rest) = pcr_indexes_loop cfg i seal rest"
proof -
  have "\<not> isdigit (CHR '','')" by (simp add: isdigit_def digit_val_def)
  then show ?thesis by (subst pcr_indexes_loop.simps) simp
qed

lemma pcr_loop_reads:
  assumes "\<forall>n \<in> set ns. n < pcr_count cfg" "length pre + length ns \<le> pcr_count cfg"
    and "pcr_count cfg \<le> 2 ^ 64" and "length pre + length rest = pcr_count cfg"
  shows "pcr_indexes_loop cfg (length pre) (pre @ rest) (pcr_list_text ns) =
     (length pre + length ns, pre @ map of_nat ns @ drop (length ns) rest)"
  using assms
proof (induction ns arbitrary: pre rest rule: pcr_list_text.induct)
  case 1
  show ?case by (simp add: pcr_indexes_loop.simps)
next
  case (2 n)
  then obtain x xs where rest: "rest = x # xs" by (cases rest) auto
  have "pcr_indexes_loop cfg (length pre) (pre @ rest) (udec n @ []) =
     pcr_indexes_loop cfg (length pre + 1) ((pre @ rest)[length pre := of_nat n]) []"
    using 2 by (intro pcr_loop_number) auto
  with rest show ?case by (simp add: pcr_indexes_loop.simps [of _ _ _ "[]"])
next
  case (3 n m ns)
  then obtain x xs where rest: "rest = x # xs" by (cases rest) auto
  have "\<not> isdigit (CHR '','')" by (simp add: isdigit_def digit_val_def)
  then have "pcr_indexes_loop cfg (length pre) (pre @ rest) (udec n @ CHR '','' # pcr_list_text (m # ns)) =
     pcr_indexes_loop cfg (length pre + 1) ((pre @ rest)[length pre := of_nat n])
       (CHR '','' # pcr_list_text (m # ns))"
    using 3 by (intro pcr_loop_number) auto
  also have "\<dots> = pcr_indexes_loop cfg (length (pre @ [of_nat n])) ((pre @ [of_nat n]) @ xs)
       (pcr_list_text (m # ns))"
    using rest by simp
  also have "\<dots> = (length (pre @ [of_nat n]) + length (m # ns),
       (pre @ [of_nat n]) @ map of_nat (m # ns) @ drop (length (m # ns)) xs)"
    using 3 rest by (intro "3.IH") auto
  finally show ?case using rest by simp
qed

section \<open>The command line\<close>

text \<open>C29: Parsed options are well formed, for every command line: device nodes are below \<^verbatim>\<open>/dev/\<close> and
  fit their buffers, all PCR indexes are below the limit, their number fits the array, and the log
  level is a valid one or marked as not given.\<close>
theorem options_wf: "parse_args cfg argv (argCtx_init cfg) = Inr a \<Longrightarrow> args_wf cfg a"
  by (rule parse_args_wf [OF args_wf_init])

lemma sample_parse:
  "parse_args default_config [''/init'', ''root=/dev/sda2'', ''cominit.rootfs=/dev/nvme0n1p2'', ''root=sda''] (argCtx_init default_config)
     = Inr ((argCtx_init default_config)\<lparr>devNodeRootFs := ''/dev/nvme0n1p2''\<rparr>)"
  by (simp add: parse_arg_def cominitParamCheck_def arg_blocks_def value_block_def flag_block_def
      cominitParseArgValue_def arg_value_def starts_with_def root_block_def cominitParseDeviceNode_def
      argCtx_init_def lits)

theorem options_wf_witness:
  "args_wf default_config ((argCtx_init default_config)\<lparr>devNodeRootFs := ''/dev/nvme0n1p2''\<rparr>)"
  by (rule options_wf [OF sample_parse])

text \<open>The root device is the last valid one: among the \<^verbatim>\<open>root=\<close> and \<^verbatim>\<open>cominit.rootfs=\<close> arguments those
  without a proper device node are ignored, and of the others the last one counts.\<close>
theorem root_last_wins:
  "parse_args cfg argv a = Inr a' \<Longrightarrow>
   devNodeRootFs a' = last (devNodeRootFs a # List.map_filter root_value argv)"
  by (rule parse_args_root)

theorem root_last_wins_witness:
  "last ([] # List.map_filter root_value
     [''/init'', ''root=/dev/sda2'', ''cominit.rootfs=/dev/nvme0n1p2'', ''root=sda'']) = ''/dev/nvme0n1p2''"
  using root_last_wins [OF sample_parse] by (simp add: argCtx_init_def)

text \<open>C30: A comma-separated list of PCR indexes is read back: the indexes are stored in order from the
  beginning of the array and their number is their count.\<close>
theorem pcr_list_read:
  assumes "\<forall>n \<in> set ns. n < pcr_count cfg" and "0 < length ns" and "length ns \<le> pcr_count cfg"
    and "pcr_count cfg \<le> 2 ^ 64" and "length (pcrSeal a) = pcr_count cfg"
  shows "cominitTpmParsePcrIndexes cfg (Some a) (Some (pcr_list_text ns)) =
     Inr (EXIT_SUCCESS, a\<lparr>pcrSeal := map of_nat ns @ drop (length ns) (pcrSeal a), pcrSealCount := length ns\<rparr>)"
  using assms pcr_loop_reads [of ns cfg "[]" "pcrSeal a"] by (simp add: cominitTpmParsePcrIndexes_def)

theorem pcr_list_read_witness:
  "cominitTpmParsePcrIndexes default_config (Some (argCtx_init default_config)) (Some ''10,11,12'') =
     Inr (EXIT_SUCCESS, (argCtx_init default_config)\<lparr>pcrSeal := [10, 11, 12] @ replicate 271 0, pcrSealCount := 3\<rparr>)"
  using pcr_list_read [of "[10, 11, 12]" default_config "argCtx_init default_config"]
  by (simp add: default_config_def argCtx_init_def udec.simps hex_digit_def)

end
