(* ===== verification/Subprocess.thy ===== *)
theory Subprocess
  imports Config
begin

unbundle bit_operations_syntax

text \<open>
  src/subprocess.c: running a program and waiting for it, optionally with data on its standard input.
  The environment decides whether \<^verbatim>\<open>fork\<close> returns to the parent or to the child; in the child the
  process ends by \<^verbatim>\<open>execve\<close> or \<^verbatim>\<open>_exit\<close>, so that the parent's code is never run by it.
\<close>

section \<open>Operations\<close>

definition EX_OSERR :: int where [lits]: "EX_OSERR = 71"
definition STDIN_FILENO :: int where [lits]: "STDIN_FILENO = 0"

text \<open>The macros of <sys/wait.h>.\<close>
definition WIFEXITED :: "u32 \<Rightarrow> bool" where
  "WIFEXITED st = (st AND 0x7f = 0)"

definition WEXITSTATUS :: "u32 \<Rightarrow> u32" where
  "WEXITSTATUS st = drop_bit 8 (st AND 0xff00)"

text \<open>\<^verbatim>\<open>status\<close> keeps its initial value -1 when \<^verbatim>\<open>waitpid\<close> fails.\<close>
definition wait_status :: "reply \<Rightarrow> u32" where
  "wait_status r = (if rc r < 0 then - 1 else ucast (val r))"

definition child_succeeded :: "reply \<Rightarrow> bool" where
  "child_succeeded r \<longleftrightarrow> WIFEXITED (wait_status r) \<and> WEXITSTATUS (wait_status r) = 0"

definition child_exec :: "string \<Rightarrow> string list \<Rightarrow> unit op" where
  "child_exec path argv = do {
     _ \<leftarrow> execve path argv;
     halt (Exited EXIT_FAILURE) }"

definition cominitSubprocessSpawnAndWrite ::
    "string option \<Rightarrow> string list option \<Rightarrow> string list option \<Rightarrow> byte list option \<Rightarrow> nat \<Rightarrow> int op" where
  "cominitSubprocessSpawnAndWrite path argv envp data dataSize =
     (case (path, argv, envp, data) of
        (Some prog, Some args, Some _, Some d) \<Rightarrow>
          if dataSize = 0 then return EXIT_FAILURE
          else do {
            p \<leftarrow> sys (Proc Pipe);
            if rc p \<noteq> 0 then return EXIT_FAILURE
            else do {
              let (fd0, fd1) = (sint (val p), sint (val2 p));
              f \<leftarrow> sys (Proc Fork);
              let pid = rc f;
              if pid < 0 then do {
                run (Fs (Close fd0));
                run (Fs (Close fd1));
                return EXIT_FAILURE }
              else if pid = 0 then do {
                run (Fs (Close fd1));
                d2 \<leftarrow> sys (Proc (Dup2 fd0 STDIN_FILENO));
                if rc d2 < 0 then do { halt (Exited EX_OSERR); return EXIT_FAILURE }
                else do {
                  run (Fs (Close fd0));
                  child_exec prog args;
                  return EXIT_FAILURE } }
              else do {
                run (Fs (Close fd0));
                written \<leftarrow> sys (Fs (Write fd1 d dataSize));
                run (Fs (Close fd1));
                if rc written < 0 then return EXIT_FAILURE
                else do {
                  s \<leftarrow> sys (Proc (Waitpid pid));
                  return (if child_succeeded s then EXIT_SUCCESS else EXIT_FAILURE) } } } }
      | _ \<Rightarrow> return EXIT_FAILURE)"

definition cominitSubprocessSpawn ::
    "string option \<Rightarrow> string list option \<Rightarrow> string list option \<Rightarrow> int op" where
  "cominitSubprocessSpawn path argv envp =
     (case (path, argv, envp) of
        (Some prog, Some args, Some _) \<Rightarrow> do {
          f \<leftarrow> sys (Proc Fork);
          let pid = rc f;
          if pid < 0 then return EXIT_FAILURE
          else if pid = 0 then do { child_exec prog args; return EXIT_FAILURE }
          else do {
            s \<leftarrow> sys (Proc (Waitpid pid));
            return (if child_succeeded s then EXIT_SUCCESS else EXIT_FAILURE) } }
      | _ \<Rightarrow> return EXIT_FAILURE)"

section \<open>Footprints and outcomes\<close>

definition spawn_event :: "string \<Rightarrow> string list \<Rightarrow> event \<Rightarrow> bool" where
  "spawn_event prog args e = (case e of
      (Proc (Execve p a), _) \<Rightarrow> p = prog \<and> a = args
    | (Proc Pipe, _) \<Rightarrow> True | (Proc Fork, _) \<Rightarrow> True | (Proc (Dup2 _ _), _) \<Rightarrow> True
    | (Proc (Waitpid _), _) \<Rightarrow> True | (Fs (Close _), _) \<Rightarrow> True | (Fs (Write _ _ _), _) \<Rightarrow> True
    | _ \<Rightarrow> False)"

interpretation spawn: code_operation "cominitSubprocessSpawn (Some prog) (Some args) envp"
    "spawn_event prog args" 0 1
  unfolding cominitSubprocessSpawn_def child_exec_def
  by unfold_locales
    (auto simp: spawn_event_def split: option.split if_splits intro!: emits_intros returns_intros)

interpretation spawn_write:
    code_operation "cominitSubprocessSpawnAndWrite (Some prog) (Some args) envp d n"
      "spawn_event prog args" 0 1
  unfolding cominitSubprocessSpawnAndWrite_def child_exec_def
  by unfold_locales
    (auto simp: spawn_event_def split: option.split if_splits intro!: emits_intros returns_intros)

text \<open>Running a program: \<^verbatim>\<open>fork\<close> is the first call. If it fails, so does the operation; in the child the
  program is started, and a failed start ends the child; in the parent exactly this child is waited
  for, and success is returned if and only if it exited by itself with code 0.\<close>
theorem spawn_outcome:
  assumes "status w = Running"
  shows "wp (cominitSubprocessSpawn (Some prog) (Some args) (Some envp)) (\<lambda>a w'.
     \<exists>f ext. trace w' = trace w @ (Proc Fork, f) # ext
      \<and> (rc f < 0 \<longrightarrow> ext = [] \<and> a = EXIT_FAILURE \<and> status w' = Running)
      \<and> (rc f = 0 \<longrightarrow> (\<exists>x. ext = [(Proc (Execve prog args), x)]
            \<and> status w' = (if rc x = - 1 then Exited EXIT_FAILURE else Replaced prog)))
      \<and> (0 < rc f \<longrightarrow> (\<exists>s. ext = [(Proc (Waitpid (rc f)), s)] \<and> status w' = Running
            \<and> a = (if child_succeeded s then EXIT_SUCCESS else EXIT_FAILURE)))) w"
  unfolding cominitSubprocessSpawn_def child_exec_def execve_def
  using assms by (auto intro!: vcg)

theorem spawn_outcome_witness:
  "wp (cominitSubprocessSpawn (Some ''/bin/true'') (Some [''/bin/true'']) (Some [])) (\<lambda>a w'.
     a = EXIT_SUCCESS \<and> length (trace w') = 2 \<and> status w' = Running) (start (\<lambda>_ _. ok\<lparr>rc := 7\<rparr>) 0)"
proof -
  have "child_succeeded (ok\<lparr>rc := 7\<rparr>)"
    by (simp add: child_succeeded_def wait_status_def WIFEXITED_def WEXITSTATUS_def ok_def)
  then show ?thesis
    using spawn_outcome [of "start (\<lambda>_ _. ok\<lparr>rc := 7\<rparr>) 0" "''/bin/true''" "[''/bin/true'']" "[]"]
    by (simp add: cominitSubprocessSpawn_def wp_simps)
qed

text \<open>The calls after a \<^verbatim>\<open>fork\<close> in the child, with the ends of the pipe: its standard input becomes the reading end.\<close>
definition child_calls :: "int \<Rightarrow> int \<Rightarrow> string \<Rightarrow> string list \<Rightarrow> event list \<Rightarrow> status \<Rightarrow> bool" where
  "child_calls fd0 fd1 prog args ext st \<longleftrightarrow> (case ext of
      c # d # rest \<Rightarrow> map fst [c, d] = [Fs (Close fd1), Proc (Dup2 fd0 STDIN_FILENO)]
        \<and> (if rc (snd d) < 0 then rest = [] \<and> st = Exited EX_OSERR
           else map fst rest = [Fs (Close fd0), Proc (Execve prog args)]
             \<and> st = (if rc (snd (last rest)) = - 1 then Exited EXIT_FAILURE else Replaced prog))
    | _ \<Rightarrow> False)"

text \<open>The calls in the parent and the result.\<close>
definition parent_calls :: "int \<Rightarrow> int \<Rightarrow> int \<Rightarrow> byte list \<Rightarrow> nat \<Rightarrow> event list \<Rightarrow> int \<Rightarrow> bool" where
  "parent_calls fd0 fd1 pid d n ext a \<longleftrightarrow> (case ext of
      c # wr # c' # rest \<Rightarrow> map fst [c, wr, c'] = [Fs (Close fd0), Fs (Write fd1 d n), Fs (Close fd1)]
        \<and> (if rc (snd wr) < 0 then rest = [] \<and> a = EXIT_FAILURE
           else map fst rest = [Proc (Waitpid pid)]
             \<and> a = (if child_succeeded (snd (last rest)) then EXIT_SUCCESS else EXIT_FAILURE))
    | _ \<Rightarrow> False)"

text \<open>What follows the pipe \<open>p\<close>.\<close>
definition forked_calls ::
    "reply \<Rightarrow> string \<Rightarrow> string list \<Rightarrow> byte list \<Rightarrow> nat \<Rightarrow> event list \<Rightarrow> int \<Rightarrow> status \<Rightarrow> bool" where
  "forked_calls p prog args d n ext a st \<longleftrightarrow> (case ext of
      (c, f) # rest \<Rightarrow> c = Proc Fork
        \<and> (if rc f < 0 then map fst rest = [Fs (Close (sint (val p))), Fs (Close (sint (val2 p)))] \<and> a = EXIT_FAILURE \<and> st = Running
           else if rc f = 0 then child_calls (sint (val p)) (sint (val2 p)) prog args rest st
           else parent_calls (sint (val p)) (sint (val2 p)) (rc f) d n rest a \<and> st = Running)
    | _ \<Rightarrow> False)"

text \<open>All calls: none without data, else the pipe first.\<close>
definition piped_calls :: "string \<Rightarrow> string list \<Rightarrow> byte list \<Rightarrow> nat \<Rightarrow> event list \<Rightarrow> int \<Rightarrow> status \<Rightarrow> bool" where
  "piped_calls prog args d n ext a st \<longleftrightarrow>
     (if n = 0 then ext = [] \<and> a = EXIT_FAILURE \<and> st = Running
      else case ext of
        (c, p) # rest \<Rightarrow> c = Proc Pipe
          \<and> (if rc p \<noteq> 0 then rest = [] \<and> a = EXIT_FAILURE \<and> st = Running
             else forked_calls p prog args d n rest a st)
      | _ \<Rightarrow> False)"

text \<open>C31: Running a program with input, on every path. Without data nothing is done at all. A pipe is made and
  the process forked; when a step fails, both ends of the pipe are closed again. In the child the
  reading end becomes the standard input, and the program is started or the child exits. In the parent
  the reading end is closed, one \<^verbatim>\<open>write\<close> asks for exactly the given number of bytes from the buffer,
  the writing end is closed, so that the child sees the end of its input, and, unless the write
  failed, exactly this child is waited for; success is returned if and only if it exited with code 0.
  The size is not compared with the buffer, and a write of fewer bytes counts as well.\<close>
theorem spawn_write_outcome:
  assumes "status w = Running"
  shows "wp (cominitSubprocessSpawnAndWrite (Some prog) (Some args) (Some envp) (Some d) n)
     (\<lambda>a w'. \<exists>ext. trace w' = trace w @ ext \<and> piped_calls prog args d n ext a (status w')) w"
  unfolding cominitSubprocessSpawnAndWrite_def child_exec_def execve_def
  using assms by (auto simp: piped_calls_def forked_calls_def child_calls_def parent_calls_def intro!: vcg)

text \<open>One byte of two is taken, and the child ends with code 0.\<close>
definition short_write_env :: "event list \<Rightarrow> call \<Rightarrow> reply" where
  "short_write_env h c = (case c of Proc Fork \<Rightarrow> ok\<lparr>rc := 7\<rparr> | Fs (Write fd d n) \<Rightarrow> ok\<lparr>rc := 1\<rparr>
     | Proc Pipe \<Rightarrow> ok\<lparr>val := 3, val2 := 4\<rparr> | _ \<Rightarrow> ok)"

theorem spawn_write_outcome_witness:
  "wp (cominitSubprocessSpawnAndWrite (Some ''/bin/cat'') (Some [''/bin/cat'']) (Some []) (Some [1, 2]) 2)
     (\<lambda>a w'. a = EXIT_SUCCESS \<and> length (trace w') = 6
       \<and> piped_calls ''/bin/cat'' [''/bin/cat''] [1, 2] 2 (trace w') a Running) (start short_write_env 0)"
proof -
  let ?w = "start short_write_env 0"
  let ?m = "cominitSubprocessSpawnAndWrite (Some ''/bin/cat'') (Some [''/bin/cat'']) (Some []) (Some [1, 2]) 2"
  have code: "wp ?m (\<lambda>a w'. a = EXIT_SUCCESS \<and> status w' = Running \<and> length (trace w') = 6) ?w"
    by (simp add: cominitSubprocessSpawnAndWrite_def wp_simps Let_def ok_def child_succeeded_def
        wait_status_def WIFEXITED_def WEXITSTATUS_def short_write_env_def)
  show ?thesis
    using wp_conj [THEN iffD2, OF conjI, OF code
        spawn_write_outcome [of ?w "''/bin/cat''" "[''/bin/cat'']" "[]" "[1, 2]" 2, OF start_simps(4)]]
    by (rule wp_mono) auto
qed

end
