(* ===== verification/Cryptsetup.thy ===== *)
theory Cryptsetup
  imports Subprocess
begin

text \<open>
  src/cryptsetup.c: the three invocations of the \<^verbatim>\<open>cryptsetup\<close> program, and the names of inc/tpm.h
  and inc/cryptsetup.h they share with the TPM component.
\<close>

definition COMINIT_PASSPHRASE_SIZE :: nat where [lits]: "COMINIT_PASSPHRASE_SIZE = 32"
definition COMINIT_TPM_SECURE_STORAGE_NAME :: string where
  [lits]: "COMINIT_TPM_SECURE_STORAGE_NAME = ''secureStorage''"
definition COMINIT_TPM_SECURE_STORAGE_KEY_NAME :: string where
  [lits]: "COMINIT_TPM_SECURE_STORAGE_KEY_NAME = COMINIT_TPM_SECURE_STORAGE_NAME"

definition luks_format_argv :: "config \<Rightarrow> string \<Rightarrow> string list" where
  "luks_format_argv cfg devCrypt =
     [cryptsetup_dir cfg, ''luksFormat'', ''--batch-mode'', ''--type'', ''luks2'', ''--key-size'',
      ''512'', ''--cipher'', ''aes-xts-plain64'', ''--iter-time'', ''10'', ''--key-file'', ''-'', devCrypt]"

definition cominitCryptsetupCreateLuksVolume ::
    "config \<Rightarrow> string option \<Rightarrow> byte list option \<Rightarrow> nat \<Rightarrow> int op" where
  "cominitCryptsetupCreateLuksVolume cfg devCrypt passphrase passphraseSize =
     (case (devCrypt, passphrase) of
        (Some dev, Some pw) \<Rightarrow>
          if passphraseSize = 0 then return EXIT_FAILURE
          else cominitSubprocessSpawnAndWrite (Some (cryptsetup_dir cfg))
                 (Some (luks_format_argv cfg dev)) (Some []) (Some pw) passphraseSize
      | _ \<Rightarrow> return EXIT_FAILURE)"

definition luks_open_argv :: "config \<Rightarrow> string \<Rightarrow> string list" where
  "luks_open_argv cfg devCrypt =
     [cryptsetup_dir cfg, ''luksOpen'', devCrypt, COMINIT_TPM_SECURE_STORAGE_NAME]"

definition cominitCryptsetupOpenLuksVolume :: "config \<Rightarrow> string option \<Rightarrow> int op" where
  "cominitCryptsetupOpenLuksVolume cfg devCrypt =
     (case devCrypt of
        None \<Rightarrow> return EXIT_FAILURE
      | Some dev \<Rightarrow> cominitSubprocessSpawn (Some (cryptsetup_dir cfg)) (Some (luks_open_argv cfg dev))
                     (Some []))"

definition add_token_argv :: "config \<Rightarrow> string \<Rightarrow> string list" where
  "add_token_argv cfg devCrypt =
     [cryptsetup_dir cfg, ''token'', ''add'', ''--token-type'', ''keyring'', ''--key-slot'', ''0'',
      ''--key-description'', COMINIT_TPM_SECURE_STORAGE_KEY_NAME, devCrypt]"

definition cominitCryptsetupAddToken :: "config \<Rightarrow> string option \<Rightarrow> int op" where
  "cominitCryptsetupAddToken cfg devCrypt =
     (case devCrypt of
        None \<Rightarrow> return EXIT_FAILURE
      | Some dev \<Rightarrow> cominitSubprocessSpawn (Some (cryptsetup_dir cfg)) (Some (add_token_argv cfg dev))
                     (Some []))"

section \<open>Footprints and codes\<close>

interpretation luks_format: code_operation "cominitCryptsetupCreateLuksVolume cfg (Some dev) pw n"
    "spawn_event (cryptsetup_dir cfg) (luks_format_argv cfg dev)" 0 1
  unfolding cominitCryptsetupCreateLuksVolume_def
  by unfold_locales
    (auto split: option.split intro!: emits_intros returns_structure spawn_write.footprint
      spawn_write.codes)

interpretation luks_open: code_operation "cominitCryptsetupOpenLuksVolume cfg (Some dev)"
    "spawn_event (cryptsetup_dir cfg) (luks_open_argv cfg dev)" 0 1
  unfolding cominitCryptsetupOpenLuksVolume_def option.case
  by unfold_locales (auto intro: spawn.footprint returns_mono [OF spawn.codes])

interpretation add_token: code_operation "cominitCryptsetupAddToken cfg (Some dev)"
    "spawn_event (cryptsetup_dir cfg) (add_token_argv cfg dev)" 0 1
  unfolding cominitCryptsetupAddToken_def option.case
  by unfold_locales (auto intro: spawn.footprint returns_mono [OF spawn.codes])

end
