(* ===== verification/Securememory.thy ===== *)
theory Securememory
  imports Crypto Cryptsetup Keyring
begin

text \<open>
  src/securememory.c: the three operations that hold the passphrase of the secure storage in locked
  memory. A call that gives the memory back (\<open>Munlock\<close>, \<open>Free\<close>, \<open>Esys_Free\<close>) carries what the memory
  holds, so that the trace shows whether the passphrase was cleared first.
\<close>

section \<open>Clearing\<close>

datatype cominitTpmState_t = TpmFailure | TpmPolicyFailure | Unsealed | Sealed

definition POLICY_FAILURE_RC :: int where [lits]: "POLICY_FAILURE_RC = 0x99d"

definition cominitSecurememoryZeroOut :: "byte list option \<Rightarrow> nat \<Rightarrow> int \<times> byte list option" where
  "cominitSecurememoryZeroOut bufferToClear bufferSize =
     (case bufferToClear of
        None \<Rightarrow> (EXIT_FAILURE, None)
      | Some buffer \<Rightarrow>
          if bufferSize = 0 then (EXIT_FAILURE, Some buffer)
          else (EXIT_SUCCESS, Some (overlay (replicate bufferSize 0) buffer)))"

primrec verify_zero_loop :: "nat \<Rightarrow> byte list \<Rightarrow> int" where
  "verify_zero_loop 0 buffer = EXIT_SUCCESS"
| "verify_zero_loop (Suc n) buffer =
     (case buffer of
        [] \<Rightarrow> EXIT_SUCCESS
      | b # bs \<Rightarrow> if b \<noteq> 0 then EXIT_FAILURE else verify_zero_loop n bs)"

definition cominitSecurememoryVerifyZero :: "byte list option \<Rightarrow> nat \<Rightarrow> int" where
  "cominitSecurememoryVerifyZero bufferToVerify bufferSize =
     (case bufferToVerify of
        None \<Rightarrow> EXIT_FAILURE
      | Some buffer \<Rightarrow> if bufferSize = 0 then EXIT_FAILURE else verify_zero_loop bufferSize buffer)"

section \<open>Unsealing\<close>

text \<open>
  \<^verbatim>\<open>Esys_Unseal\<close> allocates the buffer and leaves \<^verbatim>\<open>NULL\<close> on failure; its size field is the number of
  bytes of the reply.
\<close>
definition cominitSecurememoryEsysUnseal ::
    "config \<Rightarrow> u64 option \<Rightarrow> u64 option \<Rightarrow> u64 option \<Rightarrow> cominitTpmState_t op" where
  "cominitSecurememoryEsysUnseal cfg ectx blobHandle session =
     (case (ectx, blobHandle, session) of
        (Some _, Some blob, Some sess) \<Rightarrow> do {
          u \<leftarrow> sys (Tpm (Esys_Unseal blob sess));
          if rc u \<noteq> 0 then return (if rc u = POLICY_FAILURE_RC then TpmPolicyFailure else TpmFailure)
          else do {
            let key = bytes u;
            l \<leftarrow> sys (Mem (Mlock (sizeof_sensitive_data cfg)));
            (state, key') \<leftarrow>
              (if rc l \<noteq> 0 then return (TpmFailure, key)
               else do {
                 a \<leftarrow> cominitKeyringAddUserKey (Some COMINIT_TPM_SECURE_STORAGE_KEY_NAME) (Some key)
                        (length key);
                 let (_, cleared) = cominitSecurememoryZeroOut (Some key) (length key);
                 return (if a = 0 then Unsealed else TpmFailure, the cleared) });
            let _ = cominitSecurememoryVerifyZero (Some key') (length key');
            run (Mem (Munlock key'));
            run (Tpm (Esys_Free (Some key')));
            return state } }
      | _ \<Rightarrow> return TpmFailure)"

section \<open>Creating the LUKS volume\<close>

text \<open>The conversion of \<^verbatim>\<open>ssize_t\<close> to \<^verbatim>\<open>size_t\<close>, on the values an \<^verbatim>\<open>ssize_t\<close> has.\<close>
definition size_t_of :: "int \<Rightarrow> nat" where
  "size_t_of n = (if n < 0 then nat (n + 2 ^ 64) else nat n)"

text \<open>The part behind the allocation: the result and what the buffer then holds.\<close>
definition luks_with_key :: "config \<Rightarrow> string \<Rightarrow> byte list \<Rightarrow> (int \<times> byte list) op" where
  "luks_with_key cfg dev keyBuffer = do {
     let keyBufferSize = COMINIT_PASSPHRASE_SIZE;
     l \<leftarrow> sys (Mem (Mlock keyBufferSize));
     if rc l \<noteq> 0 then return (EXIT_FAILURE, keyBuffer)
     else do {
       (k, filled) \<leftarrow> cominitKeyringGetKey (Some keyBuffer) keyBufferSize
                       (Some COMINIT_TPM_SECURE_STORAGE_KEY_NAME);
       let keySize = size_t_of k;
       if keySize = 0 then return (EXIT_FAILURE, the filled)
       else do {
         r \<leftarrow> cominitCryptsetupCreateLuksVolume cfg (Some dev) filled keySize;
         let (_, cleared) = cominitSecurememoryZeroOut filled keyBufferSize;
         return (r, the cleared) } } }"

definition cominitSecurememoryCreateLuksVolume :: "config \<Rightarrow> string option \<Rightarrow> int op" where
  "cominitSecurememoryCreateLuksVolume cfg devCrypt =
     (case devCrypt of
        None \<Rightarrow> return EXIT_FAILURE
      | Some dev \<Rightarrow> do {
          let keyBufferSize = COMINIT_PASSPHRASE_SIZE;
          c \<leftarrow> sys (Mem (Calloc keyBufferSize));
          if rc c = 0 then return EXIT_FAILURE
          else do {
            (result, keyBuffer') \<leftarrow> luks_with_key cfg dev (replicate keyBufferSize 0);
            let _ = cominitSecurememoryVerifyZero (Some keyBuffer') keyBufferSize;
            run (Mem (Munlock keyBuffer'));
            run (Mem (Free keyBuffer'));
            return result } })"

section \<open>Creating the sealed blob\<close>

definition blob_attributes :: "object_attribute list" where
  "blob_attributes = [TPMA_OBJECT_USERWITHAUTH, TPMA_OBJECT_FIXEDTPM, TPMA_OBJECT_FIXEDPARENT]"

text \<open>
  The key buffer is the data field of the sensitive structure, 32 bytes of it in use. The result of
  generating the passphrase is the result also when \<^verbatim>\<open>Esys_Create\<close> fails. The pointers returned are
  the public and the private part; the three creation results are freed.
\<close>
definition cominitSecurememoryEsysCreate ::
    "config \<Rightarrow> u64 option \<Rightarrow> u64 option \<Rightarrow> byte list option
       \<Rightarrow> (int \<times> byte list option \<times> byte list option) op" where
  "cominitSecurememoryEsysCreate cfg ectx primaryHandle policyDigest = do {
     (result, pub, priv, created) \<leftarrow>
       (case (ectx, primaryHandle, policyDigest) of
          (Some _, Some primary, Some digest) \<Rightarrow> do {
            c \<leftarrow> sys (Mem (Calloc (sizeof_sensitive_create cfg)));
            if rc c = 0 then return (EXIT_FAILURE, None, None, False)
            else do {
              l \<leftarrow> sys (Mem (Mlock (sizeof_sensitive_create cfg)));
              (res, pub, priv, created, key, keySize) \<leftarrow>
                (if rc l \<noteq> 0
                 then return (EXIT_FAILURE, None, None, False, replicate COMINIT_PASSPHRASE_SIZE 0, 0)
                 else do {
                   (p, pw) \<leftarrow> cominitCryptoCreatePassphrase
                               (Some (replicate COMINIT_PASSPHRASE_SIZE 0)) COMINIT_PASSPHRASE_SIZE;
                   if p \<noteq> EXIT_SUCCESS
                   then return (p, None, None, False, the pw, COMINIT_PASSPHRASE_SIZE)
                   else do {
                     e \<leftarrow> sys (Tpm (Esys_Create primary TPM2_ALG_KEYEDHASH blob_attributes digest []
                            (the pw)));
                     let good = (rc e = 0);
                     let (_, cleared) = cominitSecurememoryZeroOut pw COMINIT_PASSPHRASE_SIZE;
                     return (if good then EXIT_SUCCESS else p,
                             if good then Some (bytes e) else None,
                             if good then Some (bytes2 e) else None,
                             good, the cleared, COMINIT_PASSPHRASE_SIZE) } });
              let _ = cominitSecurememoryVerifyZero (Some key) keySize;
              run (Mem (Munlock key));
              run (Mem (Free key));
              return (res, pub, priv, created) } }
        | _ \<Rightarrow> return (EXIT_FAILURE, None, None, False));
     run (Tpm (Esys_Free (if created then Some [] else None)));
     run (Tpm (Esys_Free (if created then Some [] else None)));
     run (Tpm (Esys_Free (if created then Some [] else None)));
     return (result, pub, priv) }"

section \<open>Clearing is complete\<close>

lemma zero_out_zeroes:
  assumes "n = length b" and "0 < n"
  shows "cominitSecurememoryZeroOut (Some b) n = (EXIT_SUCCESS, Some (replicate n 0))"
  using assms by (simp add: cominitSecurememoryZeroOut_def)

lemma verify_zero_loop_iff:
  "n = length b \<Longrightarrow> verify_zero_loop n b = EXIT_SUCCESS \<longleftrightarrow> (\<forall>x \<in> set b. x = 0)"
  by (induction b arbitrary: n) auto

lemma verify_zero_iff:
  "cominitSecurememoryVerifyZero (Some b) (length b) = EXIT_SUCCESS \<longleftrightarrow> b \<noteq> [] \<and> (\<forall>x \<in> set b. x = 0)"
  by (simp add: cominitSecurememoryVerifyZero_def verify_zero_loop_iff)

section \<open>Footprints\<close>

definition secure_event :: "config \<Rightarrow> event \<Rightarrow> bool" where
  "secure_event cfg e \<longleftrightarrow> (case e of
      (Mem _, _) \<Rightarrow> True | (Key _, _) \<Rightarrow> True | (Pk _, _) \<Rightarrow> True | (Tpm _, _) \<Rightarrow> True
    | (Stream (Fopen _ m), _) \<Rightarrow> m = ''r'' | (Stream (Fgets _), _) \<Rightarrow> True | (Stream Fclose, _) \<Rightarrow> True
    | (Fs (Close _), _) \<Rightarrow> True | (Fs (Write _ _ _), _) \<Rightarrow> True
    | (Proc (Execve p a), _) \<Rightarrow> p = cryptsetup_dir cfg \<and> 1 < length a | (Proc Pipe, _) \<Rightarrow> True | (Proc Fork, _) \<Rightarrow> True
    | (Proc (Dup2 _ _), _) \<Rightarrow> True | (Proc (Waitpid _), _) \<Rightarrow> True | _ \<Rightarrow> False)"

lemma secure_event_simps [simp]:
  "secure_event cfg (Mem m, r)" "secure_event cfg (Key k, r)" "secure_event cfg (Pk p, r)"
  "secure_event cfg (Tpm t, r)" "\<not> secure_event cfg (Fs (Mount s d ty fl), r)"
  by (simp_all add: secure_event_def)

lemma secure_key_event: "key_event e \<Longrightarrow> secure_event cfg e"
  by (auto simp: key_event_def secure_event_def split: call.splits)

lemma secure_passphrase_event: "passphrase_event e \<Longrightarrow> secure_event cfg e"
  by (auto simp: passphrase_event_def secure_event_def split: call.splits stream_call.splits)

lemma luks_argv_length [simp]:
  "Suc 0 < length (luks_format_argv cfg d)" "Suc 0 < length (luks_open_argv cfg d)"
  "Suc 0 < length (add_token_argv cfg d)"
  by (simp_all add: luks_format_argv_def luks_open_argv_def add_token_argv_def)

lemma secure_spawn_event:
  assumes "spawn_event (cryptsetup_dir cfg) args e" and "Suc 0 < length args"
  shows "secure_event cfg e"
  using assms
  by (auto simp: spawn_event_def secure_event_def split: call.splits fs_call.splits proc_call.splits)

lemmas secure_parts =
  emits_mono [OF get_key.footprint secure_key_event]
  emits_mono [OF add_key.footprint secure_key_event]
  emits_mono [OF passphrase.footprint secure_passphrase_event]
  emits_mono [OF luks_format.footprint secure_spawn_event [OF _ luks_argv_length(1)]]

interpretation unseal_key: operation "cominitSecurememoryEsysUnseal cfg ectx blob sess" "secure_event cfg"
  unfolding cominitSecurememoryEsysUnseal_def
  by unfold_locales (auto split: option.split intro!: emits_intros secure_parts)

interpretation create_luks: operation "cominitSecurememoryCreateLuksVolume cfg dev" "secure_event cfg"
  unfolding cominitSecurememoryCreateLuksVolume_def luks_with_key_def
  by unfold_locales (auto split: option.split intro!: emits_intros secure_parts)

interpretation create_blob: operation "cominitSecurememoryEsysCreate cfg ectx prim digest" "secure_event cfg"
  unfolding cominitSecurememoryEsysCreate_def
  by unfold_locales (auto split: option.split intro!: emits_intros secure_parts)

section \<open>The passphrase is cleared\<close>

text \<open>Locked memory that is given back holds no byte of the passphrase.\<close>
definition wiped :: "event \<Rightarrow> bool" where
  "wiped e \<longleftrightarrow> (case e of
      (Mem (Munlock b), _) \<Rightarrow> b = replicate COMINIT_PASSPHRASE_SIZE 0
    | (Mem (Free b), _) \<Rightarrow> b = replicate COMINIT_PASSPHRASE_SIZE 0 | _ \<Rightarrow> True)"

lemma wiped_simps [simp]:
  "wiped (Mem (Munlock b), r) = (b = replicate COMINIT_PASSPHRASE_SIZE 0)"
  "wiped (Mem (Free b), r) = (b = replicate COMINIT_PASSPHRASE_SIZE 0)"
  "wiped (Mem (Calloc n), r)" "wiped (Mem (Mlock n), r)"
  by (simp_all add: wiped_def)

lemma wiped_others: "key_event e \<Longrightarrow> wiped e" "spawn_event p args e \<Longrightarrow> wiped e"
  by (auto simp: wiped_def key_event_def spawn_event_def split: call.splits mem_call.splits)

lemma get_key_buffer:
  "n = length buf \<Longrightarrow> returns (\<lambda>(k, filled). \<exists>b. filled = Some b \<and> length b = length buf
      \<and> (size_t_of k = 0 \<longrightarrow> b = buf)) (cominitKeyringGetKey (Some buf) n (Some d))"
  unfolding cominitKeyringGetKey_def
  by (auto intro!: returns_intros simp: size_t_of_def split: if_splits)

lemma luks_buffer_cleared:
  "returns (\<lambda>(r, b). b = replicate COMINIT_PASSPHRASE_SIZE 0)
     (luks_with_key cfg dev (replicate COMINIT_PASSPHRASE_SIZE 0))"
  unfolding luks_with_key_def Let_def
  by (intro returns_structure returns_bind_spec [OF get_key_buffer])
    (auto intro!: returns_intros simp: zero_out_zeroes lits)

text \<open>C26: Whatever the keyring, cryptsetup and the memory locks do, the buffer of the LUKS passphrase
  holds only zeros when \<^verbatim>\<open>cominitSecurememoryCreateLuksVolume\<close> unlocks and frees it.\<close>
theorem create_luks_wiped: "emits wiped (cominitSecurememoryCreateLuksVolume cfg dev)"
proof -
  have "emits wiped (luks_with_key cfg d b)" for d b
    unfolding luks_with_key_def
    by (auto intro!: emits_intros emits_mono [OF luks_format.footprint wiped_others(2)]
        emits_mono [OF get_key.footprint wiped_others(1)])
  then show ?thesis
    unfolding cominitSecurememoryCreateLuksVolume_def
    by (auto split: option.split intro!: emits_intros emits_bind_spec [OF _ luks_buffer_cleared])
qed

text \<open>C27: What unsealing gives back: after a successful lock of the key buffer only zeros, after a
  failed one the key itself; it reports success in the first case only.\<close>
theorem unseal_released:
  assumes "status w = Running"
  shows "wp (cominitSecurememoryEsysUnseal cfg (Some ectx) (Some blob) (Some sess)) (\<lambda>s w'.
     \<exists>ext. trace w' = trace w @ ext
       \<and> (s = Unsealed \<longrightarrow> (\<exists>l. (Mem (Mlock (sizeof_sensitive_data cfg)), l) \<in> set ext \<and> rc l = 0))
       \<and> (\<forall>u l key f. (Tpm (Esys_Unseal blob sess), u) \<in> set ext
            \<longrightarrow> (Mem (Mlock (sizeof_sensitive_data cfg)), l) \<in> set ext
            \<longrightarrow> (Mem (Munlock key), f) \<in> set ext \<or> (Tpm (Esys_Free (Some key)), f) \<in> set ext
            \<longrightarrow> key = (if rc l = 0 then replicate (length (bytes u)) 0 else bytes u))) w"
  unfolding cominitSecurememoryEsysUnseal_def cominitKeyringAddUserKey_def
  using assms by (auto intro!: vcg simp: cominitSecurememoryZeroOut_def split: if_splits)

theorem unseal_released_witness:
  "status (start (\<lambda>_ _. ok\<lparr>bytes := [7, 9]\<rparr>) 0) = Running
   \<and> wp (cominitSecurememoryEsysUnseal default_config (Some 1) (Some 2) (Some 3)) (\<lambda>s w'.
     \<exists>ext. trace w' = ext
       \<and> (s = Unsealed \<longrightarrow> (\<exists>l. (Mem (Mlock (sizeof_sensitive_data default_config)), l) \<in> set ext \<and> rc l = 0))
       \<and> (\<forall>u l key f. (Tpm (Esys_Unseal 2 3), u) \<in> set ext
            \<longrightarrow> (Mem (Mlock (sizeof_sensitive_data default_config)), l) \<in> set ext
            \<longrightarrow> (Mem (Munlock key), f) \<in> set ext \<or> (Tpm (Esys_Free (Some key)), f) \<in> set ext
            \<longrightarrow> key = (if rc l = 0 then replicate (length (bytes u)) 0 else bytes u)))
     (start (\<lambda>_ _. ok\<lparr>bytes := [7, 9]\<rparr>) 0)"
  using unseal_released [of "start (\<lambda>_ _. ok\<lparr>bytes := [7, 9]\<rparr>) 0" default_config 1 2 3] by simp

end
