(* ===== verification/Tpm.thy ===== *)
theory Tpm
  imports Options Securememory
begin

unbundle bit_operations_syntax

text \<open>
  src/tpm.c and inc/tpm.h: extending a PCR with the digest of the rootfs key, and sealing and
  unsealing the passphrase of the secure storage with a PCR policy. The option parsers of src/tpm.c
  are in theory \<open>Options\<close>.
\<close>

section \<open>Context and constants\<close>

text \<open>A pointer that may not have been written yet.\<close>
datatype pointer = Unset | Null | To u64

record cominitTpmContext_t =
  esysCtx :: pointer
  tctiCtx :: pointer

definition tpmCtx_unset :: cominitTpmContext_t where
  "tpmCtx_unset = \<lparr>esysCtx = Unset, tctiCtx = Unset\<rparr>"

primrec address :: "pointer \<Rightarrow> u64 option" where
  "address Unset = None"
| "address Null = None"
| "address (To p) = Some p"

datatype cominitBlobState_t = BlobIsEmpty | BlobExists | BlobNotFound

definition COMINIT_TPM_MNT_PT :: string where [lits]: "COMINIT_TPM_MNT_PT = ''/tpm''"
definition COMINIT_TPM_BLOB_LOCATION :: string where [lits]: "COMINIT_TPM_BLOB_LOCATION = ''sealed.blob''"
definition COMINIT_TPM_SECURE_STORAGE_MNT :: string where
  [lits]: "COMINIT_TPM_SECURE_STORAGE_MNT = ''/newroot/mnt''"
definition COMINIT_TPM_SECURE_STORAGE_LOCATION :: "config \<Rightarrow> string" where
  "COMINIT_TPM_SECURE_STORAGE_LOCATION cfg =
     ''/dev/'' @ dm_dir cfg @ ''/'' @ COMINIT_TPM_SECURE_STORAGE_NAME"
definition blob_path :: string where
  "blob_path = COMINIT_TPM_MNT_PT @ ''/'' @ COMINIT_TPM_BLOB_LOCATION"
definition S_IRWXU :: nat where [lits]: "S_IRWXU = 448"

definition cominitTpmLoadDriver :: int where
  "cominitTpmLoadDriver = EXIT_SUCCESS"

definition cominitTpmSelftest :: "int op" where
  "cominitTpmSelftest = do {
     r \<leftarrow> sys (Tpm Esys_SelfTest);
     return (if rc r \<noteq> 0 then EXIT_FAILURE else EXIT_SUCCESS) }"

section \<open>Directories\<close>

primrec mkdir_loop :: "nat \<Rightarrow> string \<Rightarrow> string list \<Rightarrow> string op" where
  "mkdir_loop mode currentPath [] = return currentPath"
| "mkdir_loop mode currentPath (token # rest) = do {
     let path = currentPath @ ''/'' @ token;
     r \<leftarrow> sys (Fs (Mkdir path mode));
     if rc r \<noteq> 0 \<and> err r \<noteq> EEXIST then return path else mkdir_loop mode path rest }"

text \<open>When \<^verbatim>\<open>stat\<close> fails, \<^verbatim>\<open>statbuf\<close> is not written: its kind is whatever the reply has.\<close>
definition cominitMkdir :: "string \<Rightarrow> nat \<Rightarrow> int op" where
  "cominitMkdir dirPath mode = do {
     currentPath \<leftarrow> mkdir_loop mode [] (tokens ''/'' (take (COMINIT_ROOTFS_DEV_PATH_MAX - 1) dirPath));
     s \<leftarrow> sys (Fs (Stat currentPath));
     return (if rc s \<noteq> 0 \<and> kind s \<noteq> Directory then EXIT_FAILURE else EXIT_SUCCESS) }"

section \<open>The blob partition\<close>

text \<open>\<^verbatim>\<open>dirname\<close> of the path of the blob is the mount point.\<close>
definition cominitTpmSetupBlob :: "cominitCliArgs_t \<Rightarrow> cominitBlobState_t op" where
  "cominitTpmSetupBlob argCtx =
     (if devNodeBlob argCtx = [] then return BlobNotFound
      else do {
        d \<leftarrow> cominitMkdir COMINIT_TPM_MNT_PT S_IRWXU;
        if d = EXIT_FAILURE then return BlobNotFound
        else do {
          m \<leftarrow> sys (Fs (Mount (devNodeBlob argCtx) COMINIT_TPM_MNT_PT (Some ''ext4'') [MS_NOEXEC]));
          if rc m \<noteq> 0 then return BlobNotFound
          else do {
            a \<leftarrow> sys (Fs (Access blob_path));
            if rc a = 0 then return BlobExists
            else if err a = ENOENT then do {
              r \<leftarrow> cominitMkdir COMINIT_TPM_MNT_PT S_IRWXU;
              return (if r \<noteq> EXIT_SUCCESS then BlobNotFound else BlobIsEmpty) }
            else return BlobNotFound } } })"

text \<open>The parts are copied from the pointers given: a \<^verbatim>\<open>NULL\<close> pointer is dereferenced. The results of
  \<^verbatim>\<open>fwrite\<close> are not looked at.\<close>
definition cominitTpmSaveBlob :: "byte list option \<Rightarrow> byte list option \<Rightarrow> int op" where
  "cominitTpmSaveBlob outPublic outPrivate = do {
     f \<leftarrow> sys (Stream (Fopen blob_path ''wb''));
     if rc f = 0 then return EXIT_FAILURE
     else (case (outPublic, outPrivate) of
         (Some pub, Some priv) \<Rightarrow> do {
           run (Stream (Fwrite pub));
           run (Stream (Fwrite priv));
           run (Stream Fclose);
           return EXIT_SUCCESS }
       | _ \<Rightarrow> do { halt (Undefined NullPointer); return EXIT_FAILURE }) }"

definition cominitTpmUnmountBlob :: "unit op" where
  "cominitTpmUnmountBlob = run (Fs (Umount COMINIT_TPM_MNT_PT))"

text \<open>A structure that was cleared before it is read into.\<close>
definition read_struct :: "nat \<Rightarrow> reply \<Rightarrow> byte list" where
  "read_struct n r = overlay (take n (bytes r)) (replicate n 0)"

definition cominitTpmLoadBlob :: "config \<Rightarrow> (int \<times> byte list \<times> byte list) op" where
  "cominitTpmLoadBlob cfg = do {
     f \<leftarrow> sys (Stream (Fopen blob_path ''rb''));
     if rc f = 0
     then return (EXIT_FAILURE, replicate (sizeof_public cfg) 0, replicate (sizeof_private cfg) 0)
     else do {
       p \<leftarrow> sys (Stream (Fread (sizeof_public cfg)));
       let pub = read_struct (sizeof_public cfg) p;
       res \<leftarrow> (if rc p = int (sizeof_public cfg) then do {
                q \<leftarrow> sys (Stream (Fread (sizeof_private cfg)));
                let priv = read_struct (sizeof_private cfg) q;
                return (if rc q = int (sizeof_private cfg) then EXIT_SUCCESS else EXIT_FAILURE,
                        pub, priv) }
              else return (EXIT_FAILURE, pub, replicate (sizeof_private cfg) 0));
       run (Stream Fclose);
       return res } }"

section \<open>PCR selection\<close>

text \<open>\<^verbatim>\<open>pcrSelect\<close> is an array of \<open>pcr_select_max\<close> bytes; an index beyond it is written out of bounds.\<close>
primrec select_pcr_loop :: "u64 list \<Rightarrow> byte list \<Rightarrow> fault + byte list" where
  "select_pcr_loop [] pcrSelect = Inr pcrSelect"
| "select_pcr_loop (pcr # rest) pcrSelect =
     (let i = unat pcr div 8 in
      if i < length pcrSelect
      then select_pcr_loop rest (pcrSelect[i := pcrSelect ! i OR push_bit (unat pcr mod 8) 1])
      else Inl OutOfBounds)"

definition cominitTpmSelectPcr :: "cominitCliArgs_t \<Rightarrow> byte list \<Rightarrow> fault + byte list" where
  "cominitTpmSelectPcr argCtx pcrSelect =
     select_pcr_loop (take (pcrSealCount argCtx) (pcrSeal argCtx)) pcrSelect"

text \<open>The selection with \<^verbatim>\<open>sizeofSelect = 3\<close> and the policy call made with it. Of a counted array the library reads the
  counted bytes; these are what the call carries.\<close>
definition policy_pcr :: "config \<Rightarrow> cominitCliArgs_t \<Rightarrow> u64 \<Rightarrow> reply option op" where
  "policy_pcr cfg argCtx sess =
     (case cominitTpmSelectPcr argCtx (replicate (pcr_select_max cfg) 0) of
        Inl f \<Rightarrow> do { halt (Undefined f); return None }
      | Inr sel \<Rightarrow> do { r \<leftarrow> sys (Tpm (Esys_PolicyPCR sess 3 (take 3 sel))); return (Some r) })"

section \<open>Sealing\<close>

definition cominitTpmSavePrimaryHandle :: "u64 \<Rightarrow> int op" where
  "cominitTpmSavePrimaryHandle primaryHandle = do {
     r \<leftarrow> sys (Tpm (Esys_EvictControl primaryHandle));
     return (if rc r \<noteq> 0 then EXIT_FAILURE else EXIT_SUCCESS) }"

definition primary_attributes :: "object_attribute list" where
  "primary_attributes = [TPMA_OBJECT_USERWITHAUTH, TPMA_OBJECT_RESTRICTED, TPMA_OBJECT_DECRYPT,
     TPMA_OBJECT_FIXEDTPM, TPMA_OBJECT_FIXEDPARENT, TPMA_OBJECT_SENSITIVEDATAORIGIN]"

text \<open>
  From the trial session on: result, session, the digest and the sealed parts. The test behind
  \<^verbatim>\<open>cominitSecurememoryEsysCreate\<close> looks at the code of the call before it, which is success there,
  so that the primary key is made persistent in any case. A session variable that no call has
  written has an arbitrary value, taken from the reply.
\<close>
definition seal_session ::
    "config \<Rightarrow> u64 option \<Rightarrow> u64 \<Rightarrow> cominitCliArgs_t
       \<Rightarrow> (int \<times> u64 \<times> byte list option \<times> byte list option \<times> byte list option) op" where
  "seal_session cfg ectx primaryHandle argCtx = do {
     s \<leftarrow> sys (Tpm (Esys_StartAuthSession TPM2_SE_TRIAL));
     let sess = val s;
     if rc s \<noteq> 0 then return (EXIT_FAILURE, sess, None, None, None)
     else do {
       p \<leftarrow> policy_pcr cfg argCtx sess;
       (case p of
          None \<Rightarrow> return (EXIT_FAILURE, sess, None, None, None)
        | Some pr \<Rightarrow>
            if rc pr \<noteq> 0 then return (EXIT_FAILURE, sess, None, None, None)
            else do {
              d \<leftarrow> sys (Tpm (Esys_PolicyGetDigest sess));
              if rc d \<noteq> 0 then return (EXIT_FAILURE, sess, None, None, None)
              else do {
                (_, pub, priv) \<leftarrow> cominitSecurememoryEsysCreate cfg ectx (Some primaryHandle)
                                   (Some (bytes d));
                result \<leftarrow> (if rc d \<noteq> EXIT_SUCCESS then return EXIT_FAILURE
                          else cominitTpmSavePrimaryHandle primaryHandle);
                return (result, sess, Some (bytes d), pub, priv) } }) } }"

definition cominitTpmSeal ::
    "config \<Rightarrow> u64 option \<Rightarrow> cominitCliArgs_t \<Rightarrow> (int \<times> byte list option \<times> byte list option) op" where
  "cominitTpmSeal cfg ectx argCtx = do {
     c \<leftarrow> sys (Tpm (Esys_CreatePrimary TPM2_ALG_RSA primary_attributes));
     let created = (if rc c = 0 then Some [] else None);
     let primaryHandle = (if rc c = 0 then val c else esys_tr_none cfg);
     (result, sess, digest, pub, priv) \<leftarrow>
       (if rc c \<noteq> 0 then return (EXIT_FAILURE, val2 c, None, None, None)
        else seal_session cfg ectx primaryHandle argCtx);
     run (Tpm (Esys_FlushContext sess));
     run (Tpm (Esys_FlushContext primaryHandle));
     run (Tpm (Esys_Free created));
     run (Tpm (Esys_Free created));
     run (Tpm (Esys_Free created));
     run (Tpm (Esys_Free digest));
     run (Tpm (Esys_Free created));
     return (result, pub, priv) }"

definition cominitTpmSealBlob :: "config \<Rightarrow> u64 option \<Rightarrow> cominitCliArgs_t \<Rightarrow> cominitTpmState_t op" where
  "cominitTpmSealBlob cfg ectx argCtx = do {
     (r, pub, priv) \<leftarrow> cominitTpmSeal cfg ectx argCtx;
     result \<leftarrow> (if r \<noteq> EXIT_SUCCESS then return r else cominitTpmSaveBlob pub priv);
     run (Tpm (Esys_Free pub));
     run (Tpm (Esys_Free priv));
     return (if result = EXIT_SUCCESS then Sealed else TpmFailure) }"

section \<open>Unsealing\<close>

definition cominitTpmLoadPrimaryHandle :: "config \<Rightarrow> (int \<times> u64) op" where
  "cominitTpmLoadPrimaryHandle cfg = do {
     r \<leftarrow> sys (Tpm Esys_TR_FromTPMPublic);
     return (if rc r \<noteq> 0 then (EXIT_FAILURE, esys_tr_none cfg) else (EXIT_SUCCESS, val r)) }"

text \<open>From the policy session on: the state and the session.\<close>
definition unseal_session ::
    "config \<Rightarrow> u64 option \<Rightarrow> u64 \<Rightarrow> cominitCliArgs_t \<Rightarrow> (cominitTpmState_t \<times> u64) op" where
  "unseal_session cfg ectx blobHandle argCtx = do {
     s \<leftarrow> sys (Tpm (Esys_StartAuthSession TPM2_SE_POLICY));
     if rc s \<noteq> 0 then return (TpmFailure, esys_tr_none cfg)
     else do {
       p \<leftarrow> policy_pcr cfg argCtx (val s);
       (case p of
          None \<Rightarrow> return (TpmFailure, val s)
        | Some pr \<Rightarrow>
            if rc pr \<noteq> 0 then return (TpmFailure, val s)
            else do {
              st \<leftarrow> cominitSecurememoryEsysUnseal cfg ectx (Some blobHandle) (Some (val s));
              return (st, val s) }) } }"

definition cominitTpmUnseal ::
    "config \<Rightarrow> u64 option \<Rightarrow> u64 \<Rightarrow> byte list \<Rightarrow> byte list \<Rightarrow> cominitCliArgs_t
       \<Rightarrow> cominitTpmState_t op" where
  "cominitTpmUnseal cfg ectx primaryHandle outPublic outPrivate argCtx = do {
     l \<leftarrow> sys (Tpm (Esys_Load primaryHandle outPrivate outPublic));
     let blobHandle = (if rc l = 0 then val l else esys_tr_none cfg);
     (state, sess) \<leftarrow> (if rc l \<noteq> 0 then return (TpmFailure, esys_tr_none cfg)
                     else unseal_session cfg ectx blobHandle argCtx);
     run (Tpm (Esys_FlushContext sess));
     run (Tpm (Esys_FlushContext blobHandle));
     return state }"

definition cominitTpmUnsealBlob :: "config \<Rightarrow> u64 option \<Rightarrow> cominitCliArgs_t \<Rightarrow> cominitTpmState_t op" where
  "cominitTpmUnsealBlob cfg ectx argCtx = do {
     (h, primaryHandle) \<leftarrow> cominitTpmLoadPrimaryHandle cfg;
     if h \<noteq> EXIT_SUCCESS then return TpmFailure
     else do {
       (b, pub, priv) \<leftarrow> cominitTpmLoadBlob cfg;
       if b \<noteq> EXIT_SUCCESS then return TpmFailure
       else cominitTpmUnseal cfg ectx primaryHandle pub priv argCtx } }"

section \<open>Secure storage\<close>

definition mkfs_argv :: "config \<Rightarrow> string list" where
  "mkfs_argv cfg = [''/sbin/mkfs.ext4'', ''-F'', COMINIT_TPM_SECURE_STORAGE_LOCATION cfg]"

definition cominitTpmFormatSecureStorage :: "config \<Rightarrow> int op" where
  "cominitTpmFormatSecureStorage cfg =
     cominitSubprocessSpawn (Some ''/sbin/mkfs.ext4'') (Some (mkfs_argv cfg)) (Some [])"

definition cominitTpmSetupSecureStorage :: "config \<Rightarrow> cominitCliArgs_t \<Rightarrow> bool \<Rightarrow> int op" where
  "cominitTpmSetupSecureStorage cfg argCtx isFirstBoot =
     (if isFirstBoot then do {
        a \<leftarrow> cominitSecurememoryCreateLuksVolume cfg (Some (devNodeCrypt argCtx));
        if a \<noteq> EXIT_SUCCESS then return a else do {
        b \<leftarrow> cominitCryptsetupAddToken cfg (Some (devNodeCrypt argCtx));
        if b \<noteq> EXIT_SUCCESS then return b else do {
        c \<leftarrow> cominitCryptsetupOpenLuksVolume cfg (Some (devNodeCrypt argCtx));
        if c \<noteq> EXIT_SUCCESS then return c else
        cominitTpmFormatSecureStorage cfg } } }
      else cominitCryptsetupOpenLuksVolume cfg (Some (devNodeCrypt argCtx)))"

text \<open>The codes are those of the source: 1 for the directory, -1 for the mount.\<close>
definition cominitTpmMountSecureStorage :: "config \<Rightarrow> int op" where
  "cominitTpmMountSecureStorage cfg = do {
     result \<leftarrow> cominitMkdir COMINIT_TPM_SECURE_STORAGE_MNT S_IRWXU;
     if result \<noteq> EXIT_SUCCESS then return result
     else do {
       m \<leftarrow> sys (Fs (Mount (COMINIT_TPM_SECURE_STORAGE_LOCATION cfg) COMINIT_TPM_SECURE_STORAGE_MNT
              (Some ''ext4'') []));
       return (if rc m \<noteq> 0 then - EXIT_FAILURE else EXIT_SUCCESS) } }"

text \<open>The \<^verbatim>\<open>switch\<close> over the state of the blob partition.\<close>
definition protect_blob ::
    "config \<Rightarrow> u64 option \<Rightarrow> cominitCliArgs_t \<Rightarrow> cominitBlobState_t \<Rightarrow> cominitTpmState_t op" where
  "protect_blob cfg ectx argCtx blobState =
     (case blobState of
        BlobIsEmpty \<Rightarrow> do {
          s \<leftarrow> cominitTpmSealBlob cfg ectx argCtx;
          u \<leftarrow> (if s = Sealed then cominitTpmUnsealBlob cfg ectx argCtx else return s);
          if u = Unsealed then do {
            r \<leftarrow> cominitTpmSetupSecureStorage cfg argCtx True;
            return (if r \<noteq> EXIT_SUCCESS then TpmFailure else u) }
          else return u }
      | BlobExists \<Rightarrow> do {
          u \<leftarrow> cominitTpmUnsealBlob cfg ectx argCtx;
          if u = Unsealed then do {
            r \<leftarrow> cominitTpmSetupSecureStorage cfg argCtx False;
            return (if r \<noteq> EXIT_SUCCESS then TpmFailure else u) }
          else return u }
      | BlobNotFound \<Rightarrow> return TpmFailure)"

definition cominitTpmProtectData ::
    "config \<Rightarrow> cominitTpmContext_t \<Rightarrow> cominitCliArgs_t \<Rightarrow> cominitTpmState_t op" where
  "cominitTpmProtectData cfg tpmCtx argCtx = do {
     blobState \<leftarrow> cominitTpmSetupBlob argCtx;
     tpmState \<leftarrow> protect_blob cfg (address (esysCtx tpmCtx)) argCtx blobState;
     cominitTpmUnmountBlob;
     return tpmState }"

section \<open>Context and PCR extension\<close>

text \<open>After a failed initialisation the pointer is as before, or \<^verbatim>\<open>NULL\<close> if the library cleared it.\<close>
definition out_pointer :: "reply \<Rightarrow> pointer \<Rightarrow> pointer" where
  "out_pointer r old = (if rc r = 0 then To (val r) else if val2 r = 0 then old else Null)"

definition cominitInitTpm :: "cominitTpmContext_t option \<Rightarrow> (int \<times> cominitTpmContext_t option) op" where
  "cominitInitTpm tpmCtx =
     (case tpmCtx of
        None \<Rightarrow> return (EXIT_FAILURE, None)
      | Some ctx \<Rightarrow>
          if cominitTpmLoadDriver \<noteq> EXIT_SUCCESS then return (cominitTpmLoadDriver, Some ctx)
          else do {
            t \<leftarrow> sys (Tpm (Tcti_initialize ''device:/dev/tpm0''));
            let ctx1 = ctx\<lparr>tctiCtx := out_pointer t (tctiCtx ctx)\<rparr>;
            if rc t \<noteq> 0 then return (EXIT_FAILURE, Some ctx1)
            else do {
              e \<leftarrow> sys (Tpm Esys_initialize);
              let ctx2 = ctx1\<lparr>esysCtx := out_pointer e (esysCtx ctx1)\<rparr>;
              if rc e \<noteq> 0 then return (EXIT_FAILURE, Some ctx2)
              else do { s \<leftarrow> cominitTpmSelftest; return (s, Some ctx2) } } })"

definition cominitTpmExtendPCR ::
    "config \<Rightarrow> cominitTpmContext_t option \<Rightarrow> string option \<Rightarrow> u64 \<Rightarrow> int op" where
  "cominitTpmExtendPCR cfg tpmCtx keyfile pcr =
     (case (tpmCtx, keyfile) of
        (Some ctx, Some kf) \<Rightarrow> do {
          (r, digest) \<leftarrow> cominitCreateSHA256DigestfromKeyfile (Some kf) (Some (replicate SHA256_LEN 0))
                          SHA256_LEN;
          if r \<noteq> EXIT_SUCCESS then return r
          else do {
            let pcrTR = take_bit 32 (esys_tr_pcr0 cfg + pcr);
            x \<leftarrow> sys (Tpm (Esys_PCR_Extend pcrTR (the digest)));
            return (if rc x \<noteq> 0 then EXIT_FAILURE else r) } }
      | _ \<Rightarrow> return EXIT_FAILURE)"

text \<open>The condition is evaluated from left to right; a pointer that was never written is read.\<close>
definition cominitDeleteTpm :: "cominitTpmContext_t option \<Rightarrow> int op" where
  "cominitDeleteTpm tpmCtx =
     (case tpmCtx of
        None \<Rightarrow> return EXIT_FAILURE
      | Some ctx \<Rightarrow>
          if tctiCtx ctx = Unset then do { halt (Undefined Uninitialised); return EXIT_FAILURE }
          else if tctiCtx ctx = Null then return EXIT_FAILURE
          else if esysCtx ctx = Unset then do { halt (Undefined Uninitialised); return EXIT_FAILURE }
          else if esysCtx ctx = Null then return EXIT_FAILURE
          else do {
            run (Tpm Tcti_finalize);
            run (Tpm Esys_finalize);
            return EXIT_SUCCESS })"

definition cominitTpmHandlePolicyFailure :: "cominitTpmContext_t option \<Rightarrow> int" where
  "cominitTpmHandlePolicyFailure tpmCtx =
     (case tpmCtx of None \<Rightarrow> EXIT_FAILURE | Some _ \<Rightarrow> EXIT_SUCCESS)"

section \<open>The selected PCRs\<close>

lemma select_pcr_bits:
  "select_pcr_loop pcrs sel = Inr sel' \<Longrightarrow> length sel' = length sel \<and>
   (\<forall>i < 8 * length sel. bit (sel' ! (i div 8)) (i mod 8) \<longleftrightarrow>
      bit (sel ! (i div 8)) (i mod 8) \<or> i \<in> unat ` set pcrs)"
proof (induction pcrs arbitrary: sel)
  case (Cons pcr pcrs)
  let ?k = "unat pcr div 8" and ?j = "unat pcr mod 8"
  let ?sel = "sel[?k := sel ! ?k OR push_bit ?j 1]"
  from Cons.prems have k: "?k < length sel" and rest: "select_pcr_loop pcrs ?sel = Inr sel'"
    by (auto simp: Let_def split: if_splits)
  from Cons.IH [OF rest] have ih: "length sel' = length sel" "\<And>i. i < 8 * length sel \<Longrightarrow>
      bit (sel' ! (i div 8)) (i mod 8) \<longleftrightarrow> bit (?sel ! (i div 8)) (i mod 8) \<or> i \<in> unat ` set pcrs"
    by auto
  have one: "bit (?sel ! (i div 8)) (i mod 8) \<longleftrightarrow> bit (sel ! (i div 8)) (i mod 8) \<or> i = unat pcr"
    if i: "i < 8 * length sel" for i
  proof (cases "i div 8 = ?k")
    case True
    then have "i = unat pcr \<longleftrightarrow> i mod 8 = ?j" by (metis div_mod_decomp)
    with True k show ?thesis
      by (auto simp: bit_or_iff bit_exp_iff possible_bit_word)
  next
    case False
    then show ?thesis by auto
  qed
  show ?case using ih one by auto
qed simp

lemma select_pcr_in_bounds:
  "(\<forall>pcr \<in> set pcrs. unat pcr < 8 * length sel) \<Longrightarrow> \<exists>sel'. select_pcr_loop pcrs sel = Inr sel'"
proof (induction pcrs arbitrary: sel)
  case (Cons pcr pcrs)
  then have "unat pcr div 8 < length sel" by (simp add: less_mult_imp_div_less mult.commute)
  with Cons show ?case by (simp add: Let_def)
qed simp

lemma select_pcr_out_of_bounds:
  "pcr \<in> set pcrs \<Longrightarrow> 8 * length sel \<le> unat pcr \<Longrightarrow> select_pcr_loop pcrs sel = Inl OutOfBounds"
proof (induction pcrs arbitrary: sel)
  case (Cons p pcrs)
  show ?case
  proof (cases "unat p div 8 < length sel")
    case True
    then have "unat p < 8 * length sel" by simp
    with Cons.prems have "p \<noteq> pcr" by auto
    with Cons True show ?thesis by (auto simp: Let_def)
  next
    case False
    then show ?thesis by (simp add: Let_def)
  qed
qed simp

section \<open>Footprints\<close>

text \<open>What the TPM part may do: mount the blob partition and the secure storage, and run
  \<^verbatim>\<open>cryptsetup\<close> and \<^verbatim>\<open>mkfs.ext4\<close>.\<close>
definition tpm_event :: "config \<Rightarrow> event \<Rightarrow> bool" where
  "tpm_event cfg e \<longleftrightarrow> secure_event cfg e \<or> (case e of
      (Fs (Mkdir _ _), _) \<Rightarrow> True | (Fs (Stat _), _) \<Rightarrow> True | (Fs (Access _), _) \<Rightarrow> True
    | (Fs (Mount s t ty fl), _) \<Rightarrow> t = COMINIT_TPM_MNT_PT
        \<or> t = COMINIT_TPM_SECURE_STORAGE_MNT \<and> s = COMINIT_TPM_SECURE_STORAGE_LOCATION cfg
    | (Fs (Umount t), _) \<Rightarrow> t = COMINIT_TPM_MNT_PT
    | (Stream (Fopen p _), _) \<Rightarrow> p = blob_path | (Stream _, _) \<Rightarrow> True
    | (Proc (Execve p a), _) \<Rightarrow> a = mkfs_argv cfg \<and> p = ''/sbin/mkfs.ext4'' | _ \<Rightarrow> False)"

text \<open>Formatting: \<^verbatim>\<open>cryptsetup luksFormat\<close> or \<^verbatim>\<open>mkfs\<close>.\<close>
definition formats :: "config \<Rightarrow> cominitCliArgs_t \<Rightarrow> event \<Rightarrow> bool" where
  "formats cfg args e = (case e of
      (Proc (Execve _ a), _) \<Rightarrow> a = luks_format_argv cfg (devNodeCrypt args) \<or> a = mkfs_argv cfg
    | _ \<Rightarrow> False)"

lemma tpm_event_simps [simp]:
  "tpm_event cfg (Tpm t, r)" "tpm_event cfg (Key k, r)" "tpm_event cfg (Mem m, r)" "tpm_event cfg (Pk c, r)"
  "tpm_event cfg (Fs (Mkdir p n), r)" "tpm_event cfg (Fs (Stat p), r)" "tpm_event cfg (Fs (Access p), r)"
  "tpm_event cfg (Fs (Umount p), r) = (p = COMINIT_TPM_MNT_PT)"
  "tpm_event cfg (Stream (Fread n), r)" "tpm_event cfg (Stream (Fwrite b), r)"
  "tpm_event cfg (Stream Fclose, r)" "tpm_event cfg (Stream (Fopen blob_path md), r)"
  "tpm_event cfg (Fs (Mount s COMINIT_TPM_MNT_PT ty fl), r)"
  "tpm_event cfg (Fs (Mount (COMINIT_TPM_SECURE_STORAGE_LOCATION cfg) COMINIT_TPM_SECURE_STORAGE_MNT ty fl), r)"
  by (auto simp: tpm_event_def secure_event_def)

lemma formats_simps [simp]:
  "\<not> formats cfg a (Tpm t, r)" "\<not> formats cfg a (Key k, r)" "\<not> formats cfg a (Mem m, r)"
  "\<not> formats cfg a (Pk c, r)" "\<not> formats cfg a (Fs f, r)" "\<not> formats cfg a (Stream s, r)"
  by (simp_all add: formats_def)

lemma luks_argv_differ [simp]:
  "luks_open_argv cfg d \<noteq> luks_format_argv cfg d'" "luks_open_argv cfg d \<noteq> mkfs_argv cfg"
  by (simp_all add: luks_open_argv_def luks_format_argv_def mkfs_argv_def)

text \<open>The operations of the unsealing branch, with a footprint that has no formatting in it.\<close>
definition calm_event :: "config \<Rightarrow> cominitCliArgs_t \<Rightarrow> event \<Rightarrow> bool" where
  "calm_event cfg args e \<longleftrightarrow> tpm_event cfg e \<and> \<not> formats cfg args e"

lemma calm_event_simps [simp]:
  "calm_event cfg a (Tpm t, r)" "calm_event cfg a (Key k, r)" "calm_event cfg a (Mem m, r)"
  "calm_event cfg a (Pk c, r)" "calm_event cfg a (Fs (Mkdir p n), r)" "calm_event cfg a (Fs (Stat p), r)"
  "calm_event cfg a (Fs (Access p), r)"
  "calm_event cfg a (Fs (Umount p), r) = (p = COMINIT_TPM_MNT_PT)"
  "calm_event cfg a (Stream (Fread n), r)" "calm_event cfg a (Stream (Fwrite b), r)"
  "calm_event cfg a (Stream Fclose, r)" "calm_event cfg a (Stream (Fopen blob_path md), r)"
  "calm_event cfg a (Fs (Mount s COMINIT_TPM_MNT_PT ty fl), r)"
  "calm_event cfg a (Fs (Mount (COMINIT_TPM_SECURE_STORAGE_LOCATION cfg) COMINIT_TPM_SECURE_STORAGE_MNT ty fl), r)"
  by (simp_all add: calm_event_def)

lemma emits_mkdir_loop: "emits (calm_event cfg a) (mkdir_loop mode cur ts)"
  by (induction ts arbitrary: cur) (auto intro!: emits_intros)

lemma emits_mkdir [emits_intros]: "emits (calm_event cfg a) (cominitMkdir d mode)"
  unfolding cominitMkdir_def by (auto intro!: emits_intros emits_mkdir_loop)

lemma emits_setup_blob [emits_intros]: "emits (calm_event cfg a) (cominitTpmSetupBlob args)"
  unfolding cominitTpmSetupBlob_def by (auto intro!: emits_intros)

lemma calm_key_event: "key_event e \<Longrightarrow> calm_event cfg a e"
  by (auto simp: key_event_def split: call.splits)

lemma calm_passphrase_event: "passphrase_event e \<Longrightarrow> calm_event cfg a e"
  by (auto simp: passphrase_event_def calm_event_def tpm_event_def secure_event_def formats_def
      split: call.splits stream_call.splits)

lemma emits_unseal_key [emits_intros]:
  "emits (calm_event cfg a) (cominitSecurememoryEsysUnseal cfg ectx blob sess)"
  unfolding cominitSecurememoryEsysUnseal_def
  by (auto split: option.split intro!: emits_intros emits_mono [OF add_key.footprint calm_key_event])

lemma emits_create_blob [emits_intros]:
  "emits (calm_event cfg a) (cominitSecurememoryEsysCreate cfg ectx prim digest)"
  unfolding cominitSecurememoryEsysCreate_def
  by (auto split: option.split
      intro!: emits_intros emits_mono [OF passphrase.footprint calm_passphrase_event])

lemma emits_policy_pcr [emits_intros]: "emits (calm_event cfg a) (policy_pcr cfg args sess)"
  unfolding policy_pcr_def by (auto split: sum.split intro!: emits_intros)

lemma emits_seal_blob [emits_intros]: "emits (calm_event cfg a) (cominitTpmSealBlob cfg ectx args)"
  unfolding cominitTpmSealBlob_def cominitTpmSeal_def seal_session_def cominitTpmSavePrimaryHandle_def
    cominitTpmSaveBlob_def
  by (auto split: option.split intro!: emits_intros)

lemma emits_unseal_blob [emits_intros]: "emits (calm_event cfg a) (cominitTpmUnsealBlob cfg ectx args)"
  unfolding cominitTpmUnsealBlob_def cominitTpmUnseal_def unseal_session_def cominitTpmLoadBlob_def
    cominitTpmLoadPrimaryHandle_def
  by (auto split: option.split intro!: emits_intros)

lemma calm_open_event:
  assumes "spawn_event (cryptsetup_dir cfg) (luks_open_argv cfg d) e"
  shows "calm_event cfg a e"
proof -
  obtain c r where e: "e = (c, r)" by fastforce
  note unfolds = spawn_event_def calm_event_def tpm_event_def secure_event_def formats_def
  show ?thesis
  proof (cases c)
    case (Proc q)
    with assms e show ?thesis by (cases q) (auto simp: unfolds)
  qed (use assms e in \<open>auto simp: unfolds split: fs_call.splits\<close>)
qed

lemma emits_open_storage:
  "emits (calm_event cfg a) (cominitTpmSetupSecureStorage cfg args False)"
  unfolding cominitTpmSetupSecureStorage_def
  by (auto intro!: emits_mono [OF luks_open.footprint calm_open_event])

lemma tpm_spawn_event:
  "spawn_event (cryptsetup_dir cfg) args e \<Longrightarrow> Suc 0 < length args \<Longrightarrow> tpm_event cfg e"
  "spawn_event ''/sbin/mkfs.ext4'' (mkfs_argv cfg) e \<Longrightarrow> tpm_event cfg e"
  by (auto simp: spawn_event_def tpm_event_def secure_event_def
      split: call.splits fs_call.splits proc_call.splits)

lemma emits_setup_storage [emits_intros]:
  "emits (tpm_event cfg) (cominitTpmSetupSecureStorage cfg args first)"
  unfolding cominitTpmSetupSecureStorage_def cominitTpmFormatSecureStorage_def
  by (auto intro!: emits_intros emits_mono [OF luks_open.footprint tpm_spawn_event(1) [OF _ luks_argv_length(2)]]
      emits_mono [OF add_token.footprint tpm_spawn_event(1) [OF _ luks_argv_length(3)]]
      emits_mono [OF spawn.footprint tpm_spawn_event(2)] emits_mono [OF create_luks.footprint]
      simp: tpm_event_def)

lemma calm_tpm: "emits (calm_event cfg undefined) m \<Longrightarrow> emits (tpm_event cfg) m"
  by (erule emits_mono) (simp add: calm_event_def)

lemma emits_protect_blob [emits_intros]: "emits (tpm_event cfg) (protect_blob cfg ectx args b)"
  unfolding protect_blob_def
  by (auto split: cominitBlobState_t.split intro!: emits_intros
      calm_tpm [OF emits_seal_blob] calm_tpm [OF emits_unseal_blob])

lemma emits_protect_calm: "b \<noteq> BlobIsEmpty \<Longrightarrow> emits (calm_event cfg a) (protect_blob cfg ectx args b)"
  unfolding protect_blob_def
  by (auto split: cominitBlobState_t.split intro!: emits_intros emits_open_storage)

interpretation protect_data: operation "cominitTpmProtectData cfg ctx args" "tpm_event cfg"
  unfolding cominitTpmProtectData_def cominitTpmUnmountBlob_def
  by unfold_locales (auto intro!: emits_intros calm_tpm [OF emits_setup_blob])

interpretation mount_storage: operation "cominitTpmMountSecureStorage cfg" "tpm_event cfg"
  unfolding cominitTpmMountSecureStorage_def
  by unfold_locales (auto intro!: emits_intros calm_tpm [OF emits_mkdir])

interpretation init_tpm: operation "cominitInitTpm ctx" "tpm_event cfg"
  unfolding cominitInitTpm_def cominitTpmSelftest_def
  by unfold_locales (auto split: option.split intro!: emits_intros)

interpretation extend_pcr: operation "cominitTpmExtendPCR cfg ctx keyfile pcr" "tpm_event cfg"
  unfolding cominitTpmExtendPCR_def
  by unfold_locales (auto simp: pk_event_def split: option.split call.splits
      intro!: emits_intros emits_mono [OF key_digest.footprint])

interpretation delete_tpm: operation "cominitDeleteTpm ctx" "tpm_event cfg"
  unfolding cominitDeleteTpm_def
  by unfold_locales (auto split: option.split intro!: emits_intros)

section \<open>Outcomes\<close>

lemma unseal_key_states:
  "returns (\<lambda>s. s \<noteq> Sealed) (cominitSecurememoryEsysUnseal cfg ectx blob sess)"
  unfolding cominitSecurememoryEsysUnseal_def
  by (auto split: option.split prod.split if_splits intro!: returns_structure
      returns_bind [where m = "cominitKeyringAddUserKey d k n" for d k n]
      returns_bind_spec [where R = "\<lambda>(s, k). s \<noteq> Sealed"])

lemma unseal_blob_states: "returns (\<lambda>s. s \<noteq> Sealed) (cominitTpmUnsealBlob cfg ectx args)"
proof -
  have sess: "returns (\<lambda>(s, h). s \<noteq> Sealed) (unseal_session cfg ectx blob args)" for blob
    unfolding unseal_session_def
    by (auto intro!: returns_structure returns_bind [where m = "policy_pcr cfg args s" for s]
        returns_bind_spec [OF unseal_key_states])
  have unseal: "returns (\<lambda>s. s \<noteq> Sealed) (cominitTpmUnseal cfg ectx prim pub priv args)" for prim pub priv
    unfolding cominitTpmUnseal_def
    by (auto intro!: returns_structure sess returns_bind_spec [where R = "\<lambda>(s, h). s \<noteq> Sealed"])
  show ?thesis
    unfolding cominitTpmUnsealBlob_def
    by (auto intro!: returns_structure unseal returns_bind [where m = "cominitTpmLoadPrimaryHandle cfg"]
        returns_bind [where m = "cominitTpmLoadBlob cfg"])
qed

text \<open>The states \<^verbatim>\<open>cominitTpmProtectData\<close> documents: it never returns \<^const>\<open>Sealed\<close>.\<close>
lemma protect_states: "returns (\<lambda>s. s \<noteq> Sealed) (cominitTpmProtectData cfg ctx args)"
proof -
  have "returns (\<lambda>s. s \<noteq> Sealed) (protect_blob cfg ectx args b)" for ectx b
    unfolding protect_blob_def
    by (auto split: cominitBlobState_t.split if_splits intro!: returns_structure unseal_blob_states
        returns_bind [where m = "cominitTpmSealBlob cfg e args" for e]
        returns_bind [where m = "cominitTpmSetupSecureStorage cfg args b" for b]
        returns_bind_spec [OF unseal_blob_states] returns_bind_spec [where R = "\<lambda>s. s \<noteq> Sealed"])
  then show ?thesis
    unfolding cominitTpmProtectData_def cominitTpmUnmountBlob_def
    by (auto intro!: returns_structure returns_bind [where m = "cominitTpmSetupBlob args"]
        returns_bind_spec [where R = "\<lambda>s. s \<noteq> Sealed"])
qed

text \<open>The blob partition is unmounted last, whatever happened.\<close>
lemma protect_unmounts:
  assumes "run_state (cominitTpmProtectData cfg ctx args) w = (s, w')" and "status w' = Running"
  shows "\<exists>ext r. trace w' = trace w @ ext @ [(Fs (Umount COMINIT_TPM_MNT_PT), r)]"
proof -
  obtain b w1 where b: "run_state (cominitTpmSetupBlob args) w = (b, w1)" by fastforce
  obtain x w2 where x: "run_state (protect_blob cfg (address (esysCtx ctx)) args b) w1 = (x, w2)"
    by fastforce
  have last: "run_state cominitTpmUnmountBlob w2 = ((), w')"
    using assms(1) b x by (auto simp: cominitTpmProtectData_def split: prod.splits)
  from emitsD(3) [OF emits_setup_blob b] emitsD(3) [OF emits_protect_blob x] obtain ext where
    "trace w2 = trace w @ ext" by force
  with last assms(2) show ?thesis
    by (auto simp: cominitTpmUnmountBlob_def run_def sys_def Let_def split: if_splits)
qed

text \<open>An empty blob partition was reported as such by \<^verbatim>\<open>access\<close>.\<close>
lemma setup_blob_empty:
  assumes "run_state (cominitTpmSetupBlob args) w = (BlobIsEmpty, w1)"
  shows "\<exists>r. (Fs (Access blob_path), r) \<in> set (trace w1) \<and> rc r \<noteq> 0 \<and> err r = ENOENT"
proof -
  from assms obtain w2 a w3 e w4 where a: "run_state (sys (Fs (Access blob_path))) w2 = (a, w3)"
    and ra: "rc a \<noteq> 0" "err a = ENOENT"
    and m: "run_state (cominitMkdir COMINIT_TPM_MNT_PT S_IRWXU) w3 = (e, w1)"
    by (auto simp: cominitTpmSetupBlob_def split: if_splits prod.splits)
  have "trace w3 = trace w2 @ [(Fs (Access blob_path), a)]"
    using ra by (intro sys_answered(3) [OF a]) auto
  moreover have "\<exists>ext. trace w1 = trace w3 @ ext" using emitsD(3) [OF emits_mkdir m] by blast
  ultimately show ?thesis using ra by auto
qed

text \<open>Nothing is formatted unless the blob partition was found empty.\<close>
lemma protect_formats:
  assumes run: "run_state (cominitTpmProtectData cfg ctx args) w = (s, w')"
    and new: "e \<in> set (trace w')" "e \<notin> set (trace w)" and fmt: "formats cfg args e"
  shows "\<exists>r. (Fs (Access blob_path), r) \<in> set (trace w') \<and> rc r \<noteq> 0 \<and> err r = ENOENT"
proof -
  obtain b w1 where b: "run_state (cominitTpmSetupBlob args) w = (b, w1)" by fastforce
  let ?rest = "do { s \<leftarrow> protect_blob cfg (address (esysCtx ctx)) args b; cominitTpmUnmountBlob; return s }"
  from run b have rest: "run_state ?rest w1 = (s, w')" by (simp add: cominitTpmProtectData_def)
  have before: "e \<notin> set (trace w1)"
    using emitsD(3) [OF emits_setup_blob [of cfg args args] b] new(2) fmt
    by (auto simp: calm_event_def)
  have "b = BlobIsEmpty"
  proof (rule ccontr)
    assume "b \<noteq> BlobIsEmpty"
    then have "emits (calm_event cfg args) ?rest"
      by (auto simp: cominitTpmUnmountBlob_def intro!: emits_intros emits_protect_calm)
    from emitsD(3) [OF this rest] before new(1) fmt show False by (auto simp: calm_event_def)
  qed
  with b setup_blob_empty obtain r where
    "(Fs (Access blob_path), r) \<in> set (trace w1)" "rc r \<noteq> 0" "err r = ENOENT" by blast
  moreover have "emits (tpm_event cfg) ?rest"
    by (auto simp: cominitTpmUnmountBlob_def intro!: emits_intros)
  ultimately show ?thesis using emitsD(3) [OF _ rest] by fastforce
qed

text \<open>
  What an unsealed key rests on: in one session the policy over the selected PCRs was satisfied, the
  TPM unsealed the key in that session, and this key is in the keyring under the name of the secure
  storage.
\<close>
definition key_unsealed :: "config \<Rightarrow> cominitCliArgs_t \<Rightarrow> event list \<Rightarrow> bool" where
  "key_unsealed cfg args ext \<longleftrightarrow> (\<exists>sel sess blob p u k.
     cominitTpmSelectPcr args (replicate (pcr_select_max cfg) 0) = Inr sel
     \<and> (Tpm (Esys_PolicyPCR sess 3 (take 3 sel)), p) \<in> set ext \<and> rc p = 0
     \<and> (Tpm (Esys_Unseal blob sess), u) \<in> set ext \<and> rc u = 0
     \<and> (Key (Add_key COMINIT_TPM_SECURE_STORAGE_KEY_NAME (bytes u)), k) \<in> set ext \<and> rc k \<noteq> - 1)"

lemma key_unsealed_mono: "key_unsealed cfg args ext \<Longrightarrow> set ext \<subseteq> set ext' \<Longrightarrow> key_unsealed cfg args ext'"
  unfolding key_unsealed_def by blast

lemma unseal_key_added:
  assumes "status w = Running"
  shows "wp (cominitSecurememoryEsysUnseal cfg ectx (Some blob) (Some sess)) (\<lambda>s w'. status w' = Running
     \<and> (\<exists>ext. trace w' = trace w @ ext \<and> (s = Unsealed \<longrightarrow>
          (\<exists>u k. (Tpm (Esys_Unseal blob sess), u) \<in> set ext \<and> rc u = 0
            \<and> (Key (Add_key COMINIT_TPM_SECURE_STORAGE_KEY_NAME (bytes u)), k) \<in> set ext \<and> rc k \<noteq> - 1)))) w"
  unfolding cominitSecurememoryEsysUnseal_def cominitKeyringAddUserKey_def
  using assms by (auto intro!: vcg split: if_splits option.split)

lemma unseal_session_key:
  assumes "status w = Running"
  shows "wp (unseal_session cfg ectx blob args) (\<lambda>(s, h) w'.
     (\<exists>ext. trace w' = trace w @ ext \<and> (s = Unsealed \<longrightarrow> status w' = Running \<and> key_unsealed cfg args ext))) w"
proof -
  have tail: "wp (cominitSecurememoryEsysUnseal cfg ectx (Some blob) (Some sess)) (\<lambda>s w'.
       wp (return (s, sess)) (\<lambda>(s, h) w'. (\<exists>ext. trace w' = trace w @ ext
         \<and> (s = Unsealed \<longrightarrow> status w' = Running \<and> key_unsealed cfg args ext))) w') w1"
    if "status w1 = Running" "trace w1 = trace w @ pre @ [(Tpm (Esys_PolicyPCR sess 3 (take 3 sel)), p)]"
      "rc p = 0" "cominitTpmSelectPcr args (replicate (pcr_select_max cfg) 0) = Inr sel"
    for sess w1 pre sel p
    by (rule wp_mono [OF unseal_key_added [OF that(1)]])
      (use that in \<open>auto simp: wp_simps key_unsealed_def; blast\<close>)
  show ?thesis
    unfolding unseal_session_def policy_pcr_def using assms
    by (auto intro!: vcg tail)
qed

lemma unseal_blob_key:
  assumes "run_state (cominitTpmUnsealBlob cfg ectx args) w = (Unsealed, w')"
  shows "\<exists>ext. trace w' = trace w @ ext \<and> key_unsealed cfg args ext"
proof -
  from assms obtain prim w1 pub priv w2 l w3 h w4 w5 where
    steps: "run_state (cominitTpmLoadPrimaryHandle cfg) w = ((0, prim), w1)"
      "run_state (cominitTpmLoadBlob cfg) w1 = ((0, pub, priv), w2)"
      "run_state (sys (Tpm (Esys_Load prim priv pub))) w2 = (l, w3)"
      "run_state (unseal_session cfg ectx (val l) args) w3 = ((Unsealed, h), w4)"
      "run_state (run (Tpm (Esys_FlushContext h))) w4 = ((), w5)"
      "run_state (run (Tpm (Esys_FlushContext (val l)))) w5 = ((), w')" and l: "rc l = 0"
    by (auto simp: cominitTpmUnsealBlob_def cominitTpmUnseal_def Let_def split: prod.splits if_splits)
  have foot: "emits (\<lambda>_. True) (cominitTpmLoadPrimaryHandle cfg)" "emits (\<lambda>_. True) (cominitTpmLoadBlob cfg)"
    "emits (\<lambda>_. True) (run c)" for c
    unfolding cominitTpmLoadPrimaryHandle_def cominitTpmLoadBlob_def by (auto intro!: emits_intros)
  have "status w3 = Running" "\<exists>x. trace w3 = trace w2 @ x"
    using sys_answered [OF steps(3)] l by auto
  with wp_run_state [OF unseal_session_key steps(4)] obtain ext x where
    "trace w4 = trace w3 @ ext" "key_unsealed cfg args ext" "trace w3 = trace w2 @ x" by auto
  moreover from emitsD(3) [OF foot(1) steps(1)] emitsD(3) [OF foot(2) steps(2)]
    emitsD(3) [OF foot(3) steps(5)] emitsD(3) [OF foot(3) steps(6)]
  obtain a b c d where "trace w1 = trace w @ a" "trace w2 = trace w1 @ b" "trace w5 = trace w4 @ c"
    "trace w' = trace w5 @ d" by auto
  ultimately show ?thesis
    by (intro exI [of _ "a @ b @ x @ ext @ c @ d"]) (auto elim: key_unsealed_mono)
qed

lemma seal_blob_states: "returns (\<lambda>s. s \<noteq> Unsealed) (cominitTpmSealBlob cfg ectx args)"
  unfolding cominitTpmSealBlob_def by (auto intro!: returns_intros split: if_splits)

lemma protect_unsealed:
  assumes "run_state (cominitTpmProtectData cfg ctx args) w = (Unsealed, w')"
  shows "\<exists>ext. trace w' = trace w @ ext \<and> key_unsealed cfg args ext"
proof -
  let ?ectx = "address (esysCtx ctx)"
  obtain b w1 where b: "run_state (cominitTpmSetupBlob args) w = (b, w1)" by fastforce
  from assms b obtain w2 where
    p: "run_state (protect_blob cfg ?ectx args b) w1 = (Unsealed, w2)"
    and last: "run_state cominitTpmUnmountBlob w2 = ((), w')"
    by (auto simp: cominitTpmProtectData_def split: prod.splits)
  from p obtain w3 w4 first x where
    u: "run_state (cominitTpmUnsealBlob cfg ?ectx args) w3 = (Unsealed, w4)"
    and s: "run_state (cominitTpmSetupSecureStorage cfg args first) w4 = (x, w2)"
    and pre: "w3 = w1 \<or> (\<exists>y. run_state (cominitTpmSealBlob cfg ?ectx args) w1 = (y, w3))"
    by (auto simp: protect_blob_def split: cominitBlobState_t.splits prod.splits if_splits
        dest: returnsD [OF seal_blob_states])
  from pre obtain a where a: "trace w3 = trace w1 @ a" using emitsD(3) [OF emits_seal_blob] by fastforce
  from unseal_blob_key [OF u] obtain ext where ext: "trace w4 = trace w3 @ ext" "key_unsealed cfg args ext"
    by blast
  from emitsD(3) [OF emits_setup_blob [of cfg args args] b] emitsD(3) [OF emits_setup_storage s]
    emitsD(3) [OF emits_run [where K = "\<lambda>_. True"] last [unfolded cominitTpmUnmountBlob_def]]
  obtain c d e where "trace w1 = trace w @ c" "trace w2 = trace w4 @ d" "trace w' = trace w2 @ e" by auto
  with a ext show ?thesis
    by (intro exI [of _ "c @ a @ ext @ d @ e"]) (auto elim: key_unsealed_mono)
qed

end
