(* ===== verification/Version.thy ===== *)
theory Version
  imports Config
begin

text \<open>
  src/version.c.in: the version string. The build puts the parts of the version in the places of
  \<^verbatim>\<open>@...@\<close>; the part of the source revision is empty when it is not known.
\<close>

text \<open>\<^verbatim>\<open>sizeof\<close> of a literal counts its NUL.\<close>
definition cominitGetVersionString :: "config \<Rightarrow> string" where
  "cominitGetVersionString cfg =
     (if length (version_git cfg) + 1 > 1
      then version_major cfg @ ''.'' @ version_minor cfg @ ''.'' @ version_micro cfg @ ''.'' @ version_git cfg
      else version_major cfg @ ''.'' @ version_minor cfg @ ''.'' @ version_micro cfg)"

text \<open>The parts can be read off the string: they are its tokens, three or four.\<close>
lemma version_tokens:
  assumes "\<forall>p \<in> {version_major cfg, version_minor cfg, version_micro cfg}. p \<noteq> [] \<and> CHR ''.'' \<notin> set p"
    and "CHR ''.'' \<notin> set (version_git cfg)"
  shows "tokens ''.'' (cominitGetVersionString cfg)
     = [version_major cfg, version_minor cfg, version_micro cfg] @ (if version_git cfg = [] then [] else [version_git cfg])"
proof -
  have dot: "tokens ''.'' (p @ CHR ''.'' # r) = p # tokens ''.'' r" if "p \<noteq> []" "CHR ''.'' \<notin> set p" for p r
    using that by (intro tokens_Some strtok.token_first) auto
  have one: "tokens ''.'' p = [p]" if "p \<noteq> []" "CHR ''.'' \<notin> set p" for p
  proof -
    have "strtok_r ''.'' p = Some (p, [])" using that by (intro strtok.token_last) auto
    then show ?thesis using strtok.token_none by simp
  qed
  show ?thesis using assms by (simp add: cominitGetVersionString_def dot one)
qed

end
