(* ===== verification/Simulation.thy ===== *)
theory Simulation
  imports Machine
begin

text \<open>
  Programs against state machines over events: a step of a machine consumes the events of one or
  several calls, and an operation simulates the machine if the events it appends to the trace are a
  run of it. The rules follow the structure of a program, as those for footprints do; they are used
  for the phases of the boot and for the resources the process holds.
\<close>

section \<open>Runs\<close>

inductive steps :: "('p \<Rightarrow> event list \<Rightarrow> 'p \<Rightarrow> bool) \<Rightarrow> 'p \<Rightarrow> event list \<Rightarrow> 'p \<Rightarrow> bool" for S where
  none: "steps S p [] p"
| more: "S p x q \<Longrightarrow> steps S q y r \<Longrightarrow> steps S p (x @ y) r"

lemma steps_append: "steps S p x q \<Longrightarrow> steps S q y r \<Longrightarrow> steps S p (x @ y) r"
  by (induction rule: steps.induct) (auto intro: steps.more)

lemma steps_one: "S p x q \<Longrightarrow> steps S p x q"
  using steps.more [OF _ steps.none, of S p x q] by simp

lemma steps_stay:
  "(\<And>e. K e \<Longrightarrow> S p [e] p) \<Longrightarrow> \<forall>e \<in> set x. K e \<Longrightarrow> steps S p x p"
proof (induction x)
  case (Cons e x)
  then have "steps S p ([e] @ x) p" by (intro steps.more) auto
  then show ?case by simp
qed (rule steps.none)

text \<open>What every step adds to a property of the past is there before an event: the event is made in a
  step from some state, and the rest of its step comes after it.\<close>
lemma steps_event:
  assumes "steps S p tr q" and "I p h" and keep: "\<And>p x q h. S p x q \<Longrightarrow> I p h \<Longrightarrow> I q (h @ x)"
    and "tr = before @ e # after"
  shows "\<exists>p' us vs q' b. S p' (us @ e # vs) q' \<and> before = b @ us \<and> I p' (h @ b)"
  using assms(1,2,4)
proof (induction arbitrary: h before rule: steps.induct)
  case (more p x q y r)
  from more.prems(2) consider (here) vs where "x = before @ e # vs" | (later) b where "before = x @ b" "y = b @ e # after"
    by (auto simp: append_eq_append_conv2 append_eq_Cons_conv)
  then show ?case
  proof cases
    case here
    with more.hyps(1) more.prems(1) show ?thesis by (metis append_Nil append_Nil2)
  next
    case later
    from more.IH [OF keep [OF more.hyps(1) more.prems(1)] later(2)] obtain p' us vs q' b' where
      "S p' (us @ e # vs) q'" "b = b' @ us" "I p' ((h @ x) @ b')" by blast
    with later(1) show ?thesis by (metis append_assoc)
  qed
qed simp

section \<open>Simulation\<close>

text \<open>From state \<open>p\<close> of the machine on, what \<open>m\<close> does is a run; when the process still runs, the result and
  the state reached are in \<open>Q\<close>.\<close>
definition simulates :: "('p \<Rightarrow> event list \<Rightarrow> 'p \<Rightarrow> bool) \<Rightarrow> 'p \<Rightarrow> 'a op \<Rightarrow> ('a \<Rightarrow> 'p \<Rightarrow> bool) \<Rightarrow> bool" where
  "simulates S p m Q \<longleftrightarrow> (\<forall>w. wp m (\<lambda>a w'. \<exists>x q. trace w' = trace w @ x \<and> steps S p x q
     \<and> (status w' = Running \<longrightarrow> Q a q)) w)"

lemma simulatesI:
  "(\<And>w a w'. run_state m w = (a, w') \<Longrightarrow> \<exists>x q. trace w' = trace w @ x \<and> steps S p x q
     \<and> (status w' = Running \<longrightarrow> Q a q)) \<Longrightarrow> simulates S p m Q"
  by (auto simp: simulates_def intro!: wpI)

lemma simulatesD:
  "simulates S p m Q \<Longrightarrow> run_state m w = (a, w') \<Longrightarrow> \<exists>x q. trace w' = trace w @ x \<and> steps S p x q
     \<and> (status w' = Running \<longrightarrow> Q a q)"
  unfolding simulates_def by (blast dest: wp_run_state)

lemma sim_mono: "simulates S p m Q \<Longrightarrow> (\<And>a q. Q a q \<Longrightarrow> Q' a q) \<Longrightarrow> simulates S p m Q'"
  unfolding simulates_def by (fast intro: wp_mono)

lemma sim_return: "Q a p \<Longrightarrow> simulates S p (return a) Q"
  by (auto simp: simulates_def wp_simps intro: steps.none)

text \<open>A process that has ended makes no further call.\<close>
lemma sim_bind:
  assumes m: "simulates S p m R" and rest: "\<And>a. emits (\<lambda>_. True) (f a)"
    and f: "\<And>a q. R a q \<Longrightarrow> simulates S q (f a) Q"
  shows "simulates S p (State_Monad.bind m f) Q"
proof (rule simulatesI)
  fix w b w'' assume h: "run_state (State_Monad.bind m f) w = (b, w'')"
  obtain a w' where a: "run_state m w = (a, w')" by fastforce
  with h have b: "run_state (f a) w' = (b, w'')" by simp
  from simulatesD [OF m a] obtain x q where x: "trace w' = trace w @ x" "steps S p x q"
    "status w' = Running \<longrightarrow> R a q" by blast
  show "\<exists>x q. trace w'' = trace w @ x \<and> steps S p x q \<and> (status w'' = Running \<longrightarrow> Q b q)"
  proof (cases "status w' = Running")
    case True
    with x f have "simulates S q (f a) Q" by blast
    from simulatesD [OF this b] x show ?thesis by (metis append_assoc steps_append)
  next
    case False
    with emitsD(4) [OF rest b] have "w'' = w'" by blast
    with x False show ?thesis by auto
  qed
qed

lemma sim_events:
  assumes "emits K m" and "\<And>e. K e \<Longrightarrow> S p [e] p" and "returns P m"
  shows "simulates S p m (\<lambda>a q. q = p \<and> P a)"
proof (rule simulatesI)
  fix w a w' assume h: "run_state m w = (a, w')"
  from emitsD(3) [OF assms(1) h] obtain x where "trace w' = trace w @ x" "\<forall>e \<in> set x. K e" by blast
  with steps_stay [of K S p x] assms(2) returnsD [OF assms(3) h]
  show "\<exists>x q. trace w' = trace w @ x \<and> steps S p x q \<and> (status w' = Running \<longrightarrow> q = p \<and> P a)" by blast
qed

lemma returns_any: "returns (\<lambda>_. True) m"
  by (simp add: returns_def wp_def)

lemma sim_loop: "emits K m \<Longrightarrow> (\<And>e. K e \<Longrightarrow> S p [e] p) \<Longrightarrow> simulates S p m (\<lambda>_ q. q = p)"
  using sim_events [OF _ _ returns_any, of K m S p] by simp

lemma sim_if:
  "(b \<Longrightarrow> simulates S p m Q) \<Longrightarrow> (\<not> b \<Longrightarrow> simulates S p n Q) \<Longrightarrow> simulates S p (if b then m else n) Q"
  by simp

lemma sim_option:
  "(x = None \<Longrightarrow> simulates S p m Q) \<Longrightarrow> (\<And>a. x = Some a \<Longrightarrow> simulates S p (f a) Q) \<Longrightarrow>
   simulates S p (case x of None \<Rightarrow> m | Some a \<Rightarrow> f a) Q"
  by (cases x) simp_all

lemma sim_sum:
  "(\<And>a. x = Inl a \<Longrightarrow> simulates S p (f a) Q) \<Longrightarrow> (\<And>b. x = Inr b \<Longrightarrow> simulates S p (g b) Q) \<Longrightarrow>
   simulates S p (case x of Inl a \<Rightarrow> f a | Inr b \<Rightarrow> g b) Q"
  by (cases x) simp_all

lemma sim_pair:
  "(\<And>a b. p' = (a, b) \<Longrightarrow> simulates S p (f a b) Q) \<Longrightarrow> simulates S p (case p' of (a, b) \<Rightarrow> f a b) Q"
  by (cases p') simp

lemma sim_Let: "(\<And>x. x = a \<Longrightarrow> simulates S p (f x) Q) \<Longrightarrow> simulates S p (let x = a in f x) Q"
  by (simp add: Let_def)

lemma sim_sys:
  assumes "\<And>r. \<exists>q. steps S p [(c, r)] q \<and> Q r q"
  shows "simulates S p (sys c) Q"
proof (rule simulatesI)
  fix w r w' assume h: "run_state (sys c) w = (r, w')"
  show "\<exists>x q. trace w' = trace w @ x \<and> steps S p x q \<and> (status w' = Running \<longrightarrow> Q r q)"
  proof (cases "status w = Running")
    case True
    with h have "trace w' = trace w @ [(c, r)]" by (auto simp: sys_def Let_def)
    with assms [of r] show ?thesis by blast
  next
    case False
    with h have "w' = w" by (auto simp: sys_def)
    with False show ?thesis by (auto intro: steps.none)
  qed
qed

lemma sim_run: "(\<And>r. \<exists>q. steps S p [(c, r)] q \<and> Q () q) \<Longrightarrow> simulates S p (run c) Q"
  unfolding run_def by (rule sim_bind [OF sim_sys [where Q = "\<lambda>_. Q ()"]]) (auto intro!: emits_intros sim_return)

text \<open>After \<open>halt\<close> nothing more has to be shown.\<close>
lemma sim_halt: "s \<noteq> Running \<Longrightarrow> simulates S p (halt s) Q"
  by (rule simulatesI) (auto simp: halt_def intro!: exI [of _ p] steps.none split: if_splits)

text \<open>What \<^verbatim>\<open>rest\<close> asks for in \<open>sim_bind\<close> follows from a footprint.\<close>
lemma inert: "emits K m \<Longrightarrow> emits (\<lambda>_. True) m"
  by (erule emits_mono) simp

lemmas sim_structure = sim_return sim_if sim_option sim_sum sim_pair sim_Let

end
