(* ===== verification/Cominit.thy ===== *)
theory Cominit
  imports Minsetup Automount Tpm Version Simulation
begin

unbundle bit_operations_syntax

text \<open>
  src/cominit.c: the main program. \<^verbatim>\<open>goto rescue\<close> is an early return of \<open>boot\<close>; the rescue shell is
  started by \<open>main\<close> after it. The argument loop is in theory \<open>Options\<close>.
\<close>

section \<open>Version and usage\<close>

definition cominitPrintVersion :: "config \<Rightarrow> unit op" where
  "cominitPrintVersion cfg =
     run (Stream (Print_stdout (''Compact Init (cominit) version '' @ cominitGetVersionString cfg @ [CHR 0x0A])))"

definition usage_text :: string where
  "usage_text =
     ''USAGE: cominit must be started by the Kernel as PID 1 from initramfs to set up a rootfs according to its'' @ [CHR 0x0A]
     @ ''       metadata and then switch into it. The location of the rootfs partition (e.g. ''
     @ ''/dev/<blkdevice><partno>)'' @ [CHR 0x0A]
     @ ''       is determined through an argument passed to cominit by the bootloader on the kernel command line.'' @ [CHR 0x0A]"

definition cominitPrintUsage :: "config \<Rightarrow> unit op" where
  "cominitPrintUsage cfg = do {
     cominitPrintVersion cfg;
     run (Stream (Print_stdout usage_text)) }"

section \<open>Waiting\<close>

definition COMINIT_ROOT_WAIT_TRIES :: nat where [lits]: "COMINIT_ROOT_WAIT_TRIES = 10"
definition COMINIT_ROOT_WAIT_INTERVAL_MILLIS :: u64 where
  [lits]: "COMINIT_ROOT_WAIT_INTERVAL_MILLIS = 500"

text \<open>\<^verbatim>\<open>+=\<close> on a \<^verbatim>\<open>time_t\<close>, a signed number of 64 bits; \<open>None\<close> is an overflow.\<close>
definition add_time :: "int \<Rightarrow> int \<Rightarrow> int option" where
  "add_time t d = (if - (2 ^ 63) \<le> t + d \<and> t + d < 2 ^ 63 then Some (t + d) else None)"

text \<open>The absolute time of waking up: seconds and nanoseconds, both signed. The nanoseconds are computed with
  unsigned numbers.\<close>
definition wake_time :: "u64 \<Rightarrow> int \<Rightarrow> int \<Rightarrow> (int \<times> int) option" where
  "wake_time micros tv_sec tv_nsec =
     (case add_time tv_sec (uint (micros div 1000000)) of
        None \<Rightarrow> None
      | Some s \<Rightarrow>
          (let nsec = (micros mod 1000000) * 1000 + of_int tv_nsec in
           case add_time s (uint (nsec div 1000000000)) of
             None \<Rightarrow> None
           | Some s' \<Rightarrow> Some (s', uint (nsec mod 1000000000))))"

text \<open>\<^verbatim>\<open>do ... while (ret == -1 && errno == EINTR)\<close>\<close>
primrec sleep_loop :: "nat \<Rightarrow> int \<times> int \<Rightarrow> int op" where
  "sleep_loop 0 t = do { halt Spinning; return (- 1) }"
| "sleep_loop (Suc n) t = do {
     r \<leftarrow> sys (Proc (Nanosleep (fst t) (snd t)));
     if rc r = - 1 \<and> err r = EINTR then sleep_loop n t else return (rc r) }"

definition cominitMicroSleep :: "u64 \<Rightarrow> int op" where
  "cominitMicroSleep micros = do {
     c \<leftarrow> sys (Proc Clock_gettime);
     if rc c = - 1 then return (- 1)
     else (case wake_time micros (sint (val c)) (sint (val2 c)) of
         None \<Rightarrow> do { halt (Undefined SignedOverflow); return (- 1) }
       | Some t \<Rightarrow> do {
           n \<leftarrow> get_fuel;
           ret \<leftarrow> sleep_loop n t;
           return (if ret = - 1 then - 1 else 0) }) }"

section \<open>Discovery\<close>

definition cominitDiscoverRootfs ::
    "cominitCliArgs_t option \<Rightarrow> cominitRfsMetaData_t option \<Rightarrow> cominitGPTDisk_t option
       \<Rightarrow> (bool \<times> cominitRfsMetaData_t option \<times> cominitGPTDisk_t option) op" where
  "cominitDiscoverRootfs argCtx rfsMeta gptDiskRoot =
     (case (argCtx, rfsMeta, gptDiskRoot) of
        (Some args, Some meta, Some disk) \<Rightarrow>
          if devNodeRootFs args \<noteq> [] then do {
            s \<leftarrow> sys (Fs (Stat (devNodeRootFs args)));
            return (if rc s = 0 then (True, Some (meta\<lparr>devicePath := devNodeRootFs args\<rparr>), Some disk)
                    else (False, Some meta, Some disk)) }
          else do {
            (r, disk', name) \<leftarrow> cominitAutomountFindPartition (Some disk) (Some COMINIT_ROOTFS_GUID_TYPE)
               (Some (devicePath meta)) COMINIT_ROOTFS_DEV_PATH_MAX;
            return (r = EXIT_SUCCESS, Some (meta\<lparr>devicePath := the name\<rparr>), disk') }
      | _ \<Rightarrow> return (False, rfsMeta, gptDiskRoot))"

text \<open>The \<^verbatim>\<open>while\<close> loop around it, with the number of further tries; \<open>None\<close> is \<^verbatim>\<open>goto rescue\<close>.\<close>
primrec discover_loop ::
    "nat \<Rightarrow> cominitCliArgs_t \<Rightarrow> cominitRfsMetaData_t \<Rightarrow> cominitGPTDisk_t
       \<Rightarrow> (cominitRfsMetaData_t \<times> cominitGPTDisk_t) option op" where
  "discover_loop 0 args meta disk = do {
     (found, m, d) \<leftarrow> cominitDiscoverRootfs (Some args) (Some meta) (Some disk);
     return (if found then Some (the m, the d) else None) }"
| "discover_loop (Suc n) args meta disk = do {
     (found, m, d) \<leftarrow> cominitDiscoverRootfs (Some args) (Some meta) (Some disk);
     if found then return (Some (the m, the d))
     else do {
       _ \<leftarrow> cominitMicroSleep (COMINIT_ROOT_WAIT_INTERVAL_MILLIS * 1000);
       discover_loop n args (the m) (the d) } }"

section \<open>SELinux\<close>

text \<open>\<^verbatim>\<open>mmap\<close> delivers the contents of the file; \<^verbatim>\<open>MAP_FAILED\<close> is a code of -1.\<close>
definition cominitLoadSelinuxPolicy :: "string option \<Rightarrow> int op" where
  "cominitLoadSelinuxPolicy policyPath =
     (case policyPath of
        None \<Rightarrow> return EXIT_FAILURE
      | Some path \<Rightarrow> do {
          o' \<leftarrow> sys (Fs (Open path [O_RDONLY, O_CLOEXEC]));
          let fd = rc o';
          if fd < 0 then return EXIT_FAILURE
          else do {
            st \<leftarrow> sys (Fs (Fstat fd));
            result \<leftarrow>
              (if rc st < 0 then return EXIT_FAILURE
               else do {
                 m \<leftarrow> sys (Fs (Mmap fd (val st)));
                 if rc m = - 1 then return EXIT_FAILURE
                 else do {
                   l \<leftarrow> sys (Fs (Open ''/sys/fs/selinux/load'' [O_RDWR, O_CLOEXEC]));
                   res \<leftarrow> (if rc l < 0 then return EXIT_FAILURE
                          else do {
                            x \<leftarrow> sys (Fs (Write (rc l) (bytes m) (unat (val st))));
                            run (Fs (Close (rc l)));
                            return (if rc x < 0 then EXIT_FAILURE else EXIT_SUCCESS) });
                   run (Fs (Munmap (val st)));
                   return res } });
            run (Fs (Close fd));
            return result } })"

text \<open>\<^verbatim>\<open>%d\<close>\<close>
definition sdec :: "int \<Rightarrow> string" where
  "sdec n = (if n < 0 then ''-'' @ udec (nat (- n)) else udec (nat n))"

definition cominitSetSelinuxMode :: "int \<Rightarrow> int op" where
  "cominitSetSelinuxMode mode = do {
     o' \<leftarrow> sys (Fs (Open ''/sys/fs/selinux/enforce'' [O_RDWR, O_CLOEXEC]));
     if rc o' < 0 then return EXIT_FAILURE
     else do {
       x \<leftarrow> sys (Fs (Write (rc o') (bytes_of (sdec mode)) (length (sdec mode))));
       run (Fs (Close (rc o')));
       return (if rc x < 0 then EXIT_FAILURE else EXIT_SUCCESS) } }"

text \<open>Results of the single steps are logged only.\<close>
definition selinux_setup :: "config \<Rightarrow> cominitCliArgs_t \<Rightarrow> unit op" where
  "selinux_setup cfg args =
     (if enableSelinux args then do {
        s \<leftarrow> cominitSetupSysSelinuxfiles;
        if s = - 1 then return ()
        else do {
          _ \<leftarrow> cominitLoadSelinuxPolicy (Some (initrd_selinux_policy cfg));
          _ \<leftarrow> cominitLoadSelinuxPolicy (Some (rootfs_selinux_policy cfg));
          if enableEnforceMode args then do { _ \<leftarrow> cominitSetSelinuxMode 1; return () }
          else return () } }
      else return ())"

section \<open>TPM\<close>

text \<open>The search for the secure storage partition.\<close>
definition find_secure_storage :: "cominitCliArgs_t \<Rightarrow> cominitGPTDisk_t \<Rightarrow> cominitCliArgs_t op" where
  "find_secure_storage args disk =
     (if devNodeCrypt args \<noteq> [] then return args
      else if diskName disk \<noteq> [] then do {
        (_, name) \<leftarrow> cominitAutomountFindPartitionOnDisk (Some disk) (Some COMINIT_SECURE_STORAGE_GUID_TYPE)
           (Some (devNodeCrypt args)) COMINIT_ROOTFS_DEV_PATH_MAX;
        return (args\<lparr>devNodeCrypt := the name\<rparr>) }
      else do {
        (_, _, name) \<leftarrow> cominitAutomountFindPartition (Some gptDisk_zero)
           (Some COMINIT_SECURE_STORAGE_GUID_TYPE) (Some (devNodeCrypt args)) COMINIT_ROOTFS_DEV_PATH_MAX;
        return (args\<lparr>devNodeCrypt := the name\<rparr>) })"

text \<open>The block \<^verbatim>\<open>if (cominitUseTpm(...))\<close>; the cases of the \<^verbatim>\<open>switch\<close> differ in what they log.\<close>
definition tpm_block :: "config \<Rightarrow> cominitCliArgs_t \<Rightarrow> unit op" where
  "tpm_block cfg args =
     (if cominitUseTpm (Some args) then do {
        (result, ctx) \<leftarrow> cominitInitTpm (Some tpmCtx_unset);
        (if result \<noteq> EXIT_SUCCESS then return ()
         else do {
           (if cominitTpmExtendEnabled (Some args) then do {
              _ \<leftarrow> cominitTpmExtendPCR cfg ctx (Some COMINIT_ROOTFS_KEY_LOCATION) (pcrIndex args);
              return () }
            else return ());
           (if cominitTpmSecureStorageEnabled (Some args) then do {
              state \<leftarrow> cominitTpmProtectData cfg (the ctx) args;
              case state of
                TpmPolicyFailure \<Rightarrow> let _ = cominitTpmHandlePolicyFailure ctx in return ()
              | _ \<Rightarrow> return () }
            else return ()) });
        _ \<leftarrow> cominitDeleteTpm ctx;
        return () }
      else return ())"

section \<open>Main\<close>

text \<open>What follows the cleanup: the switch and the \<^verbatim>\<open>execve\<close>.\<close>
definition switch_and_exec :: "unit op" where
  "switch_and_exec = do {
     s \<leftarrow> cominitSwitchIntoRootfs;
     if s = - 1 then return ()
     else do { _ \<leftarrow> execve ''/sbin/init'' [''/sbin/init'']; return () } }"

text \<open>From the setup of the rootfs on.\<close>
definition enter_rootfs :: "config \<Rightarrow> cominitCliArgs_t \<Rightarrow> cominitRfsMetaData_t \<Rightarrow> unit op" where
  "enter_rootfs cfg args meta = do {
     (e, _) \<leftarrow> cominitSetupRootfs cfg (Some meta);
     if e = - 1 then return ()
     else do {
       (if use_tpm cfg \<and> cominitTpmSecureStorageEnabled (Some args)
        then do { _ \<leftarrow> cominitTpmMountSecureStorage cfg; return () } else return ());
       selinux_setup cfg args;
       (if enableSelinux args then do { _ \<leftarrow> cominitCleanupSelinuxfiles; return () } else return ());
       _ \<leftarrow> cominitCleanupSysfiles;
       switch_and_exec } }"

text \<open>After the metadata have been verified.\<close>
definition boot_verified ::
    "config \<Rightarrow> cominitCliArgs_t \<Rightarrow> cominitRfsMetaData_t \<Rightarrow> cominitGPTDisk_t \<Rightarrow> unit op" where
  "boot_verified cfg args meta disk =
     (if crypt meta AND COMINIT_CRYPTOPT_CRYPT \<noteq> 0 then return ()
      else if use_tpm cfg then do {
        args' \<leftarrow> find_secure_storage args disk;
        tpm_block cfg args';
        enter_rootfs cfg args' meta }
      else enter_rootfs cfg args meta)"

definition boot :: "config \<Rightarrow> cominitCliArgs_t \<Rightarrow> unit op" where
  "boot cfg args = do {
     s \<leftarrow> cominitSetupSysfiles;
     if s = - 1 then return ()
     else do {
       (if fake_hsm cfg then do { _ \<leftarrow> cominitKeyringInitFakeHsm cfg; return () } else return ());
       found \<leftarrow> discover_loop COMINIT_ROOT_WAIT_TRIES args rfsMeta_zero gptDisk_zero;
       (case found of
          None \<Rightarrow> return ()
        | Some (meta, disk) \<Rightarrow> do {
            (e, meta') \<leftarrow> cominitLoadVerifyMetadata cfg meta COMINIT_ROOTFS_KEY_LOCATION;
            if e = - 1 then return () else boot_verified cfg args meta' disk }) } }"

definition rescue :: "int op" where
  "rescue = do {
     _ \<leftarrow> execve ''/bin/sh'' [''/bin/sh''];
     return EXIT_FAILURE }"

text \<open>The logger's context is state of src/output.c that \<open>main\<close> changes.\<close>
definition main :: "config \<Rightarrow> string list \<Rightarrow> cominitLogContext_t \<Rightarrow> (int \<times> cominitLogContext_t) op" where
  "main cfg argv log =
     (case parse_args cfg argv (argCtx_init cfg) of
        Inl PrintVersion \<Rightarrow> do { cominitPrintVersion cfg; return (EXIT_FAILURE, log) }
      | Inl PrintUsage \<Rightarrow> do { cominitPrintUsage cfg; return (EXIT_FAILURE, log) }
      | Inr args \<Rightarrow> do {
          run (Proc Setsid);
          run (Proc (Umask 0));
          let log' = cominitOutputSetVisibleLogLevel (visibleLogLevel args) log;
          boot cfg args;
          r \<leftarrow> rescue;
          return (r, log') })"

section \<open>Footprints\<close>

text \<open>
  What must not happen before the metadata are verified: mounting anything but the pseudo
  filesystems, setting up the device mapper, deleting files, changing the root, using the TPM, and
  running a program other than the rescue shell.
\<close>
definition boot_event :: "event \<Rightarrow> bool" where
  "boot_event e = (case e of
      (Fs (Mount s t _ _), _) \<Rightarrow> \<not> (s = ''none'' \<and> t \<in> {''/dev'', ''/proc'', ''/sys/fs/selinux''})
    | (Fs (Chroot _), _) \<Rightarrow> True
    | (Fs (Unlink _), _) \<Rightarrow> True | (Fs (Rmdir _), _) \<Rightarrow> True | (Fs (Mknod _ _ _), _) \<Rightarrow> True
    | (Dev (Dm_dev_create _ _ _), _) \<Rightarrow> True | (Dev (Dm_table_load _ _ _ _ _ _ _ _ _), _) \<Rightarrow> True
    | (Dev (Dm_dev_suspend _ _ _), _) \<Rightarrow> True | (Tpm _, _) \<Rightarrow> True
    | (Proc (Execve p _), _) \<Rightarrow> p \<noteq> ''/bin/sh'' | _ \<Rightarrow> False)"

definition quiet_event :: "event \<Rightarrow> bool" where
  "quiet_event e \<longleftrightarrow> \<not> boot_event e"

lemma quiet_event_simps [simp]:
  "quiet_event (Proc Setsid, r)" "quiet_event (Proc (Umask m), r)" "quiet_event (Proc Clock_gettime, r)"
  "quiet_event (Proc (Nanosleep a b), r)" "quiet_event (Fs (Stat p), r)" "quiet_event (Pk c, r)" "quiet_event (Stream s, r)"
  "quiet_event (Proc (Execve p args), r) = (p = ''/bin/sh'')"
  by (auto simp: quiet_event_def boot_event_def)

lemma quiet_sysfiles: "sysfiles_event e \<Longrightarrow> quiet_event e"
  by (auto simp: sysfiles_event_def quiet_event_def boot_event_def
      split: call.splits fs_call.splits proc_call.splits)
    (metis fs_call.exhaust, metis proc_call.exhaust)

lemma quiet_enrol: "enrol_event e \<Longrightarrow> quiet_event e"
  by (auto simp: enrol_event_def quiet_event_def boot_event_def
      split: call.splits fs_call.splits)
    (metis fs_call.exhaust)

lemma quiet_scan: "scan_event e \<Longrightarrow> quiet_event e"
  by (auto simp: scan_event_def quiet_event_def boot_event_def
      split: call.splits fs_call.splits dev_call.splits)
    (metis fs_call.exhaust, metis dev_call.exhaust)

lemma quiet_load: "load_event e \<Longrightarrow> quiet_event e"
  by (auto simp: load_event_def quiet_event_def boot_event_def
      split: call.splits fs_call.splits dev_call.splits)
    (metis fs_call.exhaust, metis dev_call.exhaust)

lemma emits_print: "emits quiet_event (cominitPrintVersion cfg)" "emits quiet_event (cominitPrintUsage cfg)"
  unfolding cominitPrintUsage_def cominitPrintVersion_def by (auto intro!: emits_intros)

lemma emits_sleep_loop: "emits quiet_event (sleep_loop n t)"
  by (induction n) (auto intro!: emits_intros)

lemma emits_sleep [emits_intros]: "emits quiet_event (cominitMicroSleep m)"
  unfolding cominitMicroSleep_def by (auto intro!: emits_intros emits_sleep_loop)

lemma emits_discover [emits_intros]: "emits quiet_event (cominitDiscoverRootfs a m d)"
  unfolding cominitDiscoverRootfs_def
  by (auto split: option.split intro!: emits_intros emits_mono [OF find_partition.footprint quiet_scan])

lemma emits_discover_loop [emits_intros]: "emits quiet_event (discover_loop n args meta disk)"
  by (induction n arbitrary: meta disk) (auto intro!: emits_intros)

interpretation discovery: operation "discover_loop n args meta disk" quiet_event
  by unfold_locales (rule emits_discover_loop)

text \<open>SELinux: policies and mode are written to files.\<close>
definition selinux_event :: "event \<Rightarrow> bool" where
  "selinux_event e \<longleftrightarrow> sysfiles_event e \<or> (case e of
      (Fs (Open _ _), _) \<Rightarrow> True | (Fs (Fstat _), _) \<Rightarrow> True | (Fs (Mmap _ _), _) \<Rightarrow> True
    | (Fs (Munmap _), _) \<Rightarrow> True | (Fs (Write _ _ _), _) \<Rightarrow> True | (Fs (Close _), _) \<Rightarrow> True | _ \<Rightarrow> False)"

lemma emits_selinux: "emits selinux_event (selinux_setup cfg args)"
  unfolding selinux_setup_def cominitLoadSelinuxPolicy_def cominitSetSelinuxMode_def
  by (auto simp: selinux_event_def intro!: emits_intros emits_mono [OF selinuxfiles.footprint])

interpretation selinux: operation "selinux_setup cfg args" selinux_event
  by unfold_locales (rule emits_selinux)

text \<open>After verification: everything the boot does, given the verified metadata.\<close>
definition verified_event :: "config \<Rightarrow> cominitRfsMetaData_t \<Rightarrow> event \<Rightarrow> bool" where
  "verified_event cfg meta e \<longleftrightarrow> tpm_event cfg e \<or> scan_event e \<or> selinux_event e
     \<or> rootfs_event cfg meta e \<or> switch_event e \<or> (\<exists>disk. disk_event disk e)
     \<or> (case e of (Proc (Execve p a), _) \<Rightarrow> p = ''/sbin/init'' \<and> a = [''/sbin/init''] | _ \<Rightarrow> False)"

lemma emits_find_storage: "emits (verified_event cfg meta) (find_secure_storage args disk)"
  unfolding find_secure_storage_def
  by (auto simp: verified_event_def intro!: emits_intros
      emits_mono [OF emits_find_on_disk] emits_mono [OF find_partition.footprint])

lemma emits_tpm_block: "emits (verified_event cfg meta) (tpm_block cfg args)"
proof -
  have "emits (tpm_event cfg) (tpm_block cfg args)"
    unfolding tpm_block_def
    by (auto split: cominitTpmState_t.split intro!: emits_intros init_tpm.footprint extend_pcr.footprint
        protect_data.footprint delete_tpm.footprint)
  then show ?thesis by (rule emits_mono) (simp add: verified_event_def)
qed

lemma emits_enter_rootfs: "emits (verified_event cfg meta) (enter_rootfs cfg args meta)"
proof -
  have parts: "emits (verified_event cfg meta) (cominitSetupRootfs cfg (Some meta))"
    "emits (verified_event cfg meta) (cominitTpmMountSecureStorage cfg)"
    "emits (verified_event cfg meta) (selinux_setup cfg args)"
    "emits (verified_event cfg meta) cominitCleanupSelinuxfiles"
    "emits (verified_event cfg meta) cominitCleanupSysfiles"
    "emits (verified_event cfg meta) cominitSwitchIntoRootfs"
    by (rule emits_mono [OF setup_rootfs.footprint] emits_mono [OF mount_storage.footprint]
        emits_mono [OF selinux.footprint] emits_mono [OF cleanup_selinux.footprint]
        emits_mono [OF cleanup_sys.footprint] emits_mono [OF switch_root.footprint];
        simp add: verified_event_def selinux_event_def)+
  show ?thesis
    unfolding enter_rootfs_def switch_and_exec_def
    by (auto intro!: emits_intros parts) (simp_all add: verified_event_def)
qed

lemma emits_boot_verified: "emits (verified_event cfg meta) (boot_verified cfg args meta disk)"
  unfolding boot_verified_def
  by (auto intro!: emits_intros emits_find_storage emits_tpm_block emits_enter_rootfs)

interpretation verified_boot: operation "boot_verified cfg args meta disk" "verified_event cfg meta"
  by unfold_locales (rule emits_boot_verified)

section \<open>Verified boot\<close>

definition trace_of_main ::
    "(event list \<Rightarrow> call \<Rightarrow> reply) \<Rightarrow> nat \<Rightarrow> config \<Rightarrow> string list \<Rightarrow> cominitLogContext_t \<Rightarrow> event list" where
  "trace_of_main E n cfg argv log = trace (snd (run_state (main cfg argv log) (start E n)))"

text \<open>
  The record a region describes: what parsing its text gives for the device it was read from, with the
  calls made while parsing, which fetch the keys.
\<close>
definition describes :: "string \<Rightarrow> byte list \<Rightarrow> event list \<Rightarrow> cominitRfsMetaData_t \<Rightarrow> bool" where
  "describes dev metabuf parse meta \<longleftrightarrow> (\<exists>w w'. status w = Running \<and> status w' = Running \<and> trace w' = trace w @ parse
     \<and> run_state (cominitParseMetadata (Some (rfsMeta_zero\<lparr>devicePath := dev\<rparr>)) (Some (cstr metabuf))) w
         = ((0, Some meta), w'))"

lemma describes_device: "describes dev metabuf parse meta \<Longrightarrow> devicePath meta = dev"
  unfolding describes_def by (elim exE conjE) (drule returnsD [OF parse_device], simp)

text \<open>The calls of a verification: the region of a device is read, its signature accepted and its text
  parsed to a record.\<close>
definition verifies :: "event list \<Rightarrow> cominitRfsMetaData_t \<Rightarrow> bool" where
  "verifies ext meta \<longleftrightarrow> (\<exists>metabuf reads acc parse. ext = reads @ acc @ parse
     \<and> region_accepted COMINIT_ROOTFS_KEY_LOCATION (devicePath meta) metabuf reads acc
     \<and> describes (devicePath meta) metabuf parse meta)"

text \<open>
  A run in which a metadata region was accepted: up to the end of its parsing nothing happened but
  quiet events; what follows is what the boot does with the record parsed from that region.
\<close>
definition verified_run :: "config \<Rightarrow> event list \<Rightarrow> bool" where
  "verified_run cfg tr \<longleftrightarrow> (\<exists>meta pre ver post. tr = pre @ ver @ post \<and> verifies ver meta
     \<and> list_all quiet_event (pre @ ver)
     \<and> list_all (\<lambda>e. quiet_event e \<or> verified_event cfg meta e
          \<and> crypt meta AND COMINIT_CRYPTOPT_CRYPT = 0) post)"

lemma verified_run_extend:
  assumes "verified_run cfg tr" and "list_all quiet_event a" and "list_all quiet_event b"
  shows "verified_run cfg (a @ tr @ b)"
proof -
  from assms(1) obtain meta pre ver post where v: "tr = pre @ ver @ post" "verifies ver meta"
    "list_all quiet_event (pre @ ver)"
    "list_all (\<lambda>e. quiet_event e \<or> verified_event cfg meta e \<and> crypt meta AND COMINIT_CRYPTOPT_CRYPT = 0) post"
    unfolding verified_run_def by blast
  have "list_all (\<lambda>e. quiet_event e \<or> verified_event cfg meta e
      \<and> crypt meta AND COMINIT_CRYPTOPT_CRYPT = 0) (post @ b)"
    using v(4) assms(3) by (auto simp: list_all_iff)
  moreover have "list_all quiet_event ((a @ pre) @ ver)" using v(3) assms(2) by simp
  ultimately show ?thesis
    unfolding verified_run_def using v
    by (intro exI [of _ meta] exI [of _ "a @ pre"] exI [of _ ver] exI [of _ "post @ b"]) simp
qed

lemma load_codes: "returns (\<lambda>(e, m). e = 0 \<or> e = - 1) (cominitLoadVerifyMetadata cfg meta key)"
  unfolding cominitLoadVerifyMetadata_def by (auto intro!: returns_intros)

text \<open>A successful loading for the device found is a verification.\<close>
lemma load_verifies:
  assumes "run_state (cominitLoadVerifyMetadata cfg (rfsMeta_zero\<lparr>devicePath := dev\<rparr>) COMINIT_ROOTFS_KEY_LOCATION) w
      = ((0, m), w')" and "status w' = Running"
  shows "\<exists>ver. trace w' = trace w @ ver \<and> verifies ver m"
proof -
  let ?z = "rfsMeta_zero\<lparr>devicePath := dev\<rparr>"
  from load_accepted [OF assms] obtain metabuf reads acc where
    acc: "region_accepted COMINIT_ROOTFS_KEY_LOCATION dev metabuf reads acc"
    and p: "run_state (cominitParseMetadata (Some ?z) (Some (cstr metabuf))) (w\<lparr>trace := trace w @ reads @ acc\<rparr>)
      = ((0, Some m), w')" by auto
  from emitsD(3) [OF emits_parse p] obtain parse where parse: "trace w' = (trace w @ reads @ acc) @ parse" by auto
  have "status (w\<lparr>trace := trace w @ reads @ acc\<rparr>) = Running"
    using emitsD(4) [OF emits_parse p] assms(2) by metis
  with p parse assms(2) have "describes dev metabuf parse m"
    unfolding describes_def by (intro exI [of _ "w\<lparr>trace := trace w @ reads @ acc\<rparr>"] exI [of _ w']) simp
  with acc parse describes_device [OF this] show ?thesis
    unfolding verifies_def by (intro exI [of _ "reads @ acc @ parse"]) auto
qed

text \<open>Loading the metadata and what depends on it.\<close>
lemma load_then_boot:
  assumes "run_state (do { (e, meta') \<leftarrow> cominitLoadVerifyMetadata cfg (rfsMeta_zero\<lparr>devicePath := dev\<rparr>) COMINIT_ROOTFS_KEY_LOCATION;
      if e = - 1 then return () else boot_verified cfg args meta' disk }) w = ((), w')"
  shows "\<exists>ext. trace w' = trace w @ ext \<and> (list_all quiet_event ext \<or> verified_run cfg ext)"
proof -
  obtain e m w1 where l: "run_state (cominitLoadVerifyMetadata cfg (rfsMeta_zero\<lparr>devicePath := dev\<rparr>) COMINIT_ROOTFS_KEY_LOCATION) w
      = ((e, m), w1)" by (metis surj_pair)
  from emitsD(3) [OF load_metadata.footprint l] obtain x where
    x: "trace w1 = trace w @ x" "list_all quiet_event x" by (auto simp: list_all_iff intro: quiet_load)
  show ?thesis
  proof (cases "e = - 1 \<or> status w1 \<noteq> Running")
    case True
    then have "w' = w1"
      using assms l verified_boot.halted_noop by (auto split: if_splits)
    with x show ?thesis by auto
  next
    case False
    with returnsD [OF load_codes l] have e: "e = 0" and run: "status w1 = Running" by auto
    from load_verifies [OF l [unfolded e] run] x(1) have ver: "verifies x m" by auto
    have b: "run_state (boot_verified cfg args m disk) w1 = ((), w')" using assms l e by simp
    from emitsD(3) [OF emits_boot_verified b] obtain post where
      post: "trace w' = trace w1 @ post" "list_all (verified_event cfg m) post"
      by (auto simp: list_all_iff)
    have "crypt m AND COMINIT_CRYPTOPT_CRYPT = 0 \<or> post = []"
      using b post(1) by (auto simp: boot_verified_def split: if_splits)
    then have "list_all (\<lambda>e. quiet_event e \<or> verified_event cfg m e
        \<and> crypt m AND COMINIT_CRYPTOPT_CRYPT = 0) post"
      using post(2) by (auto simp: list_all_iff)
    then have "verified_run cfg ([] @ x @ post)"
      unfolding verified_run_def using ver x(2) by (intro exI [of _ m] exI [of _ "[]"] exI [of _ x] exI [of _ post]) simp
    with x(1) post(1) show ?thesis by auto
  qed
qed

text \<open>The record that is handed to the loading: nothing but the device path has been set.\<close>
lemma discover_record:
  "returns (\<lambda>found. \<forall>m d. found = Some (m, d) \<longrightarrow> (\<exists>p. m = meta\<lparr>devicePath := p\<rparr>)) (discover_loop n args meta disk)"
proof -
  have once: "returns (\<lambda>(f, m, d). \<exists>p. m = Some (meta\<lparr>devicePath := p\<rparr>)) (cominitDiscoverRootfs (Some args) (Some meta) (Some disk))"
    for meta disk
  proof -
    have keep: "\<exists>p. meta = meta\<lparr>devicePath := p\<rparr>" by (rule exI [of _ "devicePath meta"]) simp
    show ?thesis
      unfolding cominitDiscoverRootfs_def using keep by (auto intro!: returns_intros split: if_splits)
  qed
  show ?thesis
  proof (induction n arbitrary: meta disk)
    case 0
    show ?case by (auto intro!: returns_structure returns_bind_spec [OF once] split: if_splits)
  next
    case (Suc n)
    have "returns (\<lambda>found. \<forall>m d. found = Some (m, d) \<longrightarrow> (\<exists>q. m = meta\<lparr>devicePath := q\<rparr>))
        (discover_loop n args (meta\<lparr>devicePath := p\<rparr>) disk)" for p disk
      by (rule returns_mono [OF Suc.IH]) fastforce
    then show ?case by (auto intro!: returns_structure returns_bind returns_bind_spec [OF once])
  qed
qed

lemma boot_verifies:
  assumes "run_state (boot cfg args) w = ((), w')"
  shows "\<exists>ext. trace w' = trace w @ ext \<and> (list_all quiet_event ext \<or> verified_run cfg ext)"
proof -
  obtain s w1 where s: "run_state cominitSetupSysfiles w = (s, w1)" by fastforce
  let ?hsm = "if fake_hsm cfg then do { _ \<leftarrow> cominitKeyringInitFakeHsm cfg; return () } else return ()"
  obtain h w2 where h: "run_state ?hsm w1 = (h, w2)" by (metis surj_pair)
  obtain found w3 where d: "run_state (discover_loop COMINIT_ROOT_WAIT_TRIES args rfsMeta_zero gptDisk_zero) w2
      = (found, w3)" by fastforce
  have foot: "emits quiet_event cominitSetupSysfiles" "emits quiet_event ?hsm"
    by (auto intro!: emits_intros emits_mono [OF sysfiles.footprint quiet_sysfiles]
        emits_mono [OF fake_hsm.footprint quiet_enrol])
  from emitsD(3) [OF foot(1) s] emitsD(3) [OF foot(2) h] emitsD(3) [OF emits_discover_loop d]
  obtain a b c where q: "trace w1 = trace w @ a" "trace w2 = trace w1 @ b" "trace w3 = trace w2 @ c"
    "list_all quiet_event a" "list_all quiet_event b" "list_all quiet_event c"
    unfolding list_all_iff by blast
  then have abc: "list_all quiet_event (a @ b @ c)" by simp
  show ?thesis
  proof (cases "s = - 1 \<or> found = None")
    case True
    with assms s h d have "w' = w1 \<or> w' = w3" by (auto simp: boot_def split: if_splits)
    with q show ?thesis by auto
  next
    case False
    then obtain meta disk where f: "found = Some (meta, disk)" by auto
    with returnsD [OF discover_record d] obtain dev where dev: "meta = rfsMeta_zero\<lparr>devicePath := dev\<rparr>" by blast
    from assms s h d f False have "run_state (do {
        (e, meta') \<leftarrow> cominitLoadVerifyMetadata cfg (rfsMeta_zero\<lparr>devicePath := dev\<rparr>) COMINIT_ROOTFS_KEY_LOCATION;
        if e = - 1 then return () else boot_verified cfg args meta' disk }) w3 = ((), w')"
      by (simp add: boot_def dev)
    from load_then_boot [OF this] obtain ext where
      ext: "trace w' = trace w3 @ ext" "list_all quiet_event ext \<or> verified_run cfg ext" by blast
    then have "list_all quiet_event ((a @ b @ c) @ ext) \<or> verified_run cfg ((a @ b @ c) @ ext @ [])"
      using abc verified_run_extend [of cfg ext "a @ b @ c" "[]"] by auto
    with ext(1) q show ?thesis by (intro exI [of _ "(a @ b @ c) @ ext"]) auto
  qed
qed

lemma main_verifies:
  "list_all quiet_event (trace_of_main E n cfg argv log) \<or> verified_run cfg (trace_of_main E n cfg argv log)"
proof (cases "parse_args cfg argv (argCtx_init cfg)")
  case (Inl x)
  let ?print = "do { (case x of PrintVersion \<Rightarrow> cominitPrintVersion cfg | PrintUsage \<Rightarrow> cominitPrintUsage cfg); return (EXIT_FAILURE, log) }"
  have main: "main cfg argv log = ?print" using Inl by (cases x) (simp_all add: main_def)
  have "emits quiet_event ?print" by (cases x) (auto intro!: emits_intros emits_print)
  moreover obtain a w where "run_state ?print (start E n) = (a, w)" by fastforce
  ultimately show ?thesis using emitsD(3) [of quiet_event ?print "start E n" a w]
    by (auto simp: trace_of_main_def main list_all_iff)
next
  case (Inr args)
  let ?w = "start E n"
  obtain w1 where u: "run_state (do { run (Proc Setsid); run (Proc (Umask 0)) }) ?w = ((), w1)"
    by (metis surj_pair old.unit.exhaust)
  obtain w2 where b: "run_state (boot cfg args) w1 = ((), w2)" by (metis surj_pair old.unit.exhaust)
  obtain r w3 where r: "run_state rescue w2 = (r, w3)" by fastforce
  have w3: "trace_of_main E n cfg argv log = trace w3"
    using Inr u b r by (simp add: trace_of_main_def main_def split: prod.splits)
  have foot: "emits quiet_event (do { run (Proc Setsid); run (Proc (Umask 0)) })" "emits quiet_event rescue"
    unfolding rescue_def by (auto intro!: emits_intros)
  from emitsD(3) [OF foot(1) u] emitsD(3) [OF foot(2) r] boot_verifies [OF b] obtain x y z where
    "trace w1 = x" "trace w3 = trace w2 @ z" "list_all quiet_event x" "list_all quiet_event z"
    "trace w2 = trace w1 @ y" "list_all quiet_event y \<or> verified_run cfg y"
    by (auto simp: start_def list_all_iff)
  then show ?thesis unfolding w3 using verified_run_extend [of cfg y x z] by auto
qed

section \<open>The rootfs that is mounted\<close>

text \<open>A mount at \<^verbatim>\<open>/newroot\<close> agrees with a metadata record.\<close>
definition mounts_rootfs :: "config \<Rightarrow> cominitRfsMetaData_t \<Rightarrow> string \<Rightarrow> string option \<Rightarrow> mount_flag list \<Rightarrow> bool" where
  "mounts_rootfs cfg meta s ty fl \<longleftrightarrow> mountable meta \<and> ty = Some (fsType meta)
     \<and> fl = (if ro meta then [MS_RDONLY] else [])
     \<and> s = (if crypt meta = COMINIT_CRYPTOPT_NONE then devicePath meta else dm_rootfs_path cfg)"

text \<open>A device-mapper table that is loaded is the one of a record.\<close>
definition table_of :: "cominitRfsMetaData_t \<Rightarrow> event \<Rightarrow> bool" where
  "table_of meta e \<longleftrightarrow> (\<forall>fd d readonly n st secs tgt tbl sz.
     fst e = Dev (Dm_table_load fd d readonly n st secs tgt tbl sz) \<longrightarrow> record_table meta readonly secs tgt tbl)"

text \<open>Every mount at \<^verbatim>\<open>/newroot\<close> is preceded by a verification, agrees with its record, and finds no table but
  that of the record.\<close>
definition newroot_is_signed :: "config \<Rightarrow> event list \<Rightarrow> bool" where
  "newroot_is_signed cfg tr \<longleftrightarrow> (\<forall>before s ty fl r after.
     tr = before @ (Fs (Mount s ''/newroot'' ty fl), r) # after \<longrightarrow>
     (\<exists>meta pre ver mid. before = pre @ ver @ mid \<and> verifies ver meta
        \<and> mounts_rootfs cfg meta s ty fl \<and> list_all (table_of meta) before))"

lemma not_quiet_newroot: "\<not> quiet_event (Fs (Mount s ''/newroot'' ty fl), r)"
  by (simp add: quiet_event_def boot_event_def)

lemma verified_newroot:
  "verified_event cfg meta (Fs (Mount s ''/newroot'' ty fl), r) \<Longrightarrow> mounts_rootfs cfg meta s ty fl"
  by (auto simp: verified_event_def tpm_event_def secure_event_def selinux_event_def sysfiles_event_def
      rootfs_event_def dm_event_def switch_event_def nftw_event_def disk_event_def mounts_rootfs_def lits)

lemma quiet_no_table: "quiet_event e \<Longrightarrow> table_of meta e"
  by (cases e) (auto simp: table_of_def quiet_event_def boot_event_def)

lemma verified_table: "verified_event cfg meta e \<Longrightarrow> table_of meta e"
  by (cases e) (auto simp: table_of_def verified_event_def tpm_event_def secure_event_def selinux_event_def sysfiles_event_def
      scan_event_def rootfs_event_def dm_event_def switch_event_def nftw_event_def disk_event_def)

lemma verified_run_newroot:
  assumes "verified_run cfg tr"
  shows "newroot_is_signed cfg tr"
  unfolding newroot_is_signed_def
proof (intro allI impI)
  fix before after :: "event list" and s ty fl and r :: reply
  let ?e = "(Fs (Mount s ''/newroot'' ty fl), r)"
  assume tr: "tr = before @ ?e # after"
  from assms obtain meta pre ver post where v: "tr = (pre @ ver) @ post" "verifies ver meta"
    "list_all quiet_event (pre @ ver)"
    "list_all (\<lambda>e. quiet_event e \<or> verified_event cfg meta e
       \<and> crypt meta AND COMINIT_CRYPTOPT_CRYPT = 0) post"
    unfolding verified_run_def by (auto simp: append_assoc)
  have notin: "?e \<notin> set (pre @ ver)" using v(3) not_quiet_newroot unfolding list_all_iff by blast
  from split_behind [OF _ notin, of before after post] tr v(1) obtain us where
    us: "before = (pre @ ver) @ us" "post = us @ ?e # after" by auto
  then have "?e \<in> set post" by auto
  then have e: "verified_event cfg meta ?e" using v(4) not_quiet_newroot unfolding list_all_iff by blast
  have "list_all (table_of meta) before"
    using v(3,4) us quiet_no_table verified_table unfolding list_all_iff by fastforce
  with v us verified_newroot [OF e] show "\<exists>meta pre ver mid. before = pre @ ver @ mid \<and> verifies ver meta
      \<and> mounts_rootfs cfg meta s ty fl \<and> list_all (table_of meta) before"
    by (intro exI [of _ meta] exI [of _ pre] exI [of _ ver] exI [of _ us]) simp
qed

lemma quiet_newroot: "list_all quiet_event tr \<Longrightarrow> newroot_is_signed cfg tr"
  unfolding newroot_is_signed_def by (auto simp: not_quiet_newroot)

section \<open>The init of the rootfs\<close>

definition init_exec :: "event \<Rightarrow> bool" where
  "init_exec e \<longleftrightarrow> fst e = Proc (Execve ''/sbin/init'' [''/sbin/init''])"

text \<open>The rootfs init is started directly after the switch: every start of it follows the four calls
  that make \<^verbatim>\<open>/newroot\<close> the root, all of them successful.\<close>
definition init_in_newroot :: "event list \<Rightarrow> bool" where
  "init_in_newroot tr \<longleftrightarrow> (\<forall>before e after. tr = before @ e # after \<longrightarrow> init_exec e \<longrightarrow>
     (\<exists>p a b c d. before = p @ [(Fs (Chdir ''/newroot''), a), (Fs (Mount ''/newroot'' ''/'' None [MS_MOVE]), b),
         (Fs (Chroot ''.''), c), (Fs (Chdir ''/''), d)]
        \<and> rc a \<noteq> - 1 \<and> rc b \<noteq> - 1 \<and> rc c \<noteq> - 1 \<and> rc d \<noteq> - 1))"

lemma init_concat:
  assumes a: "init_in_newroot a" and b: "init_in_newroot b"
  shows "init_in_newroot (a @ b)"
  unfolding init_in_newroot_def
proof (intro allI impI)
  fix before e after
  assume eq: "a @ b = before @ e # after" and e: "init_exec e"
  then consider (left) us where "a = before @ e # us" | (right) us where "before = a @ us" "b = us @ e # after"
    by (auto simp: append_eq_append_conv2 append_eq_Cons_conv)
  then show "\<exists>p a b c d. before = p @ [(Fs (Chdir ''/newroot''), a),
      (Fs (Mount ''/newroot'' ''/'' None [MS_MOVE]), b), (Fs (Chroot ''.''), c), (Fs (Chdir ''/''), d)]
      \<and> rc a \<noteq> - 1 \<and> rc b \<noteq> - 1 \<and> rc c \<noteq> - 1 \<and> rc d \<noteq> - 1"
  proof cases
    case left
    with a e show ?thesis unfolding init_in_newroot_def by blast
  next
    case right
    with b e obtain p x y z u where "us = p @ [(Fs (Chdir ''/newroot''), x),
      (Fs (Mount ''/newroot'' ''/'' None [MS_MOVE]), y), (Fs (Chroot ''.''), z), (Fs (Chdir ''/''), u)]"
      "rc x \<noteq> - 1 \<and> rc y \<noteq> - 1 \<and> rc z \<noteq> - 1 \<and> rc u \<noteq> - 1"
      unfolding init_in_newroot_def by blast
    with right show ?thesis by (intro exI [of _ "a @ p"] exI) auto
  qed
qed

interpretation init: trace_property init_in_newroot
  by unfold_locales (simp add: init_in_newroot_def, rule init_concat)

lemma init_single: "\<not> init_exec e \<Longrightarrow> init_in_newroot [e]"
  by (auto simp: init_in_newroot_def Cons_eq_append_conv)

lemma switch_and_exec_init: "appends init_in_newroot switch_and_exec"
proof (rule appendsI)
  fix w a w' assume h: "run_state switch_and_exec w = (a, w')"
  let ?exec = "Proc (Execve ''/sbin/init'' [''/sbin/init''])"
  obtain s w1 where s: "run_state cominitSwitchIntoRootfs w = (s, w1)" by fastforce
  from emitsD(3) [OF switch_root.footprint s] obtain x where x: "trace w1 = trace w @ x"
    "\<forall>e \<in> set x. switch_event e" by blast
  from x(2) have other: "\<forall>e \<in> set x. \<not> init_exec e"
    by (auto simp: init_exec_def switch_event_def nftw_event_def)
  show "\<exists>ext. trace w' = trace w @ ext \<and> init_in_newroot ext"
  proof (cases "s = - 1 \<or> status w1 \<noteq> Running")
    case True
    with h s have "trace w' = trace w1"
      by (auto simp: switch_and_exec_def execve_def sys_def halt_def no_reply_def split: if_splits)
    moreover have "init_in_newroot x" using other by (auto simp: init_in_newroot_def)
    ultimately show ?thesis using x by auto
  next
    case False
    then have "s = 0" using s switch_root.not_bad by blast
    with False s switch_order obtain walk p q r t where
      w1: "trace w1 = trace w @ walk @ [(Fs (Chdir ''/newroot''), p),
         (Fs (Mount ''/newroot'' ''/'' None [MS_MOVE]), q), (Fs (Chroot ''.''), r), (Fs (Chdir ''/''), t)]"
      and ok: "rc p \<noteq> - 1 \<and> rc q \<noteq> - 1 \<and> rc r \<noteq> - 1 \<and> rc t \<noteq> - 1" by blast
    from h s False obtain y where y: "trace w' = trace w1 @ [(?exec, y)]"
      by (auto simp: switch_and_exec_def execve_def sys_def halt_def Let_def split: if_splits)
    have "init_in_newroot (x @ [(?exec, y)])"
      unfolding init_in_newroot_def
    proof (intro allI impI)
      fix before e after
      assume eq: "x @ [(?exec, y)] = before @ e # after" and e: "init_exec e"
      then have "before = x" using other by (cases after rule: rev_cases) auto
      with x(1) w1 ok show "\<exists>p a b c d. before = p @ [(Fs (Chdir ''/newroot''), a),
          (Fs (Mount ''/newroot'' ''/'' None [MS_MOVE]), b), (Fs (Chroot ''.''), c), (Fs (Chdir ''/''), d)]
          \<and> rc a \<noteq> - 1 \<and> rc b \<noteq> - 1 \<and> rc c \<noteq> - 1 \<and> rc d \<noteq> - 1" by auto
    qed
    with x y show ?thesis by auto
  qed
qed

lemma not_init_exec:
  "quiet_event e \<Longrightarrow> \<not> init_exec e" "tpm_event cfg e \<Longrightarrow> \<not> init_exec e" "selinux_event e \<Longrightarrow> \<not> init_exec e"
  "rootfs_event cfg m e \<Longrightarrow> \<not> init_exec e" "scan_event e \<Longrightarrow> \<not> init_exec e" "disk_event d e \<Longrightarrow> \<not> init_exec e"
  by (auto simp: init_exec_def tpm_event_def secure_event_def mkfs_argv_def selinux_event_def sysfiles_event_def
      rootfs_event_def dm_event_def scan_event_def disk_event_def quiet_event_def boot_event_def)

lemmas no_init = not_init_exec [THEN init_single]

lemmas init_parts =
  init.of_events [OF emits_mono [OF sysfiles.footprint quiet_sysfiles] no_init(1)]
  init.of_events [OF emits_mono [OF cleanup_sys.footprint quiet_sysfiles] no_init(1)]
  init.of_events [OF emits_mono [OF cleanup_selinux.footprint quiet_sysfiles] no_init(1)]
  init.of_events [OF emits_mono [OF fake_hsm.footprint quiet_enrol] no_init(1)]
  init.of_events [OF emits_mono [OF load_metadata.footprint quiet_load] no_init(1)]
  init.of_events [OF emits_discover_loop no_init(1)]
  init.of_events [OF setup_rootfs.footprint no_init(4)]
  init.of_events [OF selinux.footprint no_init(3)]
  init.of_events [OF mount_storage.footprint no_init(2)]
  init.of_events [OF init_tpm.footprint no_init(2)]
  init.of_events [OF extend_pcr.footprint no_init(2)]
  init.of_events [OF protect_data.footprint no_init(2)]
  init.of_events [OF delete_tpm.footprint no_init(2)]
  init.of_events [OF find_partition.footprint no_init(5)]
  init.of_events [OF emits_find_on_disk no_init(6)]

lemma main_init: "appends init_in_newroot (main cfg argv log)"
proof -
  have calls: "appends init_in_newroot rescue" "appends init_in_newroot (run (Proc Setsid))"
    "appends init_in_newroot (run (Proc (Umask 0)))" "appends init_in_newroot (cominitPrintVersion cfg)"
    "appends init_in_newroot (cominitPrintUsage cfg)"
    unfolding rescue_def by (rule init.of_events [of quiet_event], auto intro!: no_init(1) emits_intros emits_print)+
  show ?thesis
    unfolding main_def boot_def boot_verified_def enter_rootfs_def tpm_block_def find_secure_storage_def
    by (intro init.rules init_parts calls switch_and_exec_init)
      (auto split: cominitTpmState_t.split early_exit.split intro!: init.of_return init.of_bind calls)
qed

section \<open>Runs of main\<close>

lemma emits_rescue: "emits quiet_event rescue"
  unfolding rescue_def by (auto intro!: emits_intros)

lemma boot_inert: "emits (\<lambda>_. True) (boot cfg args)"
  unfolding boot_def
  by (auto intro!: emits_intros inert [OF sysfiles.footprint] inert [OF fake_hsm.footprint]
      inert [OF emits_discover_loop] inert [OF load_metadata.footprint] inert [OF emits_boot_verified])

text \<open>A machine that harmless calls leave where it is follows every run of \<^verbatim>\<open>main\<close> if it follows the boot.\<close>
lemma main_follows:
  assumes quiet: "\<And>p e. quiet_event e \<Longrightarrow> S p [e] p"
    and boot: "\<And>args. parse_args cfg argv (argCtx_init cfg) = Inr args \<Longrightarrow> simulates S p (boot cfg args) (\<lambda>_ _. True)"
  shows "\<exists>q. steps S p (trace_of_main E n cfg argv log) q"
proof -
  have stay: "simulates S q m (\<lambda>_ q'. q' = q)" if "emits quiet_event m" for q and m :: "'r op"
    by (rule sim_loop [where S = S, OF that quiet])
  have "simulates S p (main cfg argv log) (\<lambda>_ _. True)"
  proof (cases "parse_args cfg argv (argCtx_init cfg)")
    case (Inr args)
    show ?thesis
      unfolding main_def Inr sum.case Let_def
      by (auto intro!: sim_bind [OF stay [OF emits_run]] emits_intros boot_inert inert [OF emits_rescue]
          sim_bind [OF boot [OF Inr]] sim_bind [OF stay [OF emits_rescue]] sim_return)
  next
    case (Inl x)
    show ?thesis
      unfolding main_def Inl sum.case
      by (cases x) (auto intro!: sim_bind [OF stay [OF emits_print(1)]] sim_bind [OF stay [OF emits_print(2)]]
          emits_intros sim_return)
  qed
  moreover obtain a w' where run: "run_state (main cfg argv log) (start E n) = (a, w')" by fastforce
  ultimately show ?thesis using simulatesD [OF _ run] by (fastforce simp: trace_of_main_def)
qed

end
