(* ===== verification/Meta_Format.thy ===== *)
theory Meta_Format
  imports Meta
begin

text \<open>
  The metadata format of README.md, written as a printer, against which the parser of src/meta.c is
  proved: printing a description of the rootfs and parsing the text gives the description back,
  together with the device-mapper table that README.md and the kernel documentation ask for.
\<close>

section \<open>Words\<close>

definition word_text :: "string \<Rightarrow> bool" where
  "word_text s \<longleftrightarrow> s \<noteq> [] \<and> CHR '' '' \<notin> set s"

lemma strtok_word [simp]: "word_text t \<Longrightarrow> strtok_r '' '' (t @ CHR '' '' # r) = Some (t, r)"
  by (rule strtok.token_first) (auto simp: word_text_def)

lemma strtok_last_word [simp]: "word_text t \<Longrightarrow> strtok_r '' '' t = Some (t, [])"
  by (rule strtok.token_last) (auto simp: word_text_def)

lemma word_udec [simp]: "word_text (udec n)"
proof -
  have "digit_val (CHR '' '') = 36" by (simp add: digit_val_def)
  then show ?thesis using udec_digits [of "CHR '' ''" n] by (auto simp: word_text_def)
qed

fun unwords :: "string list \<Rightarrow> string" where
  "unwords [] = []"
| "unwords [t] = t"
| "unwords (t # ts) = t @ '' '' @ unwords ts"

lemma tokens_unwords: "\<forall>t \<in> set ts. word_text t \<Longrightarrow> tokens '' '' (unwords ts) = ts"
proof (induction ts rule: unwords.induct)
  case 1
  show ?case by (simp add: strtok.token_none)
next
  case (2 t)
  then show ?case by (simp add: strtok.token_none)
next
  case (3 t u us)
  then show ?case by simp
qed

section \<open>The settings\<close>

definition mode_name :: "bool \<Rightarrow> string" where
  "mode_name b = (if b then ''ro'' else ''rw'')"

text \<open>\<^verbatim>\<open><meta_ver> <fstype> <mode> <crypt>\xFF<VERITY_INTEGRITY>\xFF<CRYPT>\<close>\<close>
definition metadata_text :: "string \<Rightarrow> bool \<Rightarrow> string \<Rightarrow> string \<Rightarrow> string \<Rightarrow> string" where
  "metadata_text fs b cname verint ctable =
     ''1 '' @ fs @ '' '' @ mode_name b @ '' '' @ cname @ [CHR 0xFF] @ verint @ [CHR 0xFF] @ ctable"

lemma crypt_name_word:
  "crypt_of_name s = Some c \<Longrightarrow> word_text s \<and> CHR 0xFF \<notin> set s"
  by (auto simp: crypt_of_name_def word_text_def split: if_splits)

lemma not_both_features: "crypt_of_name s = Some c \<Longrightarrow>
   c XOR (COMINIT_CRYPTOPT_VERITY OR COMINIT_CRYPTOPT_INTEGRITY) \<noteq> 0"
  by (auto simp: crypt_of_name_def lits split: if_splits)

text \<open>The record after the settings have been read.\<close>
definition with_settings :: "cominitRfsMetaData_t \<Rightarrow> string \<Rightarrow> bool \<Rightarrow> byte \<Rightarrow> cominitRfsMetaData_t" where
  "with_settings m fs b c = m\<lparr>fsType := take (COMINIT_FSTYPE_STR_MAX_LEN - 1) fs, ro := b, crypt := c,
     dmTableVerint := [], dmTableCrypt := []\<rparr>"

lemma parse_settings:
  assumes fs: "word_text fs" "CHR 0xFF \<notin> set fs" and v: "CHR 0xFF \<notin> set verint"
    and c: "crypt_of_name cname = Some c"
  shows "cominitParseMetadata (Some m) (Some (metadata_text fs b cname verint ctable)) =
     (if c = COMINIT_CRYPTOPT_VERITY
      then return (cominitGenVerityDmTbl (Some (with_settings m fs b c)) (Some verint))
      else if c = COMINIT_CRYPTOPT_INTEGRITY
      then cominitGenIntegrityDmTbl (Some (with_settings m fs b c)) (Some verint)
      else return (0, Some (with_settings m fs b c)))"
proof -
  note name = crypt_name_word [OF c]
  let ?set = "''1 '' @ fs @ '' '' @ mode_name b @ '' '' @ cname"
  have mode: "word_text (mode_name b)" "CHR 0xFF \<notin> set (mode_name b)"
    "(mode_name b = ''ro'') = b" "(mode_name b = ''rw'') = (\<not> b)"
    by (auto simp: mode_name_def word_text_def)
  have form: "metadata_text fs b cname verint ctable = ?set @ CHR 0xFF # (verint @ CHR 0xFF # ctable)"
    by (simp add: metadata_text_def)
  have cut1: "cut_at (CHR 0xFF) (metadata_text fs b cname verint ctable)
      = Some (?set, verint @ CHR 0xFF # ctable)"
    unfolding form using fs name mode by (intro cut_at_append) auto
  have cut2: "cut_at (CHR 0xFF) (verint @ CHR 0xFF # ctable) = Some (verint, ctable)"
    using v by (rule cut_at_append)
  have version: "starts_with (metadata_text fs b cname verint ctable) COMINIT_PART_META_DATA_VERSION"
    by (simp add: metadata_text_def starts_with_def lits)
  have one: "word_text ''1''" by (simp add: word_text_def)
  have t1: "strtok_r '' '' ?set = Some (''1'', fs @ CHR '' '' # mode_name b @ CHR '' '' # cname)"
    using strtok_word [OF one, of "fs @ CHR '' '' # mode_name b @ CHR '' '' # cname"] by simp
  show ?thesis
    unfolding cominitParseMetadata_def prod.case option.case cut1 cut2 t1
    using fs mode name c not_both_features [OF c] version
    by (simp add: with_settings_def Let_def del: One_nat_def)
qed

section \<open>dm-verity\<close>

text \<open>\<^verbatim>\<open><version> <data_block_size> <hash_block_size> <num_data_blocks> <hash_start_block> <algorithm>
  <digest> <salt>\<close>\<close>
definition verity_text ::
    "string \<Rightarrow> nat \<Rightarrow> nat \<Rightarrow> nat \<Rightarrow> nat \<Rightarrow> string \<Rightarrow> string \<Rightarrow> string" where
  "verity_text version bsize hsize blocks hstart alg digest_salt =
     version @ '' '' @ udec bsize @ '' '' @ udec hsize @ '' '' @ udec blocks @ '' '' @ udec hstart
     @ '' '' @ alg @ '' '' @ digest_salt"

text \<open>The table line of the dm-verity target: data device and hash device behind the version.\<close>
definition verity_table ::
    "string \<Rightarrow> string \<Rightarrow> nat \<Rightarrow> nat \<Rightarrow> nat \<Rightarrow> nat \<Rightarrow> string \<Rightarrow> string \<Rightarrow> string" where
  "verity_table dev version bsize hsize blocks hstart alg digest_salt =
     version @ '' '' @ dev @ '' '' @ dev @ '' '' @ udec bsize @ '' '' @ udec hsize @ '' ''
     @ udec blocks @ '' '' @ udec hstart @ '' '' @ alg @ '' '' @ digest_salt"

lemma gen_verity_table:
  assumes "crypt m = COMINIT_CRYPTOPT_VERITY" and "word_text version" and "word_text alg"
    and "bsize < 2 ^ 64" and "blocks < 2 ^ 64"
    and fit: "length (verity_table (devicePath m) version bsize hsize blocks hstart alg ds)
         < COMINIT_DM_TABLE_SIZE_MAX"
  shows "cominitGenVerityDmTbl (Some m) (Some (verity_text version bsize hsize blocks hstart alg ds)) =
     (0, Some (m\<lparr>dmTableVerint := verity_table (devicePath m) version bsize hsize blocks hstart alg ds,
                 dmVerintDataSizeBytes := of_nat bsize * of_nat blocks\<rparr>))"
proof -
  let ?tail = "udec bsize @ CHR '' '' # udec hsize @ CHR '' '' # udec blocks @ CHR '' ''
     # udec hstart @ CHR '' '' # alg @ CHR '' '' # ds"
  have form: "verity_text version bsize hsize blocks hstart alg ds = version @ CHR '' '' # ?tail"
    by (simp add: verity_text_def)
  have table: "verity_table (devicePath m) version bsize hsize blocks hstart alg ds =
      version @ '' '' @ devicePath m @ '' '' @ devicePath m @ '' '' @ ?tail"
    by (simp add: verity_table_def)
  have tail: "strtok_r [] ?tail = Some (?tail, [])" by simp
  have t: "strtok_r '' '' (verity_text version bsize hsize blocks hstart alg ds) = Some (version, ?tail)"
    unfolding form by (rule strtok_word) fact
  show ?thesis
    unfolding cominitGenVerityDmTbl_def prod.case option.case t tail table [symmetric] Let_def
    using assms fit by (simp add: strtoul_udec)
qed

lemma parse_verity:
  assumes fs: "word_text fs" "CHR 0xFF \<notin> set fs" and words: "word_text version" "word_text alg"
    and "CHR 0xFF \<notin> set (verity_text version bsize hsize blocks hstart alg ds)"
    and "bsize < 2 ^ 64" and "blocks < 2 ^ 64"
    and "length (verity_table (devicePath m) version bsize hsize blocks hstart alg ds) < COMINIT_DM_TABLE_SIZE_MAX"
  shows "cominitParseMetadata (Some m) (Some (metadata_text fs b ''verity''
       (verity_text version bsize hsize blocks hstart alg ds) ctable)) =
     return (0, Some ((with_settings m fs b COMINIT_CRYPTOPT_VERITY)\<lparr>
       dmTableVerint := verity_table (devicePath m) version bsize hsize blocks hstart alg ds,
       dmVerintDataSizeBytes := of_nat bsize * of_nat blocks\<rparr>))"
  using assms
  by (simp add: parse_settings [where c = COMINIT_CRYPTOPT_VERITY] crypt_of_name_def gen_verity_table
      with_settings_def)

text \<open>C16: Metadata of a dm-verity rootfs in the documented format are read as documented: filesystem type
  and mode are stored, the table line has the device twice behind the version and the remaining
  values unchanged, and the size is the product of block size and number of blocks.\<close>
theorem verity_metadata_read:
  assumes fs: "word_text fs" "CHR 0xFF \<notin> set fs" and words: "word_text version" "word_text alg"
    and "CHR 0xFF \<notin> set (verity_text version bsize hsize blocks hstart alg ds)"
    and "bsize < 2 ^ 64" and "blocks < 2 ^ 64"
    and "length (verity_table (devicePath m) version bsize hsize blocks hstart alg ds) < COMINIT_DM_TABLE_SIZE_MAX"
  shows "cominitParseMetadata (Some m) (Some (metadata_text fs b ''verity''
       (verity_text version bsize hsize blocks hstart alg ds) ctable)) =
     return (0, Some ((with_settings m fs b COMINIT_CRYPTOPT_VERITY)\<lparr>
       dmTableVerint := verity_table (devicePath m) version bsize hsize blocks hstart alg ds,
       dmVerintDataSizeBytes := of_nat bsize * of_nat blocks\<rparr>))"
  using assms by (rule parse_verity)

theorem verity_metadata_read_witness:
  "cominitParseMetadata (Some (rfsMeta_zero\<lparr>devicePath := ''/dev/sda2''\<rparr>)) (Some (metadata_text ''ext4'' True ''verity''
       (verity_text ''1'' 4096 4096 256 257 ''sha256'' ''ab cd'') [])) =
     return (0, Some ((with_settings (rfsMeta_zero\<lparr>devicePath := ''/dev/sda2''\<rparr>) ''ext4'' True COMINIT_CRYPTOPT_VERITY)\<lparr>
       dmTableVerint := ''1 /dev/sda2 /dev/sda2 4096 4096 256 257 sha256 ab cd'',
       dmVerintDataSizeBytes := 1048576\<rparr>))"
  using verity_metadata_read [of "''ext4''" "''1''" "''sha256''" 4096 4096 256 257 "''ab cd''"
      "rfsMeta_zero\<lparr>devicePath := ''/dev/sda2''\<rparr>" True "[]"]
  by (simp add: word_text_def verity_text_def verity_table_def udec.simps hex_digit_def lits)

section \<open>dm-integrity\<close>

text \<open>An option that is copied to the table unchanged: it names no key.\<close>
definition plain_option :: "string \<Rightarrow> bool" where
  "plain_option opt \<longleftrightarrow>
     (\<exists>k \<in> set keyOpts. starts_with opt k) \<longrightarrow>
       (case find_sub ''::'' opt of None \<Rightarrow> True | Some (front, desc) \<Rightarrow> length desc \<le> 2)"

lemma plain_option_copied: "plain_option opt \<Longrightarrow> integrity_option opt = return (Some (opt @ '' ''))"
  by (auto simp: plain_option_def integrity_option_def Let_def split: option.splits)

text \<open>\<^verbatim>\<open><num_data_blocks> <data_block_size> <num_additional_args> [<additional> <arguments> ... ]\<close>\<close>
definition integrity_text :: "nat \<Rightarrow> nat \<Rightarrow> nat \<Rightarrow> string list \<Rightarrow> string" where
  "integrity_text blocks bsize count opts =
     udec blocks @ '' '' @ udec bsize @ '' '' @ udec count @ '' '' @ unwords opts"

text \<open>The table line of the dm-integrity target; \<^verbatim>\<open>block_size\<close> is one more option.\<close>
definition integrity_table :: "string \<Rightarrow> nat \<Rightarrow> nat \<Rightarrow> string list \<Rightarrow> string" where
  "integrity_table dev bsize count opts =
     dev @ '' 0 - J '' @ udec (count + 1) @ '' block_size:'' @ udec bsize @ '' ''
     @ concat (map (\<lambda>opt. opt @ '' '') opts)"

lemma unat_of_nat_Suc:
  assumes "k + 1 < 2 ^ 64"
  shows "unat (of_nat k + 1 :: u64) = k + 1"
proof -
  have "unat (of_nat (k + 1) :: u64) = take_bit 64 (k + 1)"
    unfolding unsigned_of_nat by simp
  also have "\<dots> = k + 1" using assms by (rule take_bit_nat_eq_self)
  finally show ?thesis by (simp add: add.commute)
qed

end
