(* ===== verification/Meta_Load.thy ===== *)
theory Meta_Load
  imports Meta_Format
begin

text \<open>
  When the metadata region is loaded: what an environment must answer for it to be accepted, which
  partitions are refused without a read, and what the read loop makes of short reads.
\<close>

section \<open>Offsets\<close>

lemma sint_below:
  fixes x :: u64
  assumes "unat x < n" and "n < 2 ^ 63"
  shows "sint (x - of_nat n) < 0"
proof -
  define u where "u = int (unat x)"
  have "u < int n" unfolding u_def using assms(1) by (simp only: of_nat_less_iff)
  then have u: "0 \<le> u" "u < int n" "int n < 2 ^ 63" using assms(2) by (auto simp: u_def)
  have "uint (of_nat n :: u64) = int n"
    using assms(2) by (simp add: unsigned_of_nat take_bit_int_eq_self take_bit_nat_eq_self flip: take_bit_of_nat)
  then have "uint (x - of_nat n) = (u - int n) mod 2 ^ 64"
    by (simp add: uint_word_ariths u_def)
  also have "\<dots> = (u - int n + 2 ^ 64) mod 2 ^ 64" by (rule mod_add_self2 [symmetric])
  also have "\<dots> = u - int n + 2 ^ 64" using u by (intro mod_pos_pos_trivial) auto
  finally have "uint (x - of_nat n) div 2 ^ 63 = 1" using u by (intro int_div_pos_eq [where r = "u - int n + 2 ^ 63"]) auto
  then have "bit (uint (x - of_nat n)) 63" by (simp add: bit_iff_odd)
  then show ?thesis by (simp add: sint_uint signed_take_bit_negative_iff)
qed

lemma sint_of_nat_small: "m < 2 ^ 63 \<Longrightarrow> sint (of_nat m :: u64) = int m"
  by (simp add: signed_of_nat signed_take_bit_int_eq_self)

lemma sint_not_below:
  assumes "n \<le> k" and "k < 2 ^ 63"
  shows "sint (of_nat k - of_nat n :: u64) = int (k - n)"
proof -
  have "(of_nat k - of_nat n :: u64) = of_nat (k - n)" using assms(1) by (simp add: of_nat_diff)
  then show ?thesis using sint_of_nat_small [of "k - n"] assms(2) by simp
qed

section \<open>Acceptance\<close>

text \<open>A partition that can be read in one piece, with the given region at its end.\<close>
definition serves_region :: "(event list \<Rightarrow> call \<Rightarrow> reply) \<Rightarrow> string \<Rightarrow> byte list \<Rightarrow> bool" where
  "serves_region E path region \<longleftrightarrow> (\<exists>fd size. 0 \<le> fd \<and> COMINIT_PART_META_DATA_SIZE \<le> size \<and> size < 2 ^ 63
     \<and> length region = COMINIT_PART_META_DATA_SIZE \<and> (\<forall>h.
        rc (E h (Fs (Open path [O_RDONLY]))) = fd
      \<and> rc (E h (Dev (Blkgetsize64 fd))) = 0 \<and> val (E h (Dev (Blkgetsize64 fd))) = of_nat size
      \<and> (\<forall>off. rc (E h (Fs (Lseek fd off))) = off)
      \<and> rc (E h (Fs (Read fd COMINIT_PART_META_DATA_SIZE))) = int COMINIT_PART_META_DATA_SIZE
      \<and> bytes (E h (Fs (Read fd COMINIT_PART_META_DATA_SIZE))) = region))"

text \<open>mbedTLS accepts the key and the signature.\<close>
definition accepts_signature :: "(event list \<Rightarrow> call \<Rightarrow> reply) \<Rightarrow> string \<Rightarrow> bool" where
  "accepts_signature E keyfile \<longleftrightarrow> (\<forall>h.
      rc (E h (Pk (Pk_parse_public_keyfile keyfile))) = 0 \<and> rc (E h (Pk Pk_get_type)) \<noteq> 0
    \<and> rc (E h (Pk Pk_can_do_rsa)) \<noteq> 0 \<and> rc (E h (Pk Rsa_set_padding_pss_sha256)) = 0
    \<and> (\<forall>d. rc (E h (Pk (Sha256 d))) = 0) \<and> (\<forall>d s. rc (E h (Pk (Rsassa_pss_verify d s))) = 0))"

lemma verify_complete:
  assumes "accepts_signature (env w) keyfile" and "status w = Running"
  shows "wp (cominitCryptoVerifySignature cfg d n sig keyfile)
     (\<lambda>a w'. a = 0 \<and> status w' = Running \<and> env w' = env w \<and> fuel w' = fuel w) w"
  using assms
  by (auto simp: cominitCryptoVerifySignature_def cominitRsaSetPadding_def wp_simps accepts_signature_def)

lemma readall_complete:
  assumes "status w = Running" "0 \<le> off" "0 < len" "length b = len" "0 < fuel w"
    and "rc (env w (trace w) (Fs (Lseek fd off))) \<noteq> - 1"
    and "\<And>h. rc (env w h (Fs (Read fd len))) = int len"
    and "\<And>h. bytes (env w h (Fs (Read fd len))) = data" and "length data = len"
  shows "wp (cominitBinReadall (Some b) fd off len)
     (\<lambda>(e, buf) w'. e = 0 \<and> buf = Some data \<and> status w' = Running \<and> env w' = env w \<and> fuel w' = fuel w) w"
proof -
  obtain n where n: "fuel w = Suc n" using assms(5) by (cases "fuel w") auto
  show ?thesis
    using assms n
    by (auto simp: cominitBinReadall_def wp_simps readall_loop.simps [of "Suc n"])
qed

lemma load_complete:
  assumes region: "serves_region (env w) (devicePath meta) region" and sig: "accepts_signature (env w) keyfile"
    and run: "status w = Running" "0 < fuel w"
    and len: "length (takeWhile (\<lambda>b. b \<noteq> 0) region)
       < COMINIT_PART_META_DATA_SIZE - COMINIT_PART_META_SIG_LENGTH - 1"
    and parse: "cominitParseMetadata (Some meta) (Some (cstr region)) = return (0, Some meta')"
  shows "wp (cominitLoadVerifyMetadata cfg meta keyfile) (\<lambda>(e, m) w'. e = 0 \<and> m = meta' \<and> status w' = Running) w"
proof -
  from region obtain fd size where fd: "0 \<le> fd" "COMINIT_PART_META_DATA_SIZE \<le> size" "size < 2 ^ 63"
    "length region = COMINIT_PART_META_DATA_SIZE"
    and E: "\<And>h. rc (env w h (Fs (Open (devicePath meta) [O_RDONLY]))) = fd"
      "\<And>h. rc (env w h (Dev (Blkgetsize64 fd))) = 0"
      "\<And>h. val (env w h (Dev (Blkgetsize64 fd))) = of_nat size"
      "\<And>h off. rc (env w h (Fs (Lseek fd off))) = off"
      "\<And>h. rc (env w h (Fs (Read fd COMINIT_PART_META_DATA_SIZE))) = int COMINIT_PART_META_DATA_SIZE"
      "\<And>h. bytes (env w h (Fs (Read fd COMINIT_PART_META_DATA_SIZE))) = region"
    unfolding serves_region_def by blast
  define k where "k = length (takeWhile (\<lambda>b. b \<noteq> 0) region)"
  have pos: "0 < COMINIT_PART_META_DATA_SIZE" by (simp add: lits)
  define off where "off = sint (of_nat size - of_nat COMINIT_PART_META_DATA_SIZE :: u64)"
  have off: "0 \<le> off" unfolding off_def using fd by (subst sint_not_below) auto
  have tail: "wp (cominitCryptoVerifySignature cfg region (Suc k) (drop (Suc k) region) keyfile)
     (\<lambda>v. wp (if v = - 1 then return (- 1, meta)
       else do {
         (p, meta') \<leftarrow> cominitParseMetadata (Some meta) (Some (cstr (the (Some region))));
         if p = - 1 then return (- 1, the meta') else return (0, the meta') })
     (\<lambda>(e, m) w'. e = (0 :: int) \<and> m = meta' \<and> status w' = Running)) w1"
    if "status w1 = Running" "env w1 = env w" for w1
    by (rule wp_mono [OF verify_complete]) (use that sig parse in \<open>auto simp: wp_simps\<close>)
  have read: "wp (cominitBinReadall (Some (replicate COMINIT_PART_META_DATA_SIZE 0)) fd
       off COMINIT_PART_META_DATA_SIZE)
     (\<lambda>(e, buf) w'. e = 0 \<and> buf = Some region \<and> status w' = Running \<and> env w' = env w1 \<and> fuel w' = fuel w1) w1"
    if "status w1 = Running" "env w1 = env w" "fuel w1 = fuel w" for w1
    using that fd E pos run off by (intro readall_complete) auto
  show ?thesis
    unfolding cominitLoadVerifyMetadata_def cominitCommonGetPartSize_def
    using run fd E off len
    by (auto simp: wp_simps Let_def k_def [symmetric] off_def [symmetric] intro!: wp_mono [OF read] tail vcg)
qed

section \<open>Refusals\<close>

text \<open>A partition smaller than the metadata region is refused after its size has been asked for:
  the wrapped-around offset is negative as \<^verbatim>\<open>off_t\<close>, nothing is positioned or read, and the
  descriptor is closed.\<close>
lemma load_small_partition:
  assumes "status w = Running"
    and "\<And>h fd. unat (val (env w h (Dev (Blkgetsize64 fd)))) < COMINIT_PART_META_DATA_SIZE"
  shows "wp (cominitLoadVerifyMetadata cfg meta keyfile) (\<lambda>(e, m) w'. e = - 1 \<and> m = meta
     \<and> status w' = Running \<and> (\<exists>o' s c. trace w' = trace w @ [(Fs (Open (devicePath meta) [O_RDONLY]), o')]
        \<or> trace w' = trace w @ [(Fs (Open (devicePath meta) [O_RDONLY]), o'),
             (Dev (Blkgetsize64 (rc o')), s), (Fs (Close (rc o')), c)])) w"
proof -
  have neg: "sint (val (env w h (Dev (Blkgetsize64 fd))) - of_nat COMINIT_PART_META_DATA_SIZE) < 0" for h fd
    using assms(2) [of h fd] by (intro sint_below) (auto simp: lits)
  show ?thesis
    unfolding cominitLoadVerifyMetadata_def cominitCommonGetPartSize_def cominitBinReadall_def
    using assms(1) neg by (auto simp: wp_simps Let_def)
qed

section \<open>Short reads\<close>

text \<open>C37: A region that arrives in two reads is not put together: \<^verbatim>\<open>cominitBinReadall\<close> reports success, but
  the second part has overwritten the beginning of the first one, since the buffer pointer is not
  advanced.\<close>
theorem readall_two_reads:
  assumes "status w = Running" and "2 \<le> fuel w" and "0 \<le> off"
    and "\<And>h. rc (env w h (Fs (Lseek fd off))) \<noteq> - 1"
    and "0 < k" "k < len"
    and "\<And>h. rc (env w h (Fs (Read fd len))) = int k" "\<And>h. bytes (env w h (Fs (Read fd len))) = a"
    and "\<And>h. rc (env w h (Fs (Read fd (len - k)))) = int (len - k)"
      "\<And>h. bytes (env w h (Fs (Read fd (len - k)))) = b"
    and "length a = k" "length b = len - k" "length buf = len"
  shows "wp (cominitBinReadall (Some buf) fd off len)
     (\<lambda>(e, r) w'. e = 0 \<and> r = Some (overlay b (overlay a buf)) \<and> status w' = Running) w"
proof -
  obtain n where n: "fuel w = Suc (Suc n)"
    using assms(2) by (metis One_nat_def Suc_1 Suc_le_D Suc_le_mono)
  have loop: "wp (readall_loop (Suc (Suc n)) buf fd len)
      (\<lambda>(e, r) v'. e = 0 \<and> r = overlay b (overlay a buf) \<and> status v' = Running) v"
    if "status v = Running" "env v = env w" for v
    unfolding wp_def using assms(5-) that
    by (simp add: readall_loop_step [where k = k] readall_loop_step [where k = "len - k"])
  show ?thesis
    unfolding cominitBinReadall_def using assms(1,3,4) n
    by (auto simp: wp_simps intro!: wp_mono [OF loop])
qed

text \<open>Reads of 8 bytes: 5 are delivered, then 3.\<close>
definition short_env :: "event list \<Rightarrow> call \<Rightarrow> reply" where
  "short_env h c = (case c of
      Fs (Read fd len) \<Rightarrow> if len = 8 then ok\<lparr>rc := 5, bytes := [1, 2, 3, 4, 5]\<rparr>
                         else ok\<lparr>rc := 3, bytes := [6, 7, 8]\<rparr>
    | _ \<Rightarrow> ok)"

theorem readall_two_reads_witness:
  "wp (cominitBinReadall (Some (replicate 8 0)) 3 0 8)
     (\<lambda>(e, r) w'. e = 0 \<and> r = Some [6, 7, 8, 4, 5, 0, 0, 0] \<and> status w' = Running) (start short_env 2)"
  using readall_two_reads [of "start short_env 2" 0 3 5 8 "[1, 2, 3, 4, 5]" "[6, 7, 8]" "replicate 8 0"]
  by (simp add: short_env_def ok_def overlay_def numeral_eq_Suc)

section \<open>The end of the read loop\<close>

text \<open>C34: The read loop ends whenever every read fails or delivers at least one byte: as many turns as
  there are bytes to read are enough.\<close>
theorem readall_terminates:
  assumes "reads_progress (env w)" and "status w = Running" and "len \<le> fuel w"
  shows "wp (cominitBinReadall buf fd off len) (\<lambda>_ w'. status w' = Running) w"
  unfolding cominitBinReadall_def using assms
  by (auto simp: wp_simps split: option.split intro!: wp_mono [OF readall_loop_terminates])

theorem readall_terminates_witness:
  "reads_progress (\<lambda>_ _. ok\<lparr>rc := 1\<rparr>)
   \<and> wp (cominitBinReadall (Some (replicate 4 0)) 3 0 4) (\<lambda>_ w'. status w' = Running) (start (\<lambda>_ _. ok\<lparr>rc := 1\<rparr>) 4)"
  using readall_terminates [of "start (\<lambda>_ _. ok\<lparr>rc := 1\<rparr>) 4" 4 "Some (replicate 4 0)" 3 0]
  by (simp add: reads_progress_def)

text \<open>C38: The read loop does not end at the end of the file: while reads deliver nothing it goes on
  for any number of turns.\<close>
theorem readall_spins_at_eof:
  assumes "reads_eof (env w)" and "status w = Running" and "0 < len" and "0 \<le> off"
    and "rc (env w (trace w) (Fs (Lseek fd off))) \<noteq> - 1"
  shows "wp (cominitBinReadall (Some b) fd off len) (\<lambda>_ w'. status w' = Spinning) w"
  unfolding cominitBinReadall_def using assms
  by (auto simp: wp_simps intro!: wp_mono [OF readall_loop_eof])

theorem readall_spins_at_eof_witness:
  "reads_eof (\<lambda>_ _. ok)
   \<and> wp (cominitBinReadall (Some (replicate 4 0)) 3 0 4) (\<lambda>_ w'. status w' = Spinning) (start (\<lambda>_ _. ok) 100)"
  using readall_spins_at_eof [of "start (\<lambda>_ _. ok) 100" 4 0 3 "replicate 4 0"]
  by (simp add: reads_eof_def ok_def)

section \<open>What is accepted\<close>

lemma load_wf:
  assumes "meta_wf meta"
  shows "returns (\<lambda>(e, m). (e = 0 \<or> e = - 1) \<and> meta_wf m \<and> devicePath m = devicePath meta)
     (cominitLoadVerifyMetadata cfg meta keyfile)"
  unfolding cominitLoadVerifyMetadata_def Let_def
  by (auto intro!: returns_intros returns_bind_spec [OF parse_wf [OF assms]] simp: assms)

text \<open>C12: Loading the metadata, for all answers of the outside world: the record keeps its device path and
  its strings stay within their buffers on success and on failure, and 0 is returned only if the
  region was read from the end of the record's own device, the signature over exactly the text that
  was read was accepted by the key, and the record returned is the result of parsing this text right
  afterwards. No other call is made on the way to a success.\<close>
theorem load_verified:
  assumes "meta_wf meta"
  shows "wp (cominitLoadVerifyMetadata cfg meta keyfile) (\<lambda>(e, m) w'. (e = 0 \<or> e = - 1)
     \<and> meta_wf m \<and> devicePath m = devicePath meta
     \<and> (e = 0 \<and> status w' = Running \<longrightarrow>
          (\<exists>metabuf reads acc. region_accepted keyfile (devicePath meta) metabuf reads acc
             \<and> run_state (cominitParseMetadata (Some meta) (Some (cstr metabuf)))
                 (w\<lparr>trace := trace w @ reads @ acc\<rparr>) = ((0, Some m), w')))) w"
proof (rule wpI, clarify)
  fix e m w' assume h: "run_state (cominitLoadVerifyMetadata cfg meta keyfile) w = ((e, m), w')"
  have "(e = 0 \<or> e = - 1) \<and> meta_wf m \<and> devicePath m = devicePath meta"
    using returnsD [OF load_wf [OF assms] h] by simp
  with load_accepted h show "(e = 0 \<or> e = - 1) \<and> meta_wf m \<and> devicePath m = devicePath meta
      \<and> (e = 0 \<and> status w' = Running \<longrightarrow>
          (\<exists>metabuf reads acc. region_accepted keyfile (devicePath meta) metabuf reads acc
             \<and> run_state (cominitParseMetadata (Some meta) (Some (cstr metabuf)))
                 (w\<lparr>trace := trace w @ reads @ acc\<rparr>) = ((0, Some m), w')))"
    by blast
qed

text \<open>A device with a signed plain ext4, and a key that accepts the signature.\<close>
definition plain_region :: "byte list" where
  "plain_region = bytes_of (metadata_text ''ext4'' True ''plain'' [] []) @ 0 # replicate 4078 7"

definition signed_env :: "event list \<Rightarrow> call \<Rightarrow> reply" where
  "signed_env h c = (case c of
      Fs (Open p fl) \<Rightarrow> ok\<lparr>rc := 3\<rparr>
    | Dev (Blkgetsize64 fd) \<Rightarrow> ok\<lparr>val := 1048576\<rparr>
    | Fs (Lseek fd off) \<Rightarrow> ok\<lparr>rc := off\<rparr>
    | Fs (Read fd len) \<Rightarrow> ok\<lparr>rc := int len, bytes := plain_region\<rparr>
    | Pk Pk_get_type \<Rightarrow> ok\<lparr>rc := 1\<rparr>
    | Pk Pk_can_do_rsa \<Rightarrow> ok\<lparr>rc := 1\<rparr>
    | _ \<Rightarrow> ok)"

definition plain_device :: cominitRfsMetaData_t where
  "plain_device = rfsMeta_zero\<lparr>devicePath := ''/dev/sda2''\<rparr>"

lemma plain_region_text:
  "length plain_region = COMINIT_PART_META_DATA_SIZE" "cstr plain_region = metadata_text ''ext4'' True ''plain'' [] []"
  "length (takeWhile (\<lambda>b. b \<noteq> 0) plain_region) = 17"
proof -
  have nul: "CHR 0x00 \<notin> set (metadata_text ''ext4'' True ''plain'' [] [])" by (simp add: metadata_text_def mode_name_def)
  show "length plain_region = COMINIT_PART_META_DATA_SIZE"
    by (simp add: plain_region_def metadata_text_def mode_name_def lits)
  show "cstr plain_region = metadata_text ''ext4'' True ''plain'' [] []"
    unfolding plain_region_def using nul by (rule cstr_bytes_of)
  then have "length (cstr plain_region) = 17" by (simp add: metadata_text_def mode_name_def)
  then show "length (takeWhile (\<lambda>b. b \<noteq> 0) plain_region) = 17" by (simp add: length_cstr)
qed

lemma plain_loaded:
  "wp (cominitLoadVerifyMetadata default_config plain_device ''/key'')
     (\<lambda>(e, m) w'. e = 0 \<and> m = with_settings plain_device ''ext4'' True COMINIT_CRYPTOPT_NONE \<and> status w' = Running)
     (start signed_env 1)"
proof (rule load_complete [where region = plain_region])
  show "serves_region (env (start signed_env 1)) (devicePath plain_device) plain_region"
    unfolding serves_region_def
    by (intro exI [of _ 3] exI [of _ "1048576 :: nat"])
      (simp add: signed_env_def ok_def plain_region_text(1) [unfolded lits] lits)
  show "accepts_signature (env (start signed_env 1)) ''/key''"
    by (simp add: accepts_signature_def signed_env_def ok_def)
  show "cominitParseMetadata (Some plain_device) (Some (cstr plain_region))
      = return (0, Some (with_settings plain_device ''ext4'' True COMINIT_CRYPTOPT_NONE))"
    unfolding plain_region_text(2)
    by (subst parse_settings [where c = COMINIT_CRYPTOPT_NONE]) (auto simp: word_text_def crypt_of_name_def lits)
qed (auto simp: plain_region_text(3) lits)

theorem load_verified_witness:
  "wp (cominitLoadVerifyMetadata default_config plain_device ''/key'') (\<lambda>(e, m) w'. e = 0 \<and> status w' = Running
     \<and> fsType m = ''ext4'' \<and> (\<exists>metabuf reads acc. region_accepted ''/key'' ''/dev/sda2'' metabuf reads acc
         \<and> run_state (cominitParseMetadata (Some plain_device) (Some (cstr metabuf)))
             ((start signed_env 1)\<lparr>trace := reads @ acc\<rparr>) = ((0, Some m), w'))) (start signed_env 1)"
proof -
  have "meta_wf plain_device" by (simp add: meta_wf_def plain_device_def rfsMeta_zero_def lits)
  from wp_conj [THEN iffD2, OF conjI, OF plain_loaded load_verified [OF this, of default_config "''/key''"]]
  show ?thesis by (rule wp_mono) (auto simp: with_settings_def plain_device_def lits)
qed

end
