(* ===== verification/Boot_Complete.thy ===== *)
theory Boot_Complete
  imports Cominit Meta_Load
begin

text \<open>
  When the boot succeeds: an environment that serves a signed region for a plain rootfs or one with
  dm-verity and answers the remaining calls with success is enough for cominit to end in the init of
  that rootfs, whatever SELinux, the HSM emulation and the initramfs do.
\<close>

section \<open>Environments\<close>

text \<open>How many entries of the initramfs were asked for.\<close>
definition walked :: "event list \<Rightarrow> nat" where
  "walked h = length (filter (\<lambda>e. fst e = Fs (Nftw_next ''/'' 32 [FTW_DEPTH, FTW_PHYS, FTW_MOUNT])) h)"

lemma walked_simps [simp]:
  "walked (a @ b) = walked a + walked b" "walked [] = 0" "walked ((c, r) # h) = (if c = Fs (Nftw_next ''/'' 32 [FTW_DEPTH, FTW_PHYS, FTW_MOUNT]) then 1 else 0) + walked h"
  by (simp_all add: walked_def)

text \<open>An initramfs of at most \<open>k\<close> entries, and success of every call the boot cannot do without.\<close>
definition obliging :: "config \<Rightarrow> (event list \<Rightarrow> call \<Rightarrow> reply) \<Rightarrow> string \<Rightarrow> nat \<Rightarrow> bool" where
  "obliging cfg E root k \<longleftrightarrow> (\<forall>h.
      rc (E h (Fs (Stat root))) = 0 \<and> (\<forall>p m. rc (E h (Fs (Mkdir p m))) = 0)
    \<and> (\<forall>s t ty fl. rc (E h (Fs (Mount s t ty fl))) = 0) \<and> (\<forall>p. rc (E h (Fs (Umount2_detach p))) = 0)
    \<and> rc (E h (Fs (Open (''/dev/'' @ dm_dir cfg @ ''/'' @ dm_control_node cfg) [O_RDWR]))) \<noteq> - 1
    \<and> (\<forall>fd nm sz. rc (E h (Dev (Dm_dev_create fd nm sz))) = 0)
    \<and> (\<forall>fd d f c st sc ty tb sz. rc (E h (Dev (Dm_table_load fd d f c st sc ty tb sz))) = 0)
    \<and> (\<forall>fd d sz. rc (E h (Dev (Dm_dev_suspend fd d sz))) = 0) \<and> (\<forall>p fl d. rc (E h (Fs (Mknod p fl d))) = 0)
    \<and> (k \<le> walked h \<longrightarrow> rc (E h (Fs (Nftw_next ''/'' 32 [FTW_DEPTH, FTW_PHYS, FTW_MOUNT]))) \<noteq> 1) \<and> (\<forall>p. rc (E h (Fs (Chdir p))) = 0)
    \<and> rc (E h (Fs (Chroot ''.''))) = 0
    \<and> rc (E h (Proc (Execve ''/sbin/init'' [''/sbin/init'']))) = 0)"

lemma obliging_replies:
  assumes "obliging cfg E root k"
  shows "rc (E h (Fs (Stat root))) = 0" "rc (E h (Fs (Mkdir p m))) = 0" "rc (E h (Fs (Mount s t ty fl))) = 0"
    "rc (E h (Fs (Umount2_detach p))) = 0" "rc (E h (Dev (Dm_dev_create fd nm sz))) = 0"
    "rc (E h (Fs (Open (''/dev/'' @ dm_dir cfg @ ''/'' @ dm_control_node cfg) [O_RDWR]))) \<noteq> - 1"
    "rc (E h (Dev (Dm_table_load fd d f c st sc ty' tb sz))) = 0" "rc (E h (Dev (Dm_dev_suspend fd d sz))) = 0"
    "rc (E h (Fs (Mknod p fl' d))) = 0" "k \<le> walked h \<Longrightarrow> rc (E h (Fs (Nftw_next ''/'' 32 [FTW_DEPTH, FTW_PHYS, FTW_MOUNT]))) \<noteq> 1"
    "rc (E h (Fs (Chdir p))) = 0" "rc (E h (Fs (Chroot ''.''))) = 0"
    "rc (E h (Proc (Execve ''/sbin/init'' [''/sbin/init'']))) = 0"
  using assms by (simp_all add: obliging_def)

text \<open>A build or options without the TPM.\<close>
definition without_tpm :: "config \<Rightarrow> cominitCliArgs_t \<Rightarrow> bool" where
  "without_tpm cfg args \<longleftrightarrow> (use_tpm cfg \<longrightarrow> devNodeCrypt args \<noteq> [] \<and> \<not> cominitUseTpm (Some args))"

text \<open>The rootfs described by a region: plain, or with dm-verity.\<close>
datatype protection = Plain | Verity string nat nat nat nat string string

primrec protected_text :: "protection \<Rightarrow> string \<Rightarrow> bool \<Rightarrow> string" where
  "protected_text Plain fs b = metadata_text fs b ''plain'' [] []"
| "protected_text (Verity version bsize hsize blocks hstart alg ds) fs b =
     metadata_text fs b ''verity'' (verity_text version bsize hsize blocks hstart alg ds) []"

primrec protected_meta :: "protection \<Rightarrow> string \<Rightarrow> bool \<Rightarrow> cominitRfsMetaData_t \<Rightarrow> cominitRfsMetaData_t" where
  "protected_meta Plain fs b m = with_settings m fs b COMINIT_CRYPTOPT_NONE"
| "protected_meta (Verity version bsize hsize blocks hstart alg ds) fs b m =
     (with_settings m fs b COMINIT_CRYPTOPT_VERITY)\<lparr>
       dmTableVerint := verity_table (devicePath m) version bsize hsize blocks hstart alg ds,
       dmVerintDataSizeBytes := of_nat bsize * of_nat blocks\<rparr>"

text \<open>What README.md asks of the values; dm-verity needs a read-only rootfs.\<close>
primrec protection_ok :: "protection \<Rightarrow> string \<Rightarrow> bool \<Rightarrow> bool" where
  "protection_ok Plain root b = True"
| "protection_ok (Verity version bsize hsize blocks hstart alg ds) root b = (b \<and> word_text version \<and> word_text alg
     \<and> CHR 0xFF \<notin> set (verity_text version bsize hsize blocks hstart alg ds) \<and> bsize < 2 ^ 64 \<and> blocks < 2 ^ 64
     \<and> length (verity_table root version bsize hsize blocks hstart alg ds) < COMINIT_DM_TABLE_SIZE_MAX)"

text \<open>A region: the text, a zero byte, the signature and padding.\<close>
definition rootfs_region :: "string \<Rightarrow> protection \<Rightarrow> string \<Rightarrow> bool \<Rightarrow> byte list \<Rightarrow> bool" where
  "rootfs_region root p fs b region \<longleftrightarrow> (\<exists>rest. region = bytes_of (protected_text p fs b) @ 0 # rest)
     \<and> CHR 0x00 \<notin> set (protected_text p fs b)
     \<and> length (protected_text p fs b) < COMINIT_PART_META_DATA_SIZE - COMINIT_PART_META_SIG_LENGTH - 1
     \<and> word_text fs \<and> CHR 0xFF \<notin> set fs \<and> length fs < COMINIT_FSTYPE_STR_MAX_LEN
     \<and> (fs = ''squashfs'' \<longrightarrow> b) \<and> protection_ok p root b"

text \<open>What the steps of the boot keep.\<close>
definition alive :: "(event list \<Rightarrow> call \<Rightarrow> reply) \<Rightarrow> nat \<Rightarrow> world \<Rightarrow> bool" where
  "alive E n w \<longleftrightarrow> status w = Running \<and> env w = E \<and> fuel w = n"

lemma alive_trace [simp]: "alive E n (w\<lparr>trace := t\<rparr>) = alive E n w"
  by (simp add: alive_def)

lemma wp_alive:
  assumes "alive E n w"
  shows "wp (sys c) Q w = Q (E (trace w) c) (w\<lparr>trace := trace w @ [(c, E (trace w) c)]\<rparr>)"
    "wp (run c) Q1 w = Q1 () (w\<lparr>trace := trace w @ [(c, E (trace w) c)]\<rparr>)" "wp get_fuel Q2 w = Q2 n w"
  using assms by (simp_all add: alive_def wp_simps)

lemma alive_start [simp]: "alive E n (start E n)"
  by (simp add: alive_def)

text \<open>A part of the boot whose result is not looked at has to leave the process running only.\<close>
definition runs_on :: "'a op \<Rightarrow> bool" where
  "runs_on m \<longleftrightarrow> (\<forall>w. status w = Running \<longrightarrow> wp m (\<lambda>_ w'. status w' = Running) w)"

lemma runs_on_rules:
  "runs_on (return a)" "runs_on (sys c)" "runs_on (run c)"
  "runs_on m \<Longrightarrow> (\<And>a. runs_on (f a)) \<Longrightarrow> runs_on (State_Monad.bind m f)"
  "(b \<Longrightarrow> runs_on x) \<Longrightarrow> (\<not> b \<Longrightarrow> runs_on y) \<Longrightarrow> runs_on (if b then x else y)"
  "(v = None \<Longrightarrow> runs_on x) \<Longrightarrow> (\<And>a. v = Some a \<Longrightarrow> runs_on (g a)) \<Longrightarrow> runs_on (case v of None \<Rightarrow> x | Some a \<Rightarrow> g a)"
  "(\<And>a. runs_on (k a)) \<Longrightarrow> runs_on (let a = e in k a)"
  by (auto simp: runs_on_def wp_simps Let_def intro: wp_mono split: option.split)

lemma runs_alive:
  assumes "emits K m" and "runs_on m" and "alive E n w"
  shows "wp m (\<lambda>_ w'. alive E n w') w"
proof (rule wpI)
  fix a w' assume run: "run_state m w = (a, w')"
  have "wp m (\<lambda>_ w'. status w' = Running) w" using assms(2,3) by (simp add: runs_on_def alive_def)
  from wp_run_state [OF this run] emitsD(1,2) [OF assms(1) run] assms(3) show "alive E n w'" by (simp add: alive_def)
qed

section \<open>The steps\<close>

lemma sysfiles_alive:
  assumes "obliging cfg E root k" and "alive E n w"
  shows "wp cominitSetupSysfiles (\<lambda>s w'. s = 0 \<and> alive E n w') w"
  using assms(2) unfolding cominitSetupSysfiles_def mkdir_exist_ok_def mount_busy_ok_def
  by (simp add: wp_simps obliging_replies [OF assms(1)] alive_def)

lemma hsm_alive:
  assumes "alive E n w"
  shows "wp (cominitKeyringInitFakeHsm cfg) (\<lambda>_ w'. alive E n w') w"
proof -
  have "runs_on (fake_hsm_loop cfg ds)" for ds
    by (induction ds)
      (auto simp: fake_hsm_enrol_def cominitKeyringAddUserKey_def intro!: runs_on_rules)
  then show ?thesis
    by (intro runs_alive [OF fake_hsm.footprint _ assms]) (simp add: cominitKeyringInitFakeHsm_def)
qed

lemma selinux_alive:
  assumes "alive E n w"
  shows "wp (selinux_setup cfg args) (\<lambda>_ w'. alive E n w') w"
  by (rule runs_alive [OF selinux.footprint _ assms])
    (auto simp: selinux_setup_def cominitLoadSelinuxPolicy_def cominitSetSelinuxMode_def
      cominitSetupSysSelinuxfiles_def mkdir_exist_ok_def mount_busy_ok_def intro!: runs_on_rules)

lemma discover_alive:
  assumes "obliging cfg E root k" and "alive E n w" and "devNodeRootFs args = root" "root \<noteq> []"
  shows "wp (discover_loop t args meta disk)
     (\<lambda>found w'. found = Some (meta\<lparr>devicePath := root\<rparr>, disk) \<and> alive E n w') w"
  using assms(2-4) by (cases t) (simp_all add: cominitDiscoverRootfs_def wp_simps obliging_replies [OF assms(1)] alive_def)

text \<open>The walk over the initramfs ends when it has more turns than entries are left.\<close>
lemma walk_alive:
  assumes E: "obliging cfg E root k" and "alive E n w" and "k - walked (trace w) < m"
  shows "wp (nftw_loop m) (\<lambda>_ w'. alive E n w') w"
  using assms(2,3)
proof (induction m arbitrary: w)
  case (Suc m)
  let ?r = "E (trace w) (Fs (Nftw_next ''/'' 32 [FTW_DEPTH, FTW_PHYS, FTW_MOUNT]))"
  have rest: "wp (nftw_loop m) (\<lambda>_ w'. alive E n w') v"
    if "rc ?r = 1" "alive E n v" "walked (trace v) = Suc (walked (trace w))" for v
  proof (rule Suc.IH [OF that(2)])
    have "\<not> k \<le> walked (trace w)" using obliging_replies(10) [OF E] that(1) by blast
    with Suc.prems(2) that(3) show "k - walked (trace v) < m" by linarith
  qed
  show ?case
    using Suc.prems(1) unfolding nftw_loop.simps cominitNftwRemove_def
    by (auto simp: wp_alive wp_bind wp_return split: ftw.split intro!: rest)
qed simp

lemma switch_alive:
  assumes E: "obliging cfg E root k" and "alive E n w" and "k < n"
  shows "wp switch_and_exec (\<lambda>_ w'. status w' = Replaced ''/sbin/init'') w"
proof -
  have walk: "wp (nftw_loop n) (\<lambda>_ w'. alive E n w') v" if "alive E n v" for v
    by (rule walk_alive [OF E that]) (use assms(3) in simp)
  have enter: "wp (do { a \<leftarrow> sys (Fs (Chdir ''/newroot''));
       if rc a = - 1 then return (- 1 :: int) else do {
       b \<leftarrow> sys (Fs (Mount ''/newroot'' ''/'' None [MS_MOVE]));
       if rc b = - 1 then return (- 1) else do {
       c \<leftarrow> sys (Fs (Chroot ''.''));
       if rc c = - 1 then return (- 1) else do {
       d \<leftarrow> sys (Fs (Chdir ''/''));
       if rc d = - 1 then return (- 1) else return 0 } } } })
     (\<lambda>s. wp (if s = - 1 then return () else do { _ \<leftarrow> execve ''/sbin/init'' [''/sbin/init'']; return () })
        (\<lambda>_ w'. status w' = Replaced ''/sbin/init'')) v" if "alive E n v" for v
    using that by (simp add: wp_simps obliging_replies [OF E] alive_def execve_def)
  show ?thesis
    unfolding switch_and_exec_def cominitSwitchIntoRootfs_def wp_bind [of _ "\<lambda>s. if s = - 1 then return () else f" for f]
      wp_bind [of get_fuel] wp_bind [of "nftw_loop n" for n] wp_alive(3) [OF assms(2)]
    by (rule wp_mono [OF walk [OF assms(2)]], rule enter)
qed

lemma setup_dm_alive:
  assumes E: "obliging cfg E root k" and "alive E n w" and "dm_target_name m \<noteq> None"
  shows "wp (cominitSetupDmDevice cfg (Some m))
     (\<lambda>(e, r) w'. e = 0 \<and> r = Some (m\<lparr>devicePath := dm_rootfs_path cfg\<rparr>) \<and> alive E n w') w"
  using assms(2,3) unfolding cominitSetupDmDevice_def dm_ops
  by (auto simp: wp_alive wp_bind wp_return wp_if wp_case_prod Let_def obliging_replies [OF E, simplified])

lemma setup_rootfs_alive:
  assumes E: "obliging cfg E root k" and w: "alive E n w"
    and m: "crypt m = COMINIT_CRYPTOPT_NONE \<or> dm_target_name m \<noteq> None" "fsType m = ''squashfs'' \<longrightarrow> ro m"
  shows "wp (cominitSetupRootfs cfg (Some m)) (\<lambda>(e, r) w'. e = 0 \<and> alive E n w') w"
proof -
  have mount: "wp (mount_newroot x) (\<lambda>r w'. r = 0 \<and> alive E n w') v" if "alive E n v" for x v
    using that unfolding mount_newroot_def mkdir_exist_ok_def fail_if_minus1_def
    by (simp add: wp_alive wp_bind wp_return obliging_replies [OF E])
  have dm: "wp (if crypt m \<noteq> COMINIT_CRYPTOPT_NONE then cominitSetupDmDevice cfg (Some m) else return (0, Some m))
      (\<lambda>(e, r) w'. e = 0 \<and> alive E n w') w"
    using m(1) w by (auto simp: wp_return intro!: wp_mono [OF setup_dm_alive [OF E w]])
  from m(2) have ok: "\<not> (\<not> ro m \<and> fsType m = ''squashfs'')" by blast
  show ?thesis
    unfolding cominitSetupRootfs_def option.case if_not_P [OF ok]
    by (rule vcg_bind, rule wp_mono [OF dm]) (auto simp: wp_bind wp_return intro!: wp_mono [OF mount])
qed

lemma enter_alive:
  assumes E: "obliging cfg E root k" and w: "alive E n w" "k < n" and tpm: "without_tpm cfg args"
    and m: "crypt m = COMINIT_CRYPTOPT_NONE \<or> dm_target_name m \<noteq> None" "fsType m = ''squashfs'' \<longrightarrow> ro m"
  shows "wp (enter_rootfs cfg args m) (\<lambda>_ w'. status w' = Replaced ''/sbin/init'') w"
proof -
  have storage: "\<not> (use_tpm cfg \<and> cominitTpmSecureStorageEnabled (Some args))"
    using tpm by (auto simp: without_tpm_def cominitUseTpm_def split: if_splits)
  have clean: "wp cominitCleanupSysfiles (\<lambda>_ w'. alive E n w') v" "wp cominitCleanupSelinuxfiles (\<lambda>_ w'. alive E n w') v"
    if "alive E n v" for v
    using that unfolding cominitCleanupSysfiles_def cominitCleanupSelinuxfiles_def fail_if_minus1_def
    by (simp_all add: wp_alive wp_bind wp_return wp_if)
  show ?thesis
    unfolding enter_rootfs_def
    by (auto simp: wp_bind wp_return storage
        intro!: wp_mono [OF setup_rootfs_alive [OF E w(1) m]] wp_mono [OF selinux_alive] wp_mono [OF clean(1)]
          wp_mono [OF clean(2)] switch_alive [OF E _ w(2)])
qed

section \<open>The region\<close>

lemma rootfs_region_text:
  assumes "rootfs_region root p fs b region" and "devicePath m = root"
  shows "length (takeWhile (\<lambda>x. x \<noteq> 0) region) < COMINIT_PART_META_DATA_SIZE - COMINIT_PART_META_SIG_LENGTH - 1"
    and "cominitParseMetadata (Some m) (Some (cstr region)) = return (0, Some (protected_meta p fs b m))"
proof -
  from assms(1) obtain rest where r: "region = bytes_of (protected_text p fs b) @ 0 # rest"
    and nul: "CHR 0x00 \<notin> set (protected_text p fs b)" and fs: "word_text fs" "CHR 0xFF \<notin> set fs"
    and p: "protection_ok p root b"
    and len: "length (protected_text p fs b) < COMINIT_PART_META_DATA_SIZE - COMINIT_PART_META_SIG_LENGTH - 1"
    unfolding rootfs_region_def by blast
  have c: "cstr region = protected_text p fs b" unfolding r by (rule cstr_bytes_of [OF nul])
  with len length_cstr [of region]
  show "length (takeWhile (\<lambda>x. x \<noteq> 0) region) < COMINIT_PART_META_DATA_SIZE - COMINIT_PART_META_SIG_LENGTH - 1" by simp
  show "cominitParseMetadata (Some m) (Some (cstr region)) = return (0, Some (protected_meta p fs b m))"
  proof (cases p)
    case Plain
    then show ?thesis
      unfolding c using parse_settings [OF fs, of "[]" "''plain''" COMINIT_CRYPTOPT_NONE m b "[]"]
      by (simp add: crypt_of_name_def lits)
  next
    case (Verity version bsize hsize blocks hstart alg ds)
    with p assms(2) show ?thesis
      unfolding c by (simp add: parse_verity [OF fs])
  qed
qed

text \<open>The record is one the boot can mount.\<close>
lemma protected_meta_mounts:
  assumes "rootfs_region root p fs b region"
  shows "crypt (protected_meta p fs b m) AND COMINIT_CRYPTOPT_CRYPT = 0"
    and "crypt (protected_meta p fs b m) = COMINIT_CRYPTOPT_NONE \<or> dm_target_name (protected_meta p fs b m) \<noteq> None"
    and "fsType (protected_meta p fs b m) = ''squashfs'' \<longrightarrow> ro (protected_meta p fs b m)"
  using assms by (cases p; auto simp: rootfs_region_def with_settings_def dm_target_name_def lits)+

section \<open>The whole boot\<close>

lemma load_alive:
  assumes "serves_region E root region" and "accepts_signature E COMINIT_ROOTFS_KEY_LOCATION"
    and "rootfs_region root p fs b region" and "devicePath meta = root" and "alive E n w" and "0 < n"
  shows "wp (cominitLoadVerifyMetadata cfg meta COMINIT_ROOTFS_KEY_LOCATION)
     (\<lambda>(e, m) w'. e = 0 \<and> m = protected_meta p fs b meta \<and> alive E n w') w"
proof (rule wpI, clarify)
  fix e m w' assume h: "run_state (cominitLoadVerifyMetadata cfg meta COMINIT_ROOTFS_KEY_LOCATION) w = ((e, m), w')"
  have "wp (cominitLoadVerifyMetadata cfg meta COMINIT_ROOTFS_KEY_LOCATION)
      (\<lambda>(e, m) w'. e = 0 \<and> m = protected_meta p fs b meta \<and> status w' = Running) w"
    using assms by (intro load_complete [where region = region] rootfs_region_text) (auto simp: alive_def)
  from wp_run_state [OF this h] emitsD(1,2) [OF load_metadata.footprint h] assms(5)
  show "e = 0 \<and> m = protected_meta p fs b meta \<and> alive E n w'" by (simp add: alive_def)
qed

lemma boot_alive:
  assumes E: "obliging cfg E root k" and region: "serves_region E root region" "rootfs_region root p fs b region"
    and sig: "accepts_signature E COMINIT_ROOTFS_KEY_LOCATION"
    and args: "devNodeRootFs args = root" "root \<noteq> []" "without_tpm cfg args" and w: "alive E n w" "k < n"
  shows "wp (boot cfg args) (\<lambda>_ w'. status w' = Replaced ''/sbin/init'') w"
proof -
  define meta where "meta = rfsMeta_zero\<lparr>devicePath := root\<rparr>"
  define m where "m = protected_meta p fs b meta"
  note mounts = protected_meta_mounts [OF region(2), of meta, folded m_def]
  have verified: "wp (boot_verified cfg args m disk) (\<lambda>_ w'. status w' = Replaced ''/sbin/init'') v"
    if "alive E n v" for disk v
    unfolding boot_verified_def find_secure_storage_def tpm_block_def
    using enter_alive [OF E that w(2) args(3) mounts(2,3)] mounts(1) args(3)
    by (auto simp: without_tpm_def wp_bind wp_return)
  have load: "wp (cominitLoadVerifyMetadata cfg meta COMINIT_ROOTFS_KEY_LOCATION)
      (\<lambda>a. wp (case a of (e, m') \<Rightarrow> if e = - 1 then return () else boot_verified cfg args m' disk)
        (\<lambda>_ w'. status w' = Replaced ''/sbin/init'')) v" if "alive E n v" for disk v
    using region sig w that
    by (intro wp_mono [OF load_alive [where p = p and fs = fs and b = b and region = region]])
      (auto simp: meta_def m_def [unfolded meta_def, symmetric] intro!: verified)
  show ?thesis
    unfolding boot_def
    by (auto simp: wp_bind wp_return meta_def [symmetric]
        intro!: wp_mono [OF sysfiles_alive [OF E w(1)]] wp_mono [OF hsm_alive] wp_mono [OF discover_alive [OF E _ args(1,2)]]
          load)
qed


text \<open>An environment with a root device that holds a signed ext4 with dm-verity, and an initramfs of one file.\<close>
definition sample_protection :: protection where
  "sample_protection = Verity ''1'' 4096 4096 256 257 ''sha256'' ''ab cd''"

definition sample_region :: "byte list" where
  "sample_region = bytes_of (protected_text sample_protection ''ext4'' True) @ 0 # replicate 4045 7"

definition sample_env :: "event list \<Rightarrow> call \<Rightarrow> reply" where
  "sample_env h c = (case c of
      Fs (Open p fl) \<Rightarrow> ok\<lparr>rc := 3\<rparr>
    | Dev (Blkgetsize64 fd) \<Rightarrow> ok\<lparr>val := 1048576\<rparr>
    | Fs (Lseek fd off) \<Rightarrow> ok\<lparr>rc := off\<rparr>
    | Fs (Read fd len) \<Rightarrow> ok\<lparr>rc := int len, bytes := sample_region\<rparr>
    | Fs (Nftw_next p k fl) \<Rightarrow> (if walked h = 0 then ok\<lparr>rc := 1, bytes := bytes_of ''/init''\<rparr> else ok)
    | Pk Pk_get_type \<Rightarrow> ok\<lparr>rc := 1\<rparr>
    | Pk Pk_can_do_rsa \<Rightarrow> ok\<lparr>rc := 1\<rparr>
    | _ \<Rightarrow> ok)"

definition sample_config :: config where
  "sample_config = default_config\<lparr>use_tpm := False\<rparr>"

lemma sample_text:
  "protected_text sample_protection ''ext4'' True =
     ''1 ext4 ro verity'' @ [CHR 0xFF] @ ''1 4096 4096 256 257 sha256 ab cd'' @ [CHR 0xFF]"
  by (simp add: sample_protection_def metadata_text_def mode_name_def verity_text_def udec.simps hex_digit_def)

lemma length_sample_region: "length sample_region = COMINIT_PART_META_DATA_SIZE"
  by (simp add: sample_region_def sample_text lits)

lemma rootfs_sample_region: "rootfs_region ''/dev/sda2'' sample_protection ''ext4'' True sample_region"
  unfolding rootfs_region_def sample_region_def sample_text
  by (auto simp: word_text_def lits sample_protection_def verity_text_def verity_table_def udec.simps hex_digit_def)

lemma sample_served: "serves_region sample_env root sample_region"
  unfolding serves_region_def
  by (intro exI [of _ 3] exI [of _ "1048576 :: nat"])
    (simp add: sample_env_def ok_def length_sample_region [unfolded lits] lits)

lemma sample_accepted: "accepts_signature sample_env key"
  by (simp add: accepts_signature_def sample_env_def ok_def)

lemma sample_obliging: "obliging cfg sample_env root 1"
  by (simp add: obliging_def sample_env_def ok_def)

lemma sample_args:
  "parse_args sample_config [''/init'', ''root=/dev/sda2''] (argCtx_init sample_config)
     = Inr ((argCtx_init sample_config)\<lparr>devNodeRootFs := ''/dev/sda2''\<rparr>)"
  by (simp add: parse_arg_def cominitParamCheck_def arg_blocks_def value_block_def flag_block_def
      cominitParseArgValue_def arg_value_def starts_with_def root_block_def cominitParseDeviceNode_def
      sample_config_def argCtx_init_def lits)


end
