(* ===== verification/Boot_Automaton.thy ===== *)
theory Boot_Automaton
  imports Cominit
begin

unbundle bit_operations_syntax

text \<open>
  The boot as a state machine, and the proof that src/cominit.c implements it: the phases are before
  verification, verified, mounted and switched, a step consumes the events of one or several calls,
  and every run of \<^verbatim>\<open>main\<close> is a run of the machine.
\<close>

section \<open>The machine\<close>

datatype phase = Locked | Verified cominitRfsMetaData_t | Mounted cominitRfsMetaData_t | Switched

definition newroot_mounted :: "event \<Rightarrow> bool" where
  "newroot_mounted e \<longleftrightarrow> (case e of (Fs (Mount _ t _ _), r) \<Rightarrow> t = ''/newroot'' \<and> rc r \<noteq> - 1 | _ \<Rightarrow> False)"

text \<open>
  A record becomes trusted when the region of its device was read, its signature accepted and the text
  parsed to it; partitions, the TPM and the device mapper are used with a trusted record only, and the
  only table that is loaded is the record's; files are removed only when the rootfs is mounted; and
  the init is started only after the switch.
\<close>
inductive boot_step :: "config \<Rightarrow> phase \<Rightarrow> event list \<Rightarrow> phase \<Rightarrow> bool" for cfg where
  quiet: "quiet_event e \<Longrightarrow> boot_step cfg p [e] p"
| accept: "verifies ver meta \<Longrightarrow> list_all quiet_event ver \<Longrightarrow> boot_step cfg Locked ver (Verified meta)"
| prepare: "crypt meta AND COMINIT_CRYPTOPT_CRYPT = 0 \<Longrightarrow>
    tpm_event cfg e \<or> scan_event e \<or> (\<exists>disk. disk_event disk e)
      \<or> rootfs_event cfg meta e \<and> \<not> newroot_mounted e \<Longrightarrow>
    boot_step cfg (Verified meta) [e] (Verified meta)"
| mount: "crypt meta AND COMINIT_CRYPTOPT_CRYPT = 0 \<Longrightarrow> mounts_rootfs cfg meta s ty fl \<Longrightarrow> rc r \<noteq> - 1 \<Longrightarrow>
    boot_step cfg (Verified meta) [(Fs (Mount s ''/newroot'' ty fl), r)] (Mounted meta)"
| finish: "tpm_event cfg e \<or> selinux_event e \<or> switch_event e \<Longrightarrow>
    boot_step cfg (Mounted meta) [e] (Mounted meta)"
| switch: "rc a \<noteq> - 1 \<Longrightarrow> rc b \<noteq> - 1 \<Longrightarrow> rc c \<noteq> - 1 \<Longrightarrow> rc d \<noteq> - 1 \<Longrightarrow>
    boot_step cfg (Mounted meta) [(Fs (Chdir ''/newroot''), a),
      (Fs (Mount ''/newroot'' ''/'' None [MS_MOVE]), b), (Fs (Chroot ''.''), c), (Fs (Chdir ''/''), d)] Switched"
| exec: "boot_step cfg Switched [(Proc (Execve ''/sbin/init'' [''/sbin/init'']), r)] Switched"

text \<open>A run of the machine.\<close>
abbreviation boot_run :: "config \<Rightarrow> phase \<Rightarrow> event list \<Rightarrow> phase \<Rightarrow> bool" where
  "boot_run cfg \<equiv> steps (boot_step cfg)"

section \<open>The parts of the boot\<close>

lemma sim_load:
  "simulates (boot_step cfg) Locked (cominitLoadVerifyMetadata cfg (rfsMeta_zero\<lparr>devicePath := dev\<rparr>) COMINIT_ROOTFS_KEY_LOCATION)
     (\<lambda>(e, m) q. e = - 1 \<or> q = Verified m)"
proof (rule simulatesI)
  let ?load = "cominitLoadVerifyMetadata cfg (rfsMeta_zero\<lparr>devicePath := dev\<rparr>) COMINIT_ROOTFS_KEY_LOCATION"
  fix w a w' assume "run_state ?load w = (a, w')"
  moreover obtain e m where a: "a = (e, m)" by (cases a)
  ultimately have l: "run_state ?load w = ((e, m), w')" by simp
  from emitsD(3) [OF load_metadata.footprint l] obtain x where
    x: "trace w' = trace w @ x" "\<forall>e \<in> set x. quiet_event e" using quiet_load by blast
  show "\<exists>x q. trace w' = trace w @ x \<and> boot_run cfg Locked x q
     \<and> (status w' = Running \<longrightarrow> (case a of (e, m) \<Rightarrow> \<lambda>q. e = - 1 \<or> q = Verified m) q)"
  proof (cases "e = - 1 \<or> status w' \<noteq> Running")
    case True
    have "boot_run cfg Locked x Locked" by (rule steps_stay [where S = "boot_step cfg", OF boot_step.quiet x(2)])
    with True x a show ?thesis by auto
  next
    case False
    with returnsD [OF load_codes l] have "e = 0" "status w' = Running" by auto
    from load_verifies [OF l [unfolded this(1)] this(2)] x have "verifies x m" "list_all quiet_event x"
      by (auto simp: list_all_iff)
    then have "boot_run cfg Locked x (Verified m)" by (intro steps_one boot_step.accept)
    with x a show ?thesis by auto
  qed
qed

lemma sim_mount:
  assumes "crypt meta AND COMINIT_CRYPTOPT_CRYPT = 0" and "mountable meta"
  shows "simulates (boot_step cfg) (Verified meta) (mount_newroot (rootfs_device cfg meta)) (\<lambda>e q. e = - 1 \<or> q = Mounted meta)"
proof -
  define c where "c = Fs (Mount (devicePath (rootfs_device cfg meta)) ''/newroot'' (Some (fsType (rootfs_device cfg meta)))
     (if ro (rootfs_device cfg meta) then [MS_RDONLY] else []))"
  have dir: "emits (\<lambda>e. \<exists>p n. fst e = Fs (Mkdir p n)) (mkdir_exist_ok p n)" for p n
    unfolding mkdir_exist_ok_def by (auto intro!: emits_intros)
  have quiet: "boot_step cfg (Verified meta) [e] (Verified meta)" if "\<exists>p n. fst e = Fs (Mkdir p n)" for e
    using that by (cases e) (auto simp: quiet_event_def boot_event_def intro!: boot_step.quiet)
  have "\<exists>q. boot_run cfg (Verified meta) [(c, r)] q \<and> (rc r = - 1 \<or> q = Mounted meta)" for r
  proof (cases "rc r = - 1")
    case True
    with assms have "boot_step cfg (Verified meta) [(c, r)] (Verified meta)"
      by (intro boot_step.prepare) (auto simp: c_def rootfs_event_def newroot_mounted_def rootfs_device_def)
    with True show ?thesis by (blast intro: steps_one)
  next
    case False
    with assms have "boot_step cfg (Verified meta) [(c, r)] (Mounted meta)"
      unfolding c_def by (intro boot_step.mount) (auto simp: mounts_rootfs_def rootfs_device_def)
    then show ?thesis by (blast intro: steps_one)
  qed
  then have "simulates (boot_step cfg) (Verified meta) (sys c) (\<lambda>r q. rc r = - 1 \<or> q = Mounted meta)" by (rule sim_sys)
  then have mount: "simulates (boot_step cfg) (Verified meta) (fail_if_minus1 c) (\<lambda>e q. e = - 1 \<or> q = Mounted meta)"
    unfolding fail_if_minus1_def by (rule sim_bind) (auto intro!: emits_intros sim_return)
  show ?thesis
    unfolding mount_newroot_def c_def [symmetric]
    by (rule sim_bind [OF sim_loop [where S = "boot_step cfg", OF dir quiet]])
      (auto simp: fail_if_minus1_def intro!: emits_intros sim_return mount [unfolded fail_if_minus1_def])
qed

lemma sim_rootfs:
  assumes "crypt meta AND COMINIT_CRYPTOPT_CRYPT = 0"
  shows "simulates (boot_step cfg) (Verified meta) (cominitSetupRootfs cfg (Some meta)) (\<lambda>(e, _) q. e = - 1 \<or> q = Mounted meta)"
proof (cases "\<not> ro meta \<and> fsType meta = ''squashfs''")
  case True
  then show ?thesis by (simp add: cominitSetupRootfs_def sim_return)
next
  case False
  have dm: "simulates (boot_step cfg) (Verified meta) (device_step cfg meta) (\<lambda>a q. q = Verified meta \<and>
      (case a of (e, r) \<Rightarrow> e \<noteq> - 1 \<longrightarrow> r = Some (rootfs_device cfg meta) \<and> mountable meta))"
    by (rule sim_events [OF device_step_events _ device_step_result [OF False]])
      (auto intro!: boot_step.prepare simp: assms rootfs_event_def dm_event_def newroot_mounted_def
        split: call.splits fs_call.splits)
  have inert: "emits (\<lambda>_. True) (mount_newroot m)" for m
    by (rule emits_mono [OF mount_root.footprint]) simp
  show ?thesis
    unfolding cominitSetupRootfs_def option.case if_not_P [OF False]
    by (rule sim_bind [OF dm])
      (auto intro!: emits_intros inert sim_return sim_bind [OF sim_mount [OF assms]])
qed

lemma sim_switch:
  "simulates (boot_step cfg) (Mounted meta) cominitSwitchIntoRootfs (\<lambda>e q. e = - 1 \<or> q = Switched)"
proof (rule simulatesI)
  fix w e w' assume run: "run_state cominitSwitchIntoRootfs w = (e, w')"
  from emitsD(3) [OF switch_root.footprint run] obtain x where
    x: "trace w' = trace w @ x" "\<forall>e \<in> set x. switch_event e" by blast
  have stay: "boot_run cfg (Mounted meta) y (Mounted meta)" if "\<forall>e \<in> set y. switch_event e" for y
    by (rule steps_stay [where S = "boot_step cfg" and K = switch_event]) (use that in \<open>auto intro: boot_step.finish\<close>)
  show "\<exists>x q. trace w' = trace w @ x \<and> boot_run cfg (Mounted meta) x q
     \<and> (status w' = Running \<longrightarrow> e = - 1 \<or> q = Switched)"
  proof (cases "e = - 1 \<or> status w' \<noteq> Running")
    case True
    with x stay [of x] show ?thesis by auto
  next
    case False
    with switch_root.not_bad [OF run] have "e = 0" "status w' = Running" by auto
    from switch_order [OF run [unfolded this(1)] this(2)] obtain walk a b c d where
      t: "trace w' = trace w @ walk @ [(Fs (Chdir ''/newroot''), a),
        (Fs (Mount ''/newroot'' ''/'' None [MS_MOVE]), b), (Fs (Chroot ''.''), c), (Fs (Chdir ''/''), d)]"
      "rc a \<noteq> - 1" "rc b \<noteq> - 1" "rc c \<noteq> - 1" "rc d \<noteq> - 1" by blast
    have "boot_run cfg (Mounted meta) (walk @ [(Fs (Chdir ''/newroot''), a),
        (Fs (Mount ''/newroot'' ''/'' None [MS_MOVE]), b), (Fs (Chroot ''.''), c), (Fs (Chdir ''/''), d)]) Switched"
      using x t by (intro steps_append [OF stay steps_one [where S = "boot_step cfg", OF boot_step.switch]]) auto
    with t(1) show ?thesis by blast
  qed
qed

lemma sim_exec: "simulates (boot_step cfg) (Mounted meta) switch_and_exec (\<lambda>_ _. True)"
proof -
  have exec: "simulates (boot_step cfg) Switched (execve ''/sbin/init'' [''/sbin/init'']) (\<lambda>_ _. True)"
    by (rule sim_mono [OF sim_loop [OF emits_execve [where K = "\<lambda>e. fst e = Proc (Execve ''/sbin/init'' [''/sbin/init''])"]]])
      (auto intro: boot_step.exec)
  show ?thesis
    unfolding switch_and_exec_def
    by (rule sim_bind [OF sim_switch]) (auto intro!: emits_intros sim_return sim_bind [OF exec])
qed

lemmas inert_parts = inert [OF mount_storage.footprint] inert [OF selinux.footprint]
  inert [OF cleanup_selinux.footprint] inert [OF cleanup_sys.footprint] inert [OF switch_root.footprint]

lemma sim_finish:
  assumes "emits K m" and "\<And>e. K e \<Longrightarrow> tpm_event cfg e \<or> selinux_event e"
  shows "simulates (boot_step cfg) (Mounted meta) m (\<lambda>_ q. q = Mounted meta)"
  by (rule sim_loop [OF assms(1)]) (use assms(2) in \<open>blast intro: boot_step.finish\<close>)

lemma sim_enter:
  assumes "crypt meta AND COMINIT_CRYPTOPT_CRYPT = 0"
  shows "simulates (boot_step cfg) (Verified meta) (enter_rootfs cfg args meta) (\<lambda>_ _. True)"
proof -
  have storage: "simulates (boot_step cfg) (Mounted meta) (cominitTpmMountSecureStorage cfg) (\<lambda>_ q. q = Mounted meta)"
    by (rule sim_finish [OF mount_storage.footprint]) simp
  have selinux: "simulates (boot_step cfg) (Mounted meta) (selinux_setup cfg args) (\<lambda>_ q. q = Mounted meta)"
    by (rule sim_finish [OF selinux.footprint]) simp
  have clean: "simulates (boot_step cfg) (Mounted meta) cominitCleanupSelinuxfiles (\<lambda>_ q. q = Mounted meta)"
    by (rule sim_finish [OF cleanup_selinux.footprint]) (simp add: selinux_event_def)
  have dev: "simulates (boot_step cfg) (Mounted meta) cominitCleanupSysfiles (\<lambda>_ q. q = Mounted meta)"
    by (rule sim_finish [OF cleanup_sys.footprint]) (simp add: selinux_event_def)
  show ?thesis
    unfolding enter_rootfs_def
    by (rule sim_bind [OF sim_rootfs [OF assms]])
      (auto simp: switch_and_exec_def intro!: emits_intros inert_parts sim_return sim_exec [unfolded switch_and_exec_def]
        sim_bind [OF storage] sim_bind [OF selinux] sim_bind [OF clean] sim_bind [OF dev])
qed

lemma sim_verified: "simulates (boot_step cfg) (Verified meta) (boot_verified cfg args meta disk) (\<lambda>_ _. True)"
proof (cases "crypt meta AND COMINIT_CRYPTOPT_CRYPT = 0")
  case True
  have find: "simulates (boot_step cfg) (Verified meta) (find_secure_storage args disk) (\<lambda>_ q. q = Verified meta)"
    unfolding find_secure_storage_def
    by (rule sim_loop [where K = "\<lambda>e. scan_event e \<or> (\<exists>disk. disk_event disk e)"])
      (auto intro!: emits_intros emits_mono [OF emits_find_on_disk] emits_mono [OF find_partition.footprint]
        boot_step.prepare [OF True])
  have tpm: "simulates (boot_step cfg) (Verified meta) (tpm_block cfg a) (\<lambda>_ q. q = Verified meta)" for a
    unfolding tpm_block_def
    by (rule sim_loop [where K = "tpm_event cfg"])
      (auto split: cominitTpmState_t.split intro!: emits_intros init_tpm.footprint extend_pcr.footprint
        protect_data.footprint delete_tpm.footprint boot_step.prepare [OF True])
  show ?thesis
    unfolding boot_verified_def
    by (auto intro!: sim_return sim_enter [OF True] sim_bind [OF find] sim_bind [OF tpm] emits_intros
        inert [OF emits_tpm_block] inert [OF emits_enter_rootfs])
qed (simp add: boot_verified_def sim_return)

lemma sim_quiet: "emits quiet_event m \<Longrightarrow> simulates (boot_step cfg) p m (\<lambda>_ q. q = p)"
  by (erule sim_loop) (rule boot_step.quiet)

lemma sim_boot: "simulates (boot_step cfg) Locked (boot cfg args) (\<lambda>_ _. True)"
proof -
  note sys = sim_quiet [OF emits_mono [OF sysfiles.footprint quiet_sysfiles]]
    and hsm = sim_quiet [OF emits_mono [OF fake_hsm.footprint quiet_enrol]]
    and disc = sim_events [where S = "boot_step cfg" and p = Locked, OF emits_discover_loop boot_step.quiet discover_record]
    and quiets = inert [OF fake_hsm.footprint] inert [OF emits_discover_loop]
      inert [OF load_metadata.footprint] inert [OF emits_boot_verified]
  show ?thesis
    unfolding boot_def
    by (rule sim_bind [OF sys])
      (auto intro!: emits_intros quiets sim_return sim_bind [OF hsm] sim_bind [OF disc] sim_bind [OF sim_load]
        sim_verified split: option.split)
qed

text \<open>The boot implements the machine: every run is one of its runs, from the locked phase.\<close>
lemma main_is_run: "\<exists>q. boot_run cfg Locked (trace_of_main E n cfg argv log) q"
  by (rule main_follows [OF boot_step.quiet sim_boot])

section \<open>The past of a phase\<close>

definition trusted :: "cominitRfsMetaData_t \<Rightarrow> event list \<Rightarrow> bool" where
  "trusted meta h \<longleftrightarrow> (\<exists>pre ver post. h = pre @ ver @ post \<and> verifies ver meta)"

definition mounted :: "config \<Rightarrow> cominitRfsMetaData_t \<Rightarrow> event list \<Rightarrow> bool" where
  "mounted cfg meta h \<longleftrightarrow> (\<exists>pre s ty fl r post. h = pre @ (Fs (Mount s ''/newroot'' ty fl), r) # post
     \<and> rc r \<noteq> - 1 \<and> mounts_rootfs cfg meta s ty fl \<and> trusted meta pre)"

definition entered :: "config \<Rightarrow> event list \<Rightarrow> bool" where
  "entered cfg h \<longleftrightarrow> (\<exists>meta pre a b c d post. h = pre @ [(Fs (Chdir ''/newroot''), a),
      (Fs (Mount ''/newroot'' ''/'' None [MS_MOVE]), b), (Fs (Chroot ''.''), c), (Fs (Chdir ''/''), d)] @ post
     \<and> rc a \<noteq> - 1 \<and> rc b \<noteq> - 1 \<and> rc c \<noteq> - 1 \<and> rc d \<noteq> - 1 \<and> mounted cfg meta pre)"

primrec past :: "config \<Rightarrow> phase \<Rightarrow> event list \<Rightarrow> bool" where
  "past cfg Locked h = True"
| "past cfg (Verified meta) h = trusted meta h"
| "past cfg (Mounted meta) h = mounted cfg meta h"
| "past cfg Switched h = entered cfg h"

lemma past_append: "past cfg p h \<Longrightarrow> past cfg p (h @ x)"
proof (cases p)
  case (Verified meta)
  moreover assume "past cfg p h"
  ultimately show ?thesis by (auto simp: trusted_def) (metis append_assoc)
next
  case (Mounted meta)
  moreover assume "past cfg p h"
  ultimately show ?thesis by (auto simp: mounted_def) (metis append_Cons append_assoc)
next
  case Switched
  moreover assume "past cfg p h"
  ultimately obtain meta pre a b c d post where "h = pre @ [(Fs (Chdir ''/newroot''), a),
      (Fs (Mount ''/newroot'' ''/'' None [MS_MOVE]), b), (Fs (Chroot ''.''), c), (Fs (Chdir ''/''), d)] @ post"
    "rc a \<noteq> - 1" "rc b \<noteq> - 1" "rc c \<noteq> - 1" "rc d \<noteq> - 1" "mounted cfg meta pre"
    by (auto simp: entered_def)
  then show ?thesis unfolding Switched past.simps entered_def
    by (intro exI [of _ meta] exI [of _ pre] exI [of _ a] exI [of _ b] exI [of _ c] exI [of _ d] exI [of _ "post @ x"]) simp
qed simp

text \<open>Every step keeps the past, or extends it by what the phase reached stands for.\<close>
lemma step_past: "boot_step cfg p x q \<Longrightarrow> past cfg p h \<Longrightarrow> past cfg q (h @ x)"
proof (induction rule: boot_step.induct)
  case (accept ver meta)
  then show ?case unfolding past.simps trusted_def
    by (intro exI [of _ h] exI [of _ ver] exI [of _ "[]"]) simp
next
  case (mount meta s ty fl r)
  then show ?case unfolding past.simps mounted_def by blast
next
  case (switch a b c d meta)
  then show ?case unfolding past.simps entered_def by (metis append_Nil2)
qed (blast intro: past_append)+

definition removal :: "event \<Rightarrow> bool" where
  "removal e \<longleftrightarrow> (\<exists>p. fst e = Fs (Unlink p) \<or> fst e = Fs (Rmdir p))"

lemma not_removal: "quiet_event e \<Longrightarrow> \<not> removal e" "tpm_event cfg e \<Longrightarrow> \<not> removal e"
  "scan_event e \<Longrightarrow> \<not> removal e" "disk_event d e \<Longrightarrow> \<not> removal e" "rootfs_event cfg m e \<Longrightarrow> \<not> removal e"
  by (cases e; auto simp: removal_def quiet_event_def boot_event_def tpm_event_def secure_event_def
      scan_event_def disk_event_def rootfs_event_def dm_event_def)+

lemma single_append: "us @ e # vs = [x] \<longleftrightarrow> us = [] \<and> vs = [] \<and> e = x"
  by (cases us) auto

lemma switch_not_init: "switch_event e \<Longrightarrow> \<not> init_exec e"
  by (auto simp: init_exec_def switch_event_def nftw_event_def)

text \<open>The steps in which the init is started or a file removed.\<close>
lemma step_of_init:
  assumes "boot_step cfg p x q" and "x = us @ e # vs" and "init_exec e"
  shows "p = Switched \<and> us = []"
proof -
  have e: "e \<in> set x" using assms(2) by simp
  from assms(1) show ?thesis
  proof cases
    case (accept meta)
    with e assms(3) not_init_exec(1) show ?thesis by (auto simp: list_all_iff)
  next
    case (switch a b c d meta)
    with e assms(3) show ?thesis by (auto simp: init_exec_def)
  qed (use assms(2,3) in \<open>auto simp: single_append init_exec_def dest: not_init_exec switch_not_init\<close>)
qed

lemma step_of_removal:
  assumes "boot_step cfg p x q" and "x = us @ e # vs" and "removal e"
  shows "(\<exists>meta. p = Mounted meta) \<and> us = []"
proof -
  have e: "e \<in> set x" using assms(2) by simp
  from assms(1) show ?thesis
  proof cases
    case (accept meta)
    with e assms(3) not_removal(1) show ?thesis by (auto simp: list_all_iff)
  next
    case (switch a b c d meta)
    with e assms(3) show ?thesis by (auto simp: removal_def)
  qed (use assms(2,3) in \<open>auto simp: single_append removal_def dest: not_removal\<close>)
qed

section \<open>Properties of the boot\<close>

text \<open>C4: cominit implements the boot state machine: whatever the environment answers, the calls of a run,
  in their order, are a run of the machine from its locked phase.\<close>
theorem main_refines_machine: "\<exists>q. boot_run cfg Locked (trace_of_main E n cfg argv log) q"
  by (rule main_is_run)

text \<open>Where the init is started, the rootfs has been entered; where a file is removed, it is mounted.\<close>
definition boot_ordered :: "config \<Rightarrow> event list \<Rightarrow> bool" where
  "boot_ordered cfg tr \<longleftrightarrow> (\<forall>before e after. tr = before @ e # after \<longrightarrow>
     (init_exec e \<longrightarrow> entered cfg before) \<and> (removal e \<longrightarrow> (\<exists>meta. mounted cfg meta before)))"

text \<open>C5: The order of the boot: before the init is started, a signature was accepted, then the rootfs it
  describes was mounted, then this was made the root directory. Nothing of the initramfs is removed
  before the signed rootfs is mounted.\<close>
theorem boot_order: "boot_ordered cfg (trace_of_main E n cfg argv log)"
  unfolding boot_ordered_def
proof (intro allI impI)
  fix before e after assume tr: "trace_of_main E n cfg argv log = before @ e # after"
  obtain q where run: "boot_run cfg Locked (trace_of_main E n cfg argv log) q" using main_is_run by blast
  have "\<exists>p us vs q' b. boot_step cfg p (us @ e # vs) q' \<and> before = b @ us \<and> past cfg p ([] @ b)"
    by (rule steps_event [OF run _ _ tr]) (auto intro: step_past)
  then obtain p us vs q' b where step: "boot_step cfg p (us @ e # vs) q'"
    and b: "before = b @ us" "past cfg p b" by auto
  show "(init_exec e \<longrightarrow> entered cfg before) \<and> (removal e \<longrightarrow> (\<exists>meta. mounted cfg meta before))"
    using b step_of_init [OF step refl] step_of_removal [OF step refl]
    by (metis append_Nil2 past.simps(3) past.simps(4))
qed

end
