(* ===== verification/Waiting.thy ===== *)
theory Waiting
  imports Cominit
begin

text \<open>
  Waiting for the root device in src/cominit.c: how often the discovery is tried, and when a wait
  ends.
\<close>

section \<open>Tries\<close>

text \<open>The number of times the clock was read: once for each wait.\<close>
definition waits :: "event list \<Rightarrow> nat" where
  "waits ext = length (filter (\<lambda>e. fst e = Proc Clock_gettime) ext)"

lemma waits_simps [simp]:
  "waits [] = 0" "waits (a @ b) = waits a + waits b"
  "waits ((c, r) # es) = (if c = Proc Clock_gettime then 1 else 0) + waits es"
  by (simp_all add: waits_def)

lemma no_waits: "\<forall>e \<in> set ext. fst e \<noteq> Proc Clock_gettime \<Longrightarrow> waits ext = 0"
  by (simp add: waits_def filter_empty_conv)

definition search_event :: "event \<Rightarrow> bool" where
  "search_event e \<longleftrightarrow> scan_event e \<or> (\<exists>p. fst e = Fs (Stat p))"

lemma search_no_wait: "search_event e \<Longrightarrow> fst e \<noteq> Proc Clock_gettime"
  by (cases e) (auto simp: search_event_def)

lemma emits_search: "emits search_event (cominitDiscoverRootfs a m d)"
  unfolding cominitDiscoverRootfs_def
  by (auto split: option.split simp: search_event_def
      intro!: emits_intros emits_mono [OF find_partition.footprint])

lemma emits_sleeping: "emits (\<lambda>e. fst e \<noteq> Proc Clock_gettime) (sleep_loop n t)"
  by (induction n) (auto intro!: emits_intros)

lemma sleep_waits:
  "wp (cominitMicroSleep m) (\<lambda>_ w'. \<exists>ext. trace w' = trace w @ ext \<and> waits ext = (if status w = Running then 1 else 0)) w"
proof (cases "status w = Running")
  case True
  have tail: "wp (sleep_loop n t) (\<lambda>_ w'. \<exists>ext. trace w' = trace w @ ext \<and> waits ext = 1) v"
    if "trace v = trace w @ [(Proc Clock_gettime, r)]" for n t v r
  proof (rule wpI)
    fix a v' assume "run_state (sleep_loop n t) v = (a, v')"
    from emitsD(3) [OF emits_sleeping this] obtain x where "trace v' = trace v @ x" "waits x = 0"
      using no_waits by blast
    with that show "\<exists>ext. trace v' = trace w @ ext \<and> waits ext = 1" by auto
  qed
  show ?thesis unfolding cominitMicroSleep_def using True by (auto intro!: vcg wp_mono [OF tail])
next
  case False
  then show ?thesis
    unfolding cominitMicroSleep_def by (simp add: wp_simps no_reply_def)
qed

lemma discover_waits:
  "wp (discover_loop n args meta disk) (\<lambda>found w'. \<exists>ext. trace w' = trace w @ ext \<and> waits ext \<le> n
     \<and> (found = None \<and> status w' = Running \<longrightarrow> waits ext = n)) w"
proof (induction n arbitrary: meta disk w)
  case 0
  show ?case
  proof (rule wpI)
    fix a v assume h: "run_state (discover_loop 0 args meta disk) w = (a, v)"
    have "emits search_event (discover_loop 0 args meta disk)" by (auto intro!: emits_intros emits_search)
    from emitsD(3) [OF this h] obtain x where "trace v = trace w @ x" "waits x = 0"
      using no_waits search_no_wait by blast
    then show "\<exists>ext. trace v = trace w @ ext \<and> waits ext \<le> 0 \<and> (a = None \<and> status v = Running \<longrightarrow> waits ext = 0)"
      by auto
  qed
next
  case (Suc n)
  obtain f m d v where h: "run_state (cominitDiscoverRootfs (Some args) (Some meta) (Some disk)) w = ((f, m, d), v)"
    by (metis surj_pair)
  from emitsD(3) [OF emits_search h] obtain x where x: "trace v = trace w @ x" "waits x = 0"
    using no_waits search_no_wait by blast
  obtain a u where a: "run_state (cominitMicroSleep (COMINIT_ROOT_WAIT_INTERVAL_MILLIS * 1000)) v = (a, u)"
    by fastforce
  obtain b t where b: "run_state (discover_loop n args (the m) (the d)) u = (b, t)" by fastforce
  from wp_run_state [OF sleep_waits a] wp_run_state [OF Suc.IH b] obtain y z where
    yz: "trace u = trace v @ y" "waits y = (if status v = Running then 1 else 0)"
      "trace t = trace u @ z" "waits z \<le> n" "b = None \<and> status t = Running \<longrightarrow> waits z = n" by blast
  have "status t = Running \<Longrightarrow> status v = Running"
    using emitsD(4) [OF emits_sleep a] emitsD(4) [OF emits_discover_loop b] by (metis)
  with x yz have "f \<or> (\<exists>ext. trace t = trace w @ ext \<and> waits ext \<le> Suc n
      \<and> (b = None \<and> status t = Running \<longrightarrow> waits ext = Suc n))"
    by (intro disjI2 exI [of _ "x @ y @ z"]) auto
  with h a b x show ?case by (auto simp: wp_def)
qed

text \<open>C32: The root device is looked for at most eleven times: at most ten waits happen, and the search is
  given up only after all ten of them.\<close>
theorem discovery_bounded:
  "wp (discover_loop COMINIT_ROOT_WAIT_TRIES args meta disk) (\<lambda>found w'. \<exists>ext. trace w' = trace w @ ext
     \<and> waits ext \<le> 10 \<and> (found = None \<and> status w' = Running \<longrightarrow> waits ext = 10)) w"
  using discover_waits [of COMINIT_ROOT_WAIT_TRIES] by (simp add: lits)

theorem discovery_bounded_witness:
  "wp (discover_loop COMINIT_ROOT_WAIT_TRIES (argCtx_init default_config) rfsMeta_zero gptDisk_zero)
     (\<lambda>found w'. \<exists>ext. trace w' = ext
       \<and> waits ext \<le> 10 \<and> (found = None \<and> status w' = Running \<longrightarrow> waits ext = 10)) (start (\<lambda>_ _. ok) 20)"
  using discovery_bounded [of "argCtx_init default_config" rfsMeta_zero gptDisk_zero "start (\<lambda>_ _. ok) 20"] by simp

section \<open>The end of a wait\<close>

text \<open>C33: The time of waking up is exact. For a present time as the clock gives it, with nanoseconds below one
  second, the seconds and nanoseconds computed by \<^verbatim>\<open>cominitMicroSleep\<close> are the present time plus the wait, with the
  nanoseconds in the range the kernel accepts; if that time is beyond the range of \<^verbatim>\<open>time_t\<close>, and only
  then, the computation overflows, which is undefined for signed numbers.\<close>
theorem wake_time_exact:
  assumes "- (2 ^ 63) \<le> tv_sec" and "0 \<le> tv_nsec" "tv_nsec < 1000000000"
  shows "wake_time micros tv_sec tv_nsec = (let t = tv_sec * 1000000000 + tv_nsec + uint micros * 1000 in
     if t div 1000000000 < 2 ^ 63 then Some (t div 1000000000, t mod 1000000000) else None)"
proof -
  define q r where "q = uint micros div 1000000" and "r = uint micros mod 1000000"
  have micros: "uint micros = q * 1000000 + r" by (simp add: q_def r_def)
  have q: "0 \<le> q" and r: "0 \<le> r" "r < 1000000" by (simp_all add: q_def r_def pos_imp_zdiv_nonneg_iff)
  define n where "n = r * 1000 + tv_nsec"
  have n: "0 \<le> n" "n < 2 ^ 64" using r assms by (auto simp: n_def)
  have now: "uint (of_int tv_nsec :: u64) = tv_nsec" using assms(2,3) by (simp add: unsigned_of_int take_bit_int_eq_self)
  have "uint ((micros mod 1000000) * 1000 + of_int tv_nsec :: u64) = n mod 2 ^ 64"
    using now by (simp add: n_def r_def uint_word_ariths uint_mod_distrib take_bit_eq_mod mod_simps)
  then have nsec: "uint ((micros mod 1000000) * 1000 + of_int tv_nsec :: u64) = n" using n by simp
  define t where "t = tv_sec * 1000000000 + tv_nsec + uint micros * 1000"
  have sum: "t = n + (tv_sec + q) * 1000000000" by (simp add: t_def micros n_def algebra_simps)
  have t: "t div 1000000000 = tv_sec + q + n div 1000000000" "t mod 1000000000 = n mod 1000000000"
    unfolding sum by (subst div_mult_self1; simp) (rule mod_mult_self1)
  have carry: "0 \<le> n div 1000000000" using n(1) by (simp add: pos_imp_zdiv_nonneg_iff)
  show ?thesis
    unfolding wake_time_def Let_def t_def [symmetric] t uint_div_distrib uint_mod_distrib nsec
    using assms(1) q carry by (auto simp: add_time_def q_def [symmetric])
qed

theorem wake_time_exact_witness:
  "wake_time 500000 5 999999999 = Some (6, 499999999) \<and> wake_time 1000000 (2 ^ 63 - 1) 0 = None"
  using wake_time_exact [of 5 999999999 500000] wake_time_exact [of "2 ^ 63 - 1" 0 1000000] by simp

text \<open>C40: An interrupted wait is not resumed: \<^verbatim>\<open>clock_nanosleep\<close> reports an interruption by a positive error
  number, never by -1, so that it is called exactly once, with the time computed, and the wait is reported as
  complete. The present time is one for which this computation does not overflow.\<close>
theorem sleep_not_resumed:
  assumes "status w = Running" and "0 < fuel w" and "\<And>h s n. 0 \<le> rc (env w h (Proc (Nanosleep s n)))"
    and "\<And>h. rc (env w h (Proc Clock_gettime)) = 0"
    and "\<And>h. wake_time m (sint (val (env w h (Proc Clock_gettime)))) (sint (val2 (env w h (Proc Clock_gettime)))) \<noteq> None"
  shows "wp (cominitMicroSleep m) (\<lambda>a w'. a = 0 \<and> status w' = Running
     \<and> (\<exists>c s n r. wake_time m (sint (val c)) (sint (val2 c)) = Some (s, n)
          \<and> trace w' = trace w @ [(Proc Clock_gettime, c), (Proc (Nanosleep s n), r)])) w"
proof -
  obtain k where k: "fuel w = Suc k" using assms(2) by (cases "fuel w") auto
  let ?c = "env w (trace w) (Proc Clock_gettime)"
  obtain s n where t: "wake_time m (sint (val ?c)) (sint (val2 ?c)) = Some (s, n)" using assms(5) [of "trace w"] by auto
  have "rc (env w h (Proc (Nanosleep s n))) \<noteq> - 1" for h s n using assms(3) [of h s n] by auto
  with assms(1,3,4) k t show ?thesis unfolding cominitMicroSleep_def by (simp add: wp_simps)
qed

text \<open>4 is \<^verbatim>\<open>EINTR\<close>.\<close>
definition interrupted_env :: "event list \<Rightarrow> call \<Rightarrow> reply" where
  "interrupted_env h c = (case c of Proc (Nanosleep s n) \<Rightarrow> ok\<lparr>rc := 4\<rparr> | _ \<Rightarrow> ok)"

theorem sleep_not_resumed_witness:
  "wp (cominitMicroSleep 500000) (\<lambda>a w'. a = 0 \<and> status w' = Running
     \<and> (\<exists>c r. trace w' = [(Proc Clock_gettime, c), (Proc (Nanosleep 0 500000000), r)])) (start interrupted_env 5)"
proof -
  have now: "interrupted_env h (Proc Clock_gettime) = ok" for h by (simp add: interrupted_env_def)
  have t: "wake_time 500000 0 0 = Some (0, 500000000)" by (simp add: wake_time_def add_time_def)
  have "wp (cominitMicroSleep 500000) (\<lambda>a w'. \<exists>r. trace w' = [(Proc Clock_gettime, ok), (Proc (Nanosleep 0 500000000), r)])
      (start interrupted_env 5)"
    by (simp add: cominitMicroSleep_def wp_simps now t ok_def numeral_eq_Suc interrupted_env_def)
  from wp_conj [THEN iffD2, OF conjI, OF this sleep_not_resumed [of "start interrupted_env 5" 500000]]
  show ?thesis by (rule wp_mono) (auto simp: interrupted_env_def ok_def t)
qed

end
