(* ===== verification/Discovery.thy ===== *)
theory Discovery
  imports Cominit
begin

text \<open>
  What a device node found by its GPT type rests on: src/automount.c as src/cominit.c uses it. The
  names of the nodes are traced back to what the kernel reported about the devices.
\<close>

section \<open>Evidence in the trace\<close>

text \<open>\<^verbatim>\<open>pread\<close> delivers as many bytes as it reports.\<close>
definition pread_delivers :: "(event list \<Rightarrow> call \<Rightarrow> reply) \<Rightarrow> bool" where
  "pread_delivers E \<longleftrightarrow> (\<forall>h fd n off. rc (E h (Fs (Pread fd n off))) = int n \<longrightarrow> n \<le> length (bytes (E h (Fs (Pread fd n off)))))"

lemma pread_delivers_length:
  "pread_delivers E \<Longrightarrow> answered E h (Fs (Pread fd n off)) r \<Longrightarrow> rc r = int n \<Longrightarrow> n \<le> length (bytes r)"
  by (simp add: pread_delivers_def answered_def)

text \<open>An entry of the table was read in full through a descriptor and has the type; the node is the disk's with
  its number.\<close>
definition entry_read :: "cominitGPTDisk_t \<Rightarrow> int \<Rightarrow> string \<Rightarrow> string \<Rightarrow> nat \<Rightarrow> event list \<Rightarrow> bool" where
  "entry_read disk fd guid name nameSize x \<longleftrightarrow> (\<exists>i < unat (partitionEntryCount (hdr disk)). \<exists>q.
     (Fs (Pread fd (unat (partitionEntrySize (hdr disk))) (entry_offset disk i)), q) \<in> set x
     \<and> rc q = int (unat (partitionEntrySize (hdr disk)))
     \<and> has_type guid (take (unat (partitionEntrySize (hdr disk))) (bytes q))
     \<and> name = partition_node (diskName disk) (Suc i) \<and> length name < nameSize)"

text \<open>The descriptor is one of the disk.\<close>
definition entry_found :: "cominitGPTDisk_t \<Rightarrow> string \<Rightarrow> string \<Rightarrow> nat \<Rightarrow> event list \<Rightarrow> bool" where
  "entry_found disk guid name nameSize x \<longleftrightarrow> (\<exists>fd. (Fs (Open (diskName disk) [O_RDONLY, O_CLOEXEC]), fd) \<in> set x
     \<and> 0 \<le> rc fd \<and> entry_read disk (rc fd) guid name nameSize x)"

text \<open>The header was read from the second block of the device and has the signature of a GPT.\<close>
definition header_found :: "string \<Rightarrow> cominitGPTDisk_t \<Rightarrow> event list \<Rightarrow> bool" where
  "header_found device disk x \<longleftrightarrow> (\<exists>fd b p. (Fs (Open device [O_RDONLY, O_CLOEXEC]), fd) \<in> set x
     \<and> (Dev (Blksszget (rc fd)), b) \<in> set x \<and> blockSize disk = sint (ucast (val b) :: u32)
     \<and> (Fs (Pread (rc fd) GPT_HEADER_SIZE (of_int (blockSize disk))), p) \<in> set x \<and> rc p = int GPT_HEADER_SIZE
     \<and> hdr disk = header_of (take GPT_HEADER_SIZE (bytes p)) \<and> signature (hdr disk) = bytes_of ''EFI PART''
     \<and> diskName disk = take COMINIT_ROOTFS_DEV_PATH_MAX device)"

text \<open>The device was listed under \<^verbatim>\<open>/dev\<close>, is not skipped by its name, and is a block device.\<close>
definition device_found :: "string \<Rightarrow> event list \<Rightarrow> bool" where
  "device_found device x \<longleftrightarrow> (\<exists>d st. (Fs Readdir, d) \<in> set x \<and> probed_name (cstr (bytes d))
     \<and> device = device_path (cstr (bytes d)) \<and> (Fs (Lstat device), st) \<in> set x \<and> rc st = 0 \<and> kind st = BlockDevice)"

definition partition_found :: "cominitGPTDisk_t \<Rightarrow> string \<Rightarrow> string \<Rightarrow> nat \<Rightarrow> event list \<Rightarrow> bool" where
  "partition_found disk guid name nameSize x \<longleftrightarrow> device_found (diskName disk) x
     \<and> header_found (diskName disk) disk x \<and> entry_found disk guid name nameSize x"

lemma found_mono:
  assumes "set x \<subseteq> set y"
  shows "entry_read disk fd guid name nameSize x \<Longrightarrow> entry_read disk fd guid name nameSize y"
    and "entry_found disk guid name nameSize x \<Longrightarrow> entry_found disk guid name nameSize y"
    and "header_found device disk x \<Longrightarrow> header_found device disk y"
    and "device_found device x \<Longrightarrow> device_found device y"
    and "partition_found disk guid name nameSize x \<Longrightarrow> partition_found disk guid name nameSize y"
  using assms unfolding partition_found_def entry_found_def entry_read_def header_found_def device_found_def by blast+

lemma entry_read_Cons: "entry_read disk fd guid name nameSize x \<Longrightarrow> entry_read disk fd guid name nameSize (e # x)"
  by (rule found_mono(1)) auto

section \<open>The single steps\<close>

lemma entries_evidence:
  assumes "status w = Running" and "pread_delivers (env w)" and "n \<le> unat (partitionEntryCount (hdr disk))"
    and "length buf = unat (partitionEntrySize (hdr disk))"
  shows "wp (entries_loop n disk fd diskSize guid nameSize name buf) (\<lambda>(res, nm, b) w'. status w' = Running \<and> env w' = env w
     \<and> (\<exists>x. trace w' = trace w @ x \<and> (res = EXIT_SUCCESS \<longrightarrow> entry_read disk fd guid nm nameSize x))) w"
  using assms
proof (induction n arbitrary: buf w)
  case 0
  then show ?case by (simp add: wp_simps)
next
  case (Suc n)
  define sz where "sz = unat (partitionEntrySize (hdr disk))"
  let ?i = "unat (partitionEntryCount (hdr disk)) - Suc n"
  let ?call = "Fs (Pread fd sz (entry_offset disk ?i))"
  have i: "?i < unat (partitionEntryCount (hdr disk))" using Suc.prems(3) by simp
  have "Suc ?i < 2 ^ LENGTH(32)"
    using i unsigned_less [of "partitionEntryCount (hdr disk)"] by (metis Suc_leI le_less_trans)
  then have "unat (of_nat ?i + 1 :: u32) = Suc ?i" by (simp add: unat_word_ariths unat_of_nat take_bit_eq_mod mod_simps)
  then have node: "entry_read disk fd guid nm nameSize [(?call, r)]"
    if "cominitAutomountBuildPartitionNode (diskName disk) (of_nat ?i + 1) nameSize = (EXIT_SUCCESS, nm)"
      "rc r = int sz" "has_type guid (take sz (bytes r))" for nm r
    using that i by (auto simp: entry_read_def sz_def cominitAutomountBuildPartitionNode_def Let_def split: if_splits)
  have buf: "overlay (take sz (bytes r)) buf = take sz (bytes r)"
    if "answered (env w) (trace w) ?call r" "rc r = int sz" for r
    using pread_delivers_length [OF Suc.prems(2) that] Suc.prems(4) by (simp add: sz_def)
  have rest: "wp (entries_loop n disk fd diskSize guid nameSize name (take sz (bytes r))) (\<lambda>(res, nm, b) w'.
      status w' = Running \<and> env w' = env w
      \<and> (\<exists>x. trace w' = trace w @ x \<and> (res = EXIT_SUCCESS \<longrightarrow> entry_read disk fd guid nm nameSize x))) (w\<lparr>trace := trace w @ [(?call, r)]\<rparr>)"
    if "answered (env w) (trace w) ?call r" "rc r = int sz" for r
    using pread_delivers_length [OF Suc.prems(2) that] Suc.prems
    by (intro wp_mono [OF Suc.IH]) (auto simp: entry_read_Cons sz_def)
  show ?case
    unfolding entries_loop.simps Let_def sz_def [symmetric] using Suc.prems(1)
    by (auto intro!: vcg_sys_answered vcg_return vcg_bind vcg_if vcg_case_prod rest node simp: buf has_type_def) blast
qed

lemma gpt_evidence:
  assumes "status w = Running"
  shows "wp (cominitAutomountFindGpt device disk0) (\<lambda>(res, disk) w'. status w' = Running \<and> env w' = env w
     \<and> (\<exists>x. trace w' = trace w @ x \<and> (res = EXIT_SUCCESS \<longrightarrow> header_found device disk x))) w"
  unfolding cominitAutomountFindGpt_def cominitAutomountGetBlockSize_def using assms
  by (auto intro!: vcg simp: header_found_def split: if_splits)

lemma on_disk_evidence:
  assumes "status w = Running" and "pread_delivers (env w)"
  shows "wp (cominitAutomountFindPartitionOnDisk (Some disk) (Some guid) (Some name) nameSize) (\<lambda>(res, nm) w'. env w' = env w
     \<and> (\<exists>x. trace w' = trace w @ x \<and> nm \<noteq> None
        \<and> (res = EXIT_SUCCESS \<longrightarrow> length (diskName disk) < COMINIT_ROOTFS_DEV_PATH_MAX \<and> entry_found disk guid (the nm) nameSize x))) w"
proof -
  have entries: "wp (entries_loop (unat (partitionEntryCount (hdr disk))) disk fd diskSize guid nameSize name
        (overlay (take (unat (partitionEntrySize (hdr disk))) (bytes m)) (replicate (unat (partitionEntrySize (hdr disk))) 0))) Q v"
    if "status v = Running \<and> env v = env w" "\<And>res nm b v' x. status v' = Running \<Longrightarrow> env v' = env w \<Longrightarrow> trace v' = trace v @ x \<Longrightarrow>
       (res = EXIT_SUCCESS \<longrightarrow> entry_read disk fd guid nm nameSize x) \<Longrightarrow> Q (res, nm, b) v'" for fd diskSize m Q v
    by (rule wp_mono [OF entries_evidence]) (use that assms(2) in auto)
  have more: "entry_found disk guid nm nameSize ((Fs (Open (diskName disk) [O_RDONLY, O_CLOEXEC]), o') # b # c # x @ [d, e])"
    if "entry_read disk (rc o') guid nm nameSize x" "\<not> rc o' < 0" for nm o' b c d e x
    unfolding entry_found_def using that(2) by (intro exI [of _ o'] conjI found_mono(1) [OF _ that(1)]) auto
  show ?thesis
    unfolding cominitAutomountFindPartitionOnDisk_def cominitCommonGetPartSize_def using assms(1)
    by (auto intro!: vcg entries simp: more split: if_splits)
qed

section \<open>The scan\<close>

text \<open>What the scan returns in a world, and how it got there.\<close>
definition scan_result :: "string \<Rightarrow> nat \<Rightarrow> world \<Rightarrow> int \<Rightarrow> cominitGPTDisk_t \<Rightarrow> string \<Rightarrow> world \<Rightarrow> bool" where
  "scan_result guid nameSize w res disk name w' \<longleftrightarrow> env w' = env w \<and> (\<exists>x. trace w' = trace w @ x
     \<and> (res = EXIT_SUCCESS \<longrightarrow> partition_found disk guid name nameSize x))"

lemma scan_result_after:
  assumes "scan_result guid nameSize v res disk name w'" and "trace v = trace w @ x" and "env v = env w"
  shows "scan_result guid nameSize w res disk name w'"
proof -
  have "partition_found disk guid name nameSize (x @ y)" if "partition_found disk guid name nameSize y" for y
    by (rule found_mono(5) [OF _ that]) auto
  with assms show ?thesis unfolding scan_result_def by auto
qed

lemma scan_result_failed:
  "res \<noteq> EXIT_SUCCESS \<Longrightarrow> env w' = env w \<Longrightarrow> trace w' = trace w @ x \<Longrightarrow> scan_result guid nameSize w res disk name w'"
  by (simp add: scan_result_def)

lemma scan_result_found:
  assumes "probed_name (cstr (bytes d))" "rc st = 0" "kind st = BlockDevice"
    and "header_found (device_path (cstr (bytes d))) disk x" "length (diskName disk) < COMINIT_ROOTFS_DEV_PATH_MAX"
    and "entry_found disk guid name nameSize y" and "env w' = env w"
    and "trace w' = trace w @ (Fs Readdir, d) # (Fs (Lstat (device_path (cstr (bytes d)))), st) # x @ y"
  shows "scan_result guid nameSize w EXIT_SUCCESS disk name w'"
proof -
  have device: "diskName disk = device_path (cstr (bytes d))"
    using assms(4,5) by (auto simp: header_found_def min_def split: if_splits)
  let ?x = "(Fs Readdir, d) # (Fs (Lstat (device_path (cstr (bytes d)))), st) # x @ y"
  have "header_found (diskName disk) disk ?x" using assms(4) unfolding device by (rule found_mono(3) [rotated]) auto
  moreover have "entry_found disk guid name nameSize ?x" using assms(6) by (rule found_mono(2) [rotated]) auto
  moreover have "device_found (diskName disk) ?x" using assms(1-3) by (auto simp: device_found_def device)
  ultimately show ?thesis using assms(7,8) by (auto simp: scan_result_def partition_found_def)
qed

lemma devices_halted:
  "status w \<noteq> Running \<Longrightarrow> res0 \<noteq> EXIT_SUCCESS \<Longrightarrow>
   wp (devices_loop n res0 disk guid name nameSize) (\<lambda>(res, disk, nm) w'. scan_result guid nameSize w res disk nm w') w"
  by (induction n arbitrary: res0 disk name) (auto simp: wp_simps no_reply_def scan_result_def Let_def)

lemma devices_evidence:
  assumes "pread_delivers (env w)" and "res0 \<noteq> EXIT_SUCCESS"
  shows "wp (devices_loop n res0 disk0 guid name nameSize) (\<lambda>(res, disk, nm) w'. scan_result guid nameSize w res disk nm w') w"
  using assms
proof (induction n arbitrary: res0 disk0 name w)
  case 0
  then show ?case by (simp add: wp_simps scan_result_def)
next
  case (Suc n)
  show ?case
  proof (cases "status w = Running")
    case True
    have rest: "wp (devices_loop n r disk0 guid nm nameSize) (\<lambda>(res, disk, nm) w'. scan_result guid nameSize w res disk nm w') v"
      if "env v = env w" "trace v = trace w @ x" "r \<noteq> EXIT_SUCCESS" for r nm v x
      by (rule wp_mono [OF Suc.IH]) (use that Suc.prems(1) in \<open>auto intro: scan_result_after\<close>)
    have gpt: "wp (cominitAutomountFindGpt device disk) Q v"
      if "status v = Running \<and> env v = env w" "\<And>r d v' x. status v' = Running \<Longrightarrow> env v' = env w \<Longrightarrow> trace v' = trace v @ x \<Longrightarrow>
         (r = EXIT_SUCCESS \<longrightarrow> header_found device d x) \<Longrightarrow> Q (r, d) v'" for device disk Q v
      by (rule wp_mono [OF gpt_evidence]) (use that in auto)
    have part: "wp (cominitAutomountFindPartitionOnDisk (Some disk) (Some guid) (Some name) nameSize) Q v"
      if "status v = Running \<and> env v = env w" "\<And>r nm v' x. env v' = env w \<Longrightarrow> trace v' = trace v @ x \<Longrightarrow>
         (r = EXIT_SUCCESS \<longrightarrow> length (diskName disk) < COMINIT_ROOTFS_DEV_PATH_MAX \<and> entry_found disk guid nm nameSize x) \<Longrightarrow> Q (r, Some nm) v'"
      for disk name Q v
      by (rule wp_mono [OF on_disk_evidence]) (use that Suc.prems(1) in auto)
    show ?thesis
      unfolding devices_loop.simps Let_def using True Suc.prems
      by (auto intro!: vcg gpt part rest scan_result_found intro: scan_result_failed)
  qed (use Suc.prems in \<open>simp add: devices_halted del: devices_loop.simps\<close>)
qed

lemma partition_evidence:
  assumes "pread_delivers (env w)"
  shows "wp (cominitAutomountFindPartition (Some disk0) (Some guid) (Some name) nameSize) (\<lambda>(res, disk, nm) w'.
     scan_result guid nameSize w res (the disk) (the nm) w') w"
proof -
  have devices: "wp (devices_loop n EXIT_FAILURE disk0 guid name nameSize)
      (\<lambda>(res, disk, nm) w'. scan_result guid nameSize w res disk nm w') v"
    if "env v = env w" "trace v = trace w @ x" for n v x
    by (rule wp_mono [OF devices_evidence]) (use that assms in \<open>auto intro: scan_result_after\<close>)
  have closed: "scan_result guid nameSize w res disk nm (v\<lparr>trace := trace v @ [e]\<rparr>)"
    if "scan_result guid nameSize w res disk nm v" for res disk nm v e
  proof -
    have "partition_found disk guid nm nameSize (x @ [e])" if "partition_found disk guid nm nameSize x" for x
      by (rule found_mono(5) [OF _ that]) auto
    with that show ?thesis by (auto simp: scan_result_def)
  qed
  show ?thesis
    unfolding cominitAutomountFindPartition_def
    by (auto simp: wp_simps scan_result_failed intro!: wp_mono [OF devices] closed)
qed

section \<open>The root device\<close>

text \<open>The device node that is used: the one of the command line, if \<^verbatim>\<open>stat\<close> knows it, or else one found by its type.\<close>
definition root_device_found :: "cominitCliArgs_t \<Rightarrow> cominitRfsMetaData_t \<Rightarrow> cominitGPTDisk_t \<Rightarrow> event list \<Rightarrow> bool" where
  "root_device_found args meta disk x \<longleftrightarrow>
     (if devNodeRootFs args \<noteq> []
      then devicePath meta = devNodeRootFs args \<and> (\<exists>s. (Fs (Stat (devNodeRootFs args)), s) \<in> set x \<and> rc s = 0)
      else partition_found disk COMINIT_ROOTFS_GUID_TYPE (devicePath meta) COMINIT_ROOTFS_DEV_PATH_MAX x)"

lemma root_device_mono: "root_device_found args meta disk x \<Longrightarrow> set x \<subseteq> set y \<Longrightarrow> root_device_found args meta disk y"
  unfolding root_device_found_def using found_mono(5) by (auto split: if_splits)

lemma discover_evidence:
  assumes "pread_delivers (env w)"
  shows "wp (cominitDiscoverRootfs (Some args) (Some meta) (Some disk)) (\<lambda>(found, m, d) w'. env w' = env w \<and> (\<exists>x. trace w' = trace w @ x
     \<and> (found \<longrightarrow> root_device_found args (the m) (the d) x))) w"
  unfolding cominitDiscoverRootfs_def
  by (auto simp: wp_simps root_device_found_def no_reply_def scan_result_def intro!: wp_mono [OF partition_evidence [OF assms]])

text \<open>C11: Where the root device comes from. A node given on the command line is used as it is, once \<^verbatim>\<open>stat\<close>
  knows it. Otherwise the node found belongs to a device that was listed under \<^verbatim>\<open>/dev\<close>, has no name of the
  black list and is a block device; the header of a GPT was read from its second block; an entry of
  this table was read in full from the same device, at its offset, and has the type GUID of a rootfs; and the node is the
  one of that entry, complete. This holds on every machine whose \<^verbatim>\<open>pread\<close> delivers as many bytes as it
  reports, however long the search had to wait.\<close>
theorem root_device_evidence:
  assumes "pread_delivers (env w)"
  shows "wp (discover_loop n args meta disk) (\<lambda>found w'. \<exists>x. trace w' = trace w @ x
     \<and> (\<forall>m d. found = Some (m, d) \<longrightarrow> root_device_found args m d x)) w"
  using assms
proof (induction n arbitrary: meta disk w)
  case 0
  show ?case
    by (auto simp: wp_simps intro!: wp_mono [OF discover_evidence [OF 0]])
next
  case (Suc n)
  have rest: "wp (discover_loop n args m d) (\<lambda>found w'. \<exists>x. trace w' = trace w @ x
     \<and> (\<forall>m d. found = Some (m, d) \<longrightarrow> root_device_found args m d x)) v"
    if "env v = env w" "trace v = trace w @ x" for m d v x
    by (rule wp_mono [OF Suc.IH]) (use that Suc.prems in \<open>auto elim!: root_device_mono\<close>)
  have wait: "wp (cominitMicroSleep k) Q v" if "\<And>a v' x. env v' = env v \<Longrightarrow> trace v' = trace v @ x \<Longrightarrow> Q a v'" for k Q v
    by (rule wpI) (use that emitsD [OF emits_sleep] in metis)
  show ?case
    by (auto simp: wp_simps intro!: wp_mono [OF discover_evidence [OF Suc.prems]] wait rest)
qed

text \<open>A machine with one disk, whose second partition is a rootfs.\<close>
definition sample_header :: "byte list" where
  "sample_header = bytes_of ''EFI PART'' @ replicate 64 0 @ [2, 0, 0, 0, 0, 0, 0, 0, 2, 0, 0, 0, 128, 0, 0, 0] @ replicate 4 0"

fun one_disk_env :: "event list \<Rightarrow> call \<Rightarrow> reply" where
  "one_disk_env h (Fs (Opendir p)) = ok\<lparr>rc := 1\<rparr>"
| "one_disk_env h (Fs Readdir) = ok\<lparr>rc := 1, bytes := bytes_of ''nvme0n1''\<rparr>"
| "one_disk_env h (Fs (Lstat p)) = ok\<lparr>kind := BlockDevice\<rparr>"
| "one_disk_env h (Dev (Blksszget fd)) = ok\<lparr>val := 512\<rparr>"
| "one_disk_env h (Dev (Blkgetsize64 fd)) = ok\<lparr>val := 1048576\<rparr>"
| "one_disk_env h (Mem (Malloc n)) = ok\<lparr>rc := 1\<rparr>"
| "one_disk_env h (Fs (Pread fd n off)) = ok\<lparr>rc := int n, bytes :=
     overlay (if off = 512 then sample_header else if off = 1024 then [] else rootfs_entry) (replicate n 0)\<rparr>"
| "one_disk_env h c = ok"

definition one_disk :: cominitGPTDisk_t where
  "one_disk = \<lparr>diskName = ''/dev/nvme0n1'', blockSize = 512, hdr = header_of sample_header\<rparr>"

lemma one_disk_fields:
  "length sample_header = 92" "signature (header_of sample_header) = bytes_of ''EFI PART''"
  "partitionEntriesLba (header_of sample_header) = 2" "partitionEntryCount (header_of sample_header) = 2"
  "partitionEntrySize (header_of sample_header) = 128"
  by (simp_all add: sample_header_def header_of_def bytes_at_def)

lemma one_disk_readable: "disk_readable one_disk_env one_disk [replicate 128 0, rootfs_entry]"
  unfolding disk_readable_def table_readable_def
  by (rule exI [of _ 0], rule exI [of _ 1048576])
    (auto simp: one_disk_def one_disk_fields ok_def entry_offset_def lits less_Suc_eq rootfs_entry_def length_rootfs_guid Let_def)

lemma one_disk_gpt:
  assumes "status w = Running" "env w = one_disk_env"
  shows "wp (cominitAutomountFindGpt ''/dev/nvme0n1'' disk) (\<lambda>(r, d) w'. status w' = Running \<and> env w' = one_disk_env
     \<and> r = EXIT_SUCCESS \<and> d = one_disk) w"
  using assms unfolding cominitAutomountFindGpt_def cominitAutomountGetBlockSize_def
  by (simp add: wp_simps ok_def lits one_disk_fields one_disk_def Let_def)

lemma one_disk_partition:
  assumes "status w = Running" "env w = one_disk_env"
  shows "wp (cominitAutomountFindPartitionOnDisk (Some one_disk) (Some COMINIT_ROOTFS_GUID_TYPE) (Some name) COMINIT_ROOTFS_DEV_PATH_MAX)
     (\<lambda>(r, nm) w'. r = EXIT_SUCCESS \<and> nm = Some ''/dev/nvme0n1p2'') w"
proof -
  have name: "diskName one_disk = ''/dev/nvme0n1''" by (simp add: one_disk_def)
  have node: "cominitAutomountBuildPartitionNode ''/dev/nvme0n1'' 2 COMINIT_ROOTFS_DEV_PATH_MAX = (EXIT_SUCCESS, ''/dev/nvme0n1p2'')"
    using sample_node by (simp add: COMINIT_ROOTFS_DEV_PATH_MAX_def)
  show ?thesis
    using on_disk_search [of w one_disk "[replicate 128 0, rootfs_entry]" COMINIT_ROOTFS_DEV_PATH_MAX COMINIT_ROOTFS_GUID_TYPE name]
      assms one_disk_readable name node
    unfolding sample_lookup by (auto simp: COMINIT_ROOTFS_DEV_PATH_MAX_def elim!: wp_mono)
qed

lemma one_disk_found:
  "wp (discover_loop 1 (argCtx_init default_config) rfsMeta_zero gptDisk_zero)
     (\<lambda>found w'. \<exists>m d. found = Some (m, d) \<and> devicePath m = ''/dev/nvme0n1p2'') (start one_disk_env 1)"
proof -
  have entry: "cstr (bytes_of ''nvme0n1'') = ''nvme0n1''" by (simp add: cstr_def bytes_of_def)
  have probed: "probed_name ''nvme0n1''" "device_path ''nvme0n1'' = ''/dev/nvme0n1''"
    by (simp_all add: probed_name_def cominitAutomountIsBlacklistedName_def blacklist_def starts_with_def device_path_def lits)
  have gpt: "wp (cominitAutomountFindGpt ''/dev/nvme0n1'' disk) Q v"
    if "status v = Running" "env v = one_disk_env" "\<And>v'. status v' = Running \<Longrightarrow> env v' = one_disk_env \<Longrightarrow> Q (EXIT_SUCCESS, one_disk) v'" for disk Q v
    by (rule wp_mono [OF one_disk_gpt]) (use that in auto)
  have part: "wp (cominitAutomountFindPartitionOnDisk (Some one_disk) (Some COMINIT_ROOTFS_GUID_TYPE) (Some name) COMINIT_ROOTFS_DEV_PATH_MAX) Q v"
    if "status v = Running" "env v = one_disk_env" "\<And>v'. Q (EXIT_SUCCESS, Some ''/dev/nvme0n1p2'') v'" for name Q v
    by (rule wp_mono [OF one_disk_partition]) (use that in auto)
  have max: "COMINIT_ROOTFS_DEV_PATH_MAX \<noteq> 0" by (simp add: lits)
  show ?thesis
    unfolding One_nat_def discover_loop.simps cominitDiscoverRootfs_def cominitAutomountFindPartition_def
    by (auto simp: wp_simps Let_def start_simps ok_def entry probed argCtx_init_def max
        intro!: gpt part)
qed

theorem root_device_evidence_witness:
  "wp (discover_loop 1 (argCtx_init default_config) rfsMeta_zero gptDisk_zero) (\<lambda>found w'. \<exists>m d. found = Some (m, d)
     \<and> devicePath m = ''/dev/nvme0n1p2'' \<and> root_device_found (argCtx_init default_config) m d (trace w')) (start one_disk_env 1)"
proof -
  have "pread_delivers one_disk_env" by (auto simp: pread_delivers_def ok_def)
  then have "wp (discover_loop 1 (argCtx_init default_config) rfsMeta_zero gptDisk_zero) (\<lambda>found w'. \<exists>x. trace w' = trace (start one_disk_env 1) @ x
     \<and> (\<forall>m d. found = Some (m, d) \<longrightarrow> root_device_found (argCtx_init default_config) m d x)) (start one_disk_env 1)"
    by (intro root_device_evidence) simp
  from wp_conj [THEN iffD2, OF conjI, OF one_disk_found this] show ?thesis by (rule wp_mono) auto
qed

end
