(* ===== verification/Measurement.thy ===== *)
theory Measurement
  imports Cominit
begin

text \<open>
  The measurement of the key: what \<^verbatim>\<open>cominitTpmExtendPCR\<close> of src/tpm.c extends a PCR with, and when
  src/cominit.c does so in relation to sealing and unsealing.
\<close>

section \<open>The digest of the key\<close>

text \<open>The encoding of a key in the buffer \<^verbatim>\<open>mbedtls_pk_write_pubkey_der\<close> has filled from its end.\<close>
definition der_of :: "reply \<Rightarrow> byte list" where
  "der_of d = drop (DER_BUFFER_SIZE - nat (rc d))
     (replicate (DER_BUFFER_SIZE - length (bytes d)) 0 @ take DER_BUFFER_SIZE (bytes d))"

text \<open>The calls of a successful digest: the key file was read, encoded and hashed, each without an error.\<close>
definition key_hashed :: "string \<Rightarrow> byte list \<Rightarrow> event list \<Rightarrow> bool" where
  "key_hashed kf digest x \<longleftrightarrow> (\<exists>a p d h f. x = [(Pk Pk_init, a), (Pk (Pk_parse_public_keyfile kf), p),
      (Pk (Pk_write_pubkey_der DER_BUFFER_SIZE), d), (Pk (Sha256 (der_of d)), h), (Pk Pk_free, f)]
     \<and> rc p = 0 \<and> 0 < rc d \<and> rc d \<le> int DER_BUFFER_SIZE \<and> rc h = 0
     \<and> digest = overlay (take SHA256_LEN (bytes h)) (replicate SHA256_LEN 0))"

lemma der_of_length: "0 < rc d \<Longrightarrow> rc d \<le> int DER_BUFFER_SIZE \<Longrightarrow> length (der_of d) = nat (rc d)"
  by (auto simp: der_of_def)

lemma key_hashed_length: "key_hashed kf digest x \<Longrightarrow> length digest = SHA256_LEN"
  by (auto simp: key_hashed_def)

definition pcr_handle :: "config \<Rightarrow> u64 \<Rightarrow> u64" where
  "pcr_handle cfg pcr = take_bit 32 (esys_tr_pcr0 cfg + pcr)"

lemma extend_calls:
  assumes "status w = Running"
  shows "wp (cominitTpmExtendPCR cfg (Some ctx) (Some kf) pcr) (\<lambda>a w'. \<exists>x. trace w' = trace w @ x
     \<and> ((\<forall>e \<in> set x. pk_event e) \<and> a \<noteq> EXIT_SUCCESS
        \<or> (\<exists>y digest r. x = y @ [(Tpm (Esys_PCR_Extend (pcr_handle cfg pcr) digest), r)] \<and> key_hashed kf digest y
             \<and> status w' = Running \<and> (a = EXIT_SUCCESS \<longleftrightarrow> rc r = 0)))) w"
proof -
  have digest: "wp (cominitCreateSHA256DigestfromKeyfile (Some kf) (Some (replicate SHA256_LEN 0)) SHA256_LEN)
     (\<lambda>(r, digest) w'. \<exists>x. trace w' = trace w @ x \<and> (\<forall>e \<in> set x. pk_event e)
        \<and> (r = EXIT_SUCCESS \<longrightarrow> status w' = Running \<and> key_hashed kf (the digest) x)) w"
    unfolding cominitCreateSHA256DigestfromKeyfile_def option.case prod.case Let_def der_of_def [symmetric]
    using assms by (auto simp: wp_simps key_hashed_def)
  show ?thesis
    unfolding cominitTpmExtendPCR_def option.case prod.case Let_def pcr_handle_def [symmetric]
    by (rule vcg_bind, rule wp_mono [OF digest]) (auto simp: wp_simps)
qed

section \<open>The order of measuring and sealing\<close>

definition extends_pcr :: "event \<Rightarrow> bool" where
  "extends_pcr e \<longleftrightarrow> (case e of (Tpm (Esys_PCR_Extend _ _), _) \<Rightarrow> True | _ \<Rightarrow> False)"

text \<open>The object with the passphrase is created, loaded or unsealed.\<close>
definition uses_seal :: "event \<Rightarrow> bool" where
  "uses_seal e \<longleftrightarrow> (case e of (Tpm (Esys_Create _ _ _ _ _ _), _) \<Rightarrow> True | (Tpm (Esys_Load _ _ _), _) \<Rightarrow> True
     | (Tpm (Esys_Unseal _ _), _) \<Rightarrow> True | _ \<Rightarrow> False)"

text \<open>A machine with two states: the PCR may still be extended, once and with the digest of the key; and sealing
  and unsealing may happen, but no further extension.\<close>
datatype measuring = Measurable | Fixed

inductive measure_step :: "u64 \<Rightarrow> measuring \<Rightarrow> event list \<Rightarrow> measuring \<Rightarrow> bool" for pcr where
  other: "\<not> extends_pcr e \<Longrightarrow> \<not> uses_seal e \<Longrightarrow> measure_step pcr p [e] p"
| measure: "key_hashed COMINIT_ROOTFS_KEY_LOCATION digest y \<Longrightarrow>
    measure_step pcr Measurable (y @ [(Tpm (Esys_PCR_Extend pcr digest), r)]) Fixed"
| leave: "measure_step pcr Measurable [] Fixed"
| seal: "\<not> extends_pcr e \<Longrightarrow> measure_step pcr Fixed [e] Fixed"

lemma not_tpm_other: "\<forall>t. fst e \<noteq> Tpm t \<Longrightarrow> measure_step pcr p [e] p"
  by (cases e) (auto simp: extends_pcr_def uses_seal_def intro!: measure_step.other split: call.splits)

lemma sim_not_tpm: "emits K m \<Longrightarrow> (\<And>e t. K e \<Longrightarrow> fst e \<noteq> Tpm t) \<Longrightarrow> simulates (measure_step pcr) p m (\<lambda>_ q. q = p)"
  by (erule sim_loop) (blast intro: not_tpm_other)

lemma sim_leave:
  assumes "simulates (measure_step pcr) Fixed m Q"
  shows "simulates (measure_step pcr) p m Q"
proof (cases p)
  case Measurable
  show ?thesis
  proof (rule simulatesI)
    fix w a w' assume "run_state m w = (a, w')"
    from simulatesD [OF assms this] obtain x q where
      "trace w' = trace w @ x" "steps (measure_step pcr) Fixed x q" "status w' = Running \<longrightarrow> Q a q" by blast
    moreover from this(2) have "steps (measure_step pcr) p ([] @ x) q"
      unfolding Measurable by (rule steps.more [where S = "measure_step pcr", OF measure_step.leave])
    ultimately show "\<exists>x q. trace w' = trace w @ x \<and> steps (measure_step pcr) p x q \<and> (status w' = Running \<longrightarrow> Q a q)" by auto
  qed
qed (use assms in simp)

lemma sim_extend:
  "simulates (measure_step (pcr_handle cfg pcr)) Measurable
     (cominitTpmExtendPCR cfg (Some ctx) (Some COMINIT_ROOTFS_KEY_LOCATION) pcr) (\<lambda>_ _. True)"
proof (rule simulatesI)
  fix w a w' assume run: "run_state (cominitTpmExtendPCR cfg (Some ctx) (Some COMINIT_ROOTFS_KEY_LOCATION) pcr) w = (a, w')"
  have stay: "steps (measure_step (pcr_handle cfg pcr)) Measurable x Measurable" if "\<forall>e \<in> set x. pk_event e" for x
    by (rule steps_stay [where S = "measure_step (pcr_handle cfg pcr)", OF not_tpm_other that]) (auto simp: pk_event_def)
  have "\<exists>x q. trace w' = trace w @ x \<and> steps (measure_step (pcr_handle cfg pcr)) Measurable x q"
  proof (cases "status w = Running")
    case True
    from wp_run_state [OF extend_calls [OF True] run] obtain x where x: "trace w' = trace w @ x"
      "(\<forall>e \<in> set x. pk_event e) \<or> (\<exists>y digest r. x = y @ [(Tpm (Esys_PCR_Extend (pcr_handle cfg pcr) digest), r)]
         \<and> key_hashed COMINIT_ROOTFS_KEY_LOCATION digest y)" by blast
    from x(2) have "\<exists>q. steps (measure_step (pcr_handle cfg pcr)) Measurable x q"
      using stay by (blast intro: steps_one [where S = "measure_step (pcr_handle cfg pcr)", OF measure_step.measure])
    with x(1) show ?thesis by blast
  next
    case False
    with emitsD(4) [OF extend_pcr.footprint run] have "trace w' = trace w @ []" by simp
    then show ?thesis by (blast intro: steps.none)
  qed
  then show "\<exists>x q. trace w' = trace w @ x \<and> steps (measure_step (pcr_handle cfg pcr)) Measurable x q \<and> (status w' = Running \<longrightarrow> True)"
    by blast
qed

section \<open>The parts of the boot\<close>

lemma protect_no_extension: "emits (\<lambda>e. \<not> extends_pcr e) (cominitTpmProtectData cfg ctx args)"
proof -
  have loop: "emits (\<lambda>e. \<not> extends_pcr e) (mkdir_loop mode cur ts)" for mode cur ts
    by (induction ts arbitrary: cur) (auto intro!: emits_intros simp: extends_pcr_def)
  have blob: "emits (\<lambda>e. \<not> extends_pcr e) (cominitTpmSetupBlob args)"
    unfolding cominitTpmSetupBlob_def cominitMkdir_def by (auto intro!: emits_intros loop [unfolded extends_pcr_def] simp: extends_pcr_def)
  have seal: "emits (\<lambda>e. \<not> extends_pcr e) (cominitTpmSealBlob cfg ectx args)" for ectx
    unfolding cominitTpmSealBlob_def cominitTpmSeal_def seal_session_def cominitTpmSavePrimaryHandle_def
      cominitTpmSaveBlob_def policy_pcr_def cominitSecurememoryEsysCreate_def cominitCryptoCreatePassphrase_def
      cominitCryptoCreateUniqueString_def
    by (auto split: option.split sum.split intro!: emits_intros simp: extends_pcr_def)
  have unseal: "emits (\<lambda>e. \<not> extends_pcr e) (cominitTpmUnsealBlob cfg ectx args)" for ectx
    unfolding cominitTpmUnsealBlob_def cominitTpmUnseal_def unseal_session_def cominitTpmLoadBlob_def
      cominitTpmLoadPrimaryHandle_def policy_pcr_def cominitSecurememoryEsysUnseal_def cominitKeyringAddUserKey_def
    by (auto split: option.split sum.split intro!: emits_intros simp: extends_pcr_def)
  have storage: "emits (\<lambda>e. \<not> extends_pcr e) (cominitTpmSetupSecureStorage cfg args first)" for first
    unfolding cominitTpmSetupSecureStorage_def cominitSecurememoryCreateLuksVolume_def luks_with_key_def
      cominitKeyringGetKey_def cominitCryptsetupCreateLuksVolume_def cominitCryptsetupAddToken_def
      cominitCryptsetupOpenLuksVolume_def cominitTpmFormatSecureStorage_def cominitSubprocessSpawnAndWrite_def
      cominitSubprocessSpawn_def child_exec_def
    by (auto split: option.split intro!: emits_intros simp: extends_pcr_def)
  show ?thesis
    unfolding cominitTpmProtectData_def protect_blob_def cominitTpmUnmountBlob_def
    by (auto split: cominitBlobState_t.split intro!: emits_intros blob seal unseal storage)
      (simp_all add: extends_pcr_def)
qed

lemma sim_tpm_block:
  "simulates (measure_step (pcr_handle cfg (pcrIndex args))) Measurable (tpm_block cfg args) (\<lambda>_ _. True)"
proof -
  let ?S = "measure_step (pcr_handle cfg (pcrIndex args))"
  let ?K = "\<lambda>e. \<not> extends_pcr e \<and> \<not> uses_seal e"
  have init: "emits ?K (cominitInitTpm c)" for c
    unfolding cominitInitTpm_def cominitTpmSelftest_def
    by (auto split: option.split intro!: emits_intros simp: extends_pcr_def uses_seal_def)
  have delete: "emits ?K (cominitDeleteTpm c)" for c
    unfolding cominitDeleteTpm_def
    by (auto split: option.split intro!: emits_intros simp: extends_pcr_def uses_seal_def)
  have stay: "simulates ?S p m (\<lambda>_ q. q = p)" if "emits ?K m" for p and m :: "'a op"
    by (rule sim_loop [OF that]) (blast intro: measure_step.other)
  have extend: "simulates ?S Measurable (cominitTpmExtendPCR cfg c (Some COMINIT_ROOTFS_KEY_LOCATION) (pcrIndex args)) (\<lambda>_ _. True)" for c
    by (cases c) (simp add: cominitTpmExtendPCR_def sim_return, simp add: sim_extend)
  have protect: "simulates ?S p (cominitTpmProtectData cfg c args) (\<lambda>_ _. True)" for p c
    by (rule sim_leave, rule sim_mono, rule sim_loop [where S = ?S, OF protect_no_extension])
      (blast intro: measure_step.seal)+
  have last: "simulates ?S p (do { _ \<leftarrow> cominitDeleteTpm c; return () }) (\<lambda>_ _. True)" for p c
    by (rule sim_bind [OF stay [OF delete]]) (auto intro!: emits_intros sim_return)
  show ?thesis
    unfolding tpm_block_def
    by (rule sim_if, rule sim_bind [OF stay [OF init]])
      (auto intro!: emits_intros inert [OF extend_pcr.footprint] inert [OF protect_data.footprint]
        inert [OF delete_tpm.footprint] sim_return last sim_bind [OF extend] sim_bind [OF protect] sim_pair sim_if
        split: cominitTpmState_t.split)
qed

text \<open>Everything else in the boot leaves the TPM alone.\<close>
lemma not_tpm_events:
  "\<not> quiet_event (Tpm t, r)" "\<not> scan_event (Tpm t, r)" "\<not> disk_event disk (Tpm t, r)"
  "\<not> rootfs_event cfg meta (Tpm t, r)" "\<not> selinux_event (Tpm t, r)" "\<not> sysfiles_event (Tpm t, r)"
  "\<not> switch_event (Tpm t, r)"
  by (auto simp: quiet_event_def boot_event_def scan_event_def disk_event_def rootfs_event_def dm_event_def
      selinux_event_def sysfiles_event_def switch_event_def nftw_event_def)

lemma enter_not_tpm: "emits (\<lambda>e. \<forall>t. fst e \<noteq> Tpm t) (enter_rootfs cfg args meta)"
proof -
  have loop: "emits (\<lambda>e. \<forall>t. fst e \<noteq> Tpm t) (mkdir_loop mode cur ts)" for mode cur ts
    by (induction ts arbitrary: cur) (auto intro!: emits_intros)
  have storage: "emits (\<lambda>e. \<forall>t. fst e \<noteq> Tpm t) (cominitTpmMountSecureStorage cfg)"
    unfolding cominitTpmMountSecureStorage_def cominitMkdir_def by (auto intro!: emits_intros loop)
  show ?thesis
    unfolding enter_rootfs_def switch_and_exec_def
    by (auto intro!: emits_intros storage emits_mono [OF setup_rootfs.footprint] emits_mono [OF selinux.footprint]
        emits_mono [OF cleanup_selinux.footprint] emits_mono [OF cleanup_sys.footprint] emits_mono [OF switch_root.footprint]
        simp: not_tpm_events)
qed

lemma find_storage_index: "returns (\<lambda>a. pcrIndex a = pcrIndex args) (find_secure_storage args disk)"
  unfolding find_secure_storage_def by (auto intro!: returns_intros)

lemma sim_measured_boot:
  "simulates (measure_step (pcr_handle cfg (pcrIndex args))) Measurable (boot cfg args) (\<lambda>_ _. True)"
proof -
  let ?S = "measure_step (pcr_handle cfg (pcrIndex args))"
  have find: "simulates ?S Measurable (find_secure_storage args disk) (\<lambda>a q. q = Measurable \<and> pcrIndex a = pcrIndex args)" for disk
    by (rule sim_events [where S = ?S and p = Measurable and K = "\<lambda>e. \<forall>t. fst e \<noteq> Tpm t", OF _ not_tpm_other find_storage_index])
      (auto simp: find_secure_storage_def not_tpm_events intro!: emits_intros emits_mono [OF emits_find_on_disk]
        emits_mono [OF find_partition.footprint])
  have enter: "simulates ?S p (enter_rootfs cfg a meta) (\<lambda>_ _. True)" for p a meta
    by (rule sim_mono [OF sim_not_tpm [OF enter_not_tpm]]) auto
  have tpm: "simulates ?S Measurable (tpm_block cfg a) (\<lambda>_ _. True)" if "pcrIndex a = pcrIndex args" for a
    using sim_tpm_block [of cfg a] that by simp
  have verified: "simulates ?S Measurable (boot_verified cfg args meta disk) (\<lambda>_ _. True)" for meta disk
    unfolding boot_verified_def
    by (auto intro!: sim_if sim_return enter sim_bind [OF find] sim_bind [OF tpm] emits_intros
        inert [OF emits_tpm_block] inert [OF emits_enter_rootfs])
  have quiet: "simulates ?S p m (\<lambda>_ q. q = p)" if "emits quiet_event m" for p and m :: "'a op"
    by (rule sim_not_tpm [OF that]) (auto simp: not_tpm_events)
  note parts = emits_mono [OF sysfiles.footprint quiet_sysfiles] emits_mono [OF fake_hsm.footprint quiet_enrol]
    emits_discover_loop emits_mono [OF load_metadata.footprint quiet_load]
  show ?thesis
    unfolding boot_def
    by (rule sim_bind [OF quiet [OF parts(1)]])
      (auto intro!: emits_intros inert [OF parts(2)] inert [OF parts(3)] inert [OF parts(4)] inert [OF emits_boot_verified]
        sim_return sim_bind [OF quiet [OF parts(2)]] sim_bind [OF quiet [OF parts(3)]] sim_bind [OF quiet [OF parts(4)]]
        verified split: option.split)
qed

section \<open>Runs of the machine\<close>

primrec unmeasured :: "measuring \<Rightarrow> event list \<Rightarrow> bool" where
  "unmeasured Measurable h = (\<forall>e \<in> set h. \<not> extends_pcr e \<and> \<not> uses_seal e)"
| "unmeasured Fixed h = True"

lemma key_hashed_calls: "key_hashed kf digest y \<Longrightarrow> e \<in> set y \<Longrightarrow> \<not> extends_pcr e \<and> \<not> uses_seal e"
  by (auto simp: key_hashed_def extends_pcr_def uses_seal_def)

lemma step_unmeasured: "measure_step pcr p x q \<Longrightarrow> unmeasured p h \<Longrightarrow> unmeasured q (h @ x)"
  by (induction rule: measure_step.induct) (case_tac p; auto)+

text \<open>The step that extends the PCR.\<close>
lemma step_extends:
  assumes "measure_step pcr p (us @ (Tpm (Esys_PCR_Extend h d), r) # vs) q"
  shows "p = Measurable \<and> h = pcr \<and> key_hashed COMINIT_ROOTFS_KEY_LOCATION d us"
  using assms
proof (cases rule: measure_step.cases)
  case (measure digest y r')
  have "(Tpm (Esys_PCR_Extend h d), r) \<notin> set y"
    using key_hashed_calls [OF measure(4), of "(Tpm (Esys_PCR_Extend h d), r)"] by (auto simp: extends_pcr_def)
  with measure show ?thesis
    using split_behind [of us "(Tpm (Esys_PCR_Extend h d), r)" vs y "[(Tpm (Esys_PCR_Extend pcr digest), r')]"]
    by (auto simp: Cons_eq_append_conv)
qed (auto simp: extends_pcr_def append_eq_Cons_conv)

lemma run_extends:
  assumes "steps (measure_step pcr) Measurable tr q" and "tr = pre @ (Tpm (Esys_PCR_Extend h d), r) # post"
  shows "h = pcr \<and> (\<exists>pre0 y. pre = pre0 @ y \<and> key_hashed COMINIT_ROOTFS_KEY_LOCATION d y)
     \<and> (\<forall>e \<in> set pre. \<not> extends_pcr e \<and> \<not> uses_seal e)"
proof -
  from steps_event [where S = "measure_step pcr" and I = unmeasured and h = "[]", OF assms(1) _ _ assms(2)]
    step_unmeasured [of pcr]
  obtain p' us vs q' b where s: "measure_step pcr p' (us @ (Tpm (Esys_PCR_Extend h d), r) # vs) q'"
    "pre = b @ us" "unmeasured p' b" by auto
  with step_extends [OF s(1)] show ?thesis by (auto dest: key_hashed_calls)
qed

text \<open>Every extension of a PCR is of the selected one, follows directly on the successful hashing of the key
  the metadata are verified with, is the only one, and comes before the sealed object is used.\<close>
definition measured_once :: "config \<Rightarrow> string list \<Rightarrow> event list \<Rightarrow> bool" where
  "measured_once cfg argv tr \<longleftrightarrow> (\<forall>pre h d r post. tr = pre @ (Tpm (Esys_PCR_Extend h d), r) # post \<longrightarrow>
     (\<exists>args. parse_args cfg argv (argCtx_init cfg) = Inr args \<and> h = pcr_handle cfg (pcrIndex args))
     \<and> (\<exists>pre0 y. pre = pre0 @ y \<and> key_hashed COMINIT_ROOTFS_KEY_LOCATION d y)
     \<and> (\<forall>e \<in> set pre. \<not> extends_pcr e \<and> \<not> uses_seal e) \<and> (\<forall>e \<in> set post. \<not> extends_pcr e))"

lemma measured_onceI:
  assumes "steps (measure_step (pcr_handle cfg (pcrIndex args))) Measurable tr q" and "parse_args cfg argv (argCtx_init cfg) = Inr args"
  shows "measured_once cfg argv tr"
  unfolding measured_once_def
proof (intro allI impI conjI)
  fix pre h d r post assume tr: "tr = pre @ (Tpm (Esys_PCR_Extend h d), r) # post"
  note run = run_extends [OF assms(1)]
  show "\<exists>args. parse_args cfg argv (argCtx_init cfg) = Inr args \<and> h = pcr_handle cfg (pcrIndex args)"
    "\<exists>pre0 y. pre = pre0 @ y \<and> key_hashed COMINIT_ROOTFS_KEY_LOCATION d y"
    "\<forall>e \<in> set pre. \<not> extends_pcr e \<and> \<not> uses_seal e"
    using run [OF tr] assms(2) by auto
  show "\<forall>e \<in> set post. \<not> extends_pcr e"
  proof (intro ballI notI)
    fix e assume "e \<in> set post" and e: "extends_pcr e"
    then obtain us vs where "post = us @ e # vs" by (meson split_list)
    moreover from e obtain h' d' r' where "e = (Tpm (Esys_PCR_Extend h' d'), r')"
      by (cases e) (auto simp: extends_pcr_def split: call.splits tpm_call.splits)
    ultimately have "tr = (pre @ (Tpm (Esys_PCR_Extend h d), r) # us) @ (Tpm (Esys_PCR_Extend h' d'), r') # vs"
      using tr by simp
    from run [OF this] show False by (auto simp: extends_pcr_def)
  qed
qed

text \<open>C7: The key is measured once, and before sealing. In every run of cominit an extension of a PCR is of the PCR
  selected on the command line; the calls directly before it read, encode and hash the key file the
  metadata are verified with, all without an error, and the digest is their result; no other
  extension happens in the run; and the object with the passphrase is neither created, loaded nor
  unsealed before it, so that a passphrase is never bound to the state without the measurement and
  then measured.\<close>
theorem measured_before_sealing: "measured_once cfg argv (trace_of_main E n cfg argv log)"
proof -
  obtain a w' where run: "run_state (main cfg argv log) (start E n) = (a, w')" by fastforce
  show ?thesis
  proof (cases "parse_args cfg argv (argCtx_init cfg)")
    case (Inr args)
    have quiet: "measure_step (pcr_handle cfg (pcrIndex args)) p [e] p" if "quiet_event e" for p e
      using that by (cases e) (auto simp: not_tpm_events intro!: not_tpm_other)
    from main_follows [where S = "measure_step (pcr_handle cfg (pcrIndex args))" and p = Measurable, OF quiet]
    obtain q where "steps (measure_step (pcr_handle cfg (pcrIndex args))) Measurable (trace_of_main E n cfg argv log) q"
      using Inr sim_measured_boot [of cfg args] by force
    from measured_onceI [OF this Inr] show ?thesis .
  next
    case (Inl x)
    have "emits quiet_event (main cfg argv log)"
      unfolding main_def Inl sum.case by (cases x) (auto intro!: emits_intros emits_print)
    from emitsD(3) [OF this run] have "\<forall>e \<in> set (trace w'). quiet_event e" by auto
    with run show ?thesis by (auto simp: measured_once_def trace_of_main_def not_tpm_events)
  qed
qed

end
