(* ===== verification/Resources.thy ===== *)
theory Resources
  imports Cominit "HOL-Library.Multiset"
begin

unbundle bit_operations_syntax

text \<open>
  What the process holds: descriptors, streams, directory streams, mappings and memory. A machine
  whose state is the collection of resources held follows the calls; every operation of cominit gives
  back what it acquired, on every path, and nothing is held when a program is started.
\<close>

section \<open>The machine\<close>

datatype resource = Descriptor int | File_stream | Directory_stream | Mapping | Memory

fun acquired :: "event \<Rightarrow> resource multiset" where
  "acquired (Fs (Open _ _), r) = (if rc r < 0 then {#} else {#Descriptor (rc r)#})"
| "acquired (Proc Pipe, r) = (if rc r \<noteq> 0 then {#} else {#Descriptor (sint (val r)), Descriptor (sint (val2 r))#})"
| "acquired (Stream (Fopen _ _), r) = (if rc r = 0 then {#} else {#File_stream#})"
| "acquired (Fs (Opendir _), r) = (if rc r = 0 then {#} else {#Directory_stream#})"
| "acquired (Fs (Mmap _ _), r) = (if rc r = - 1 then {#} else {#Mapping#})"
| "acquired (Mem (Malloc _), r) = (if rc r = 0 then {#} else {#Memory#})"
| "acquired (Mem (Calloc _), r) = (if rc r = 0 then {#} else {#Memory#})"
| "acquired _ = {#}"

fun given_back :: "event \<Rightarrow> resource multiset" where
  "given_back (Fs (Close fd), _) = {#Descriptor fd#}"
| "given_back (Stream Fclose, _) = {#File_stream#}"
| "given_back (Fs Closedir, _) = {#Directory_stream#}"
| "given_back (Fs (Munmap _), _) = {#Mapping#}"
| "given_back (Mem (Free _), _) = {#Memory#}"
| "given_back _ = {#}"

text \<open>What may be held when a program is started. The HSM emulation never closes its key files. A child
  replaces its own copy of the memory; the process itself starts the init or the rescue shell.\<close>
definition may_hold :: "config \<Rightarrow> string list \<Rightarrow> resource \<Rightarrow> bool" where
  "may_hold cfg argv x \<longleftrightarrow> x = File_stream \<and> fake_hsm cfg
     \<or> x = Memory \<and> argv \<noteq> [''/sbin/init''] \<and> argv \<noteq> [''/bin/sh'']"

text \<open>\<^verbatim>\<open>open\<close> returns a descriptor or -1. The code compares with -1 in some places and with 0 in others;
  whether a smaller number counts as a descriptor is left to the second rule.\<close>
inductive holds_step :: "config \<Rightarrow> resource multiset \<Rightarrow> event list \<Rightarrow> resource multiset \<Rightarrow> bool" for cfg where
  call: "given_back e \<subseteq># H \<Longrightarrow> (\<And>p a. fst e = Proc (Execve p a) \<Longrightarrow> \<forall>x \<in># H. may_hold cfg a x) \<Longrightarrow>
    holds_step cfg H [e] (H - given_back e + acquired e)"
| odd: "rc r < - 1 \<Longrightarrow> holds_step cfg H [(Fs (Open p fl), r)] H'"

abbreviation keeps :: "config \<Rightarrow> resource multiset \<Rightarrow> 'a op \<Rightarrow> bool" where
  "keeps cfg H m \<equiv> simulates (holds_step cfg) H m (\<lambda>_ q. q = H)"

section \<open>Single calls\<close>

definition neutral :: "event \<Rightarrow> bool" where
  "neutral e \<longleftrightarrow> acquired e = {#} \<and> given_back e = {#} \<and> (\<forall>p a. fst e \<noteq> Proc (Execve p a))"

lemma neutral_step: "neutral e \<Longrightarrow> holds_step cfg H [e] H"
  using holds_step.call [of e H cfg] by (auto simp: neutral_def)

lemma keeps_events: "emits K m \<Longrightarrow> (\<And>e. K e \<Longrightarrow> neutral e) \<Longrightarrow> keeps cfg H m"
  by (erule sim_loop) (auto intro: neutral_step)

lemma keeps_sys: "(\<And>r. neutral (c, r)) \<Longrightarrow> keeps cfg H (sys c)"
  by (rule sim_sys) (blast intro: steps_one [where S = "holds_step cfg"] neutral_step)

lemma keeps_run: "(\<And>r. neutral (c, r)) \<Longrightarrow> keeps cfg H (run c)"
  by (rule sim_run) (blast intro: steps_one [where S = "holds_step cfg"] neutral_step)

lemma call_run:
  "given_back (c, r) \<subseteq># H \<Longrightarrow> (\<And>p a. c \<noteq> Proc (Execve p a)) \<Longrightarrow>
   steps (holds_step cfg) H [(c, r)] (H - given_back (c, r) + acquired (c, r))"
  by (rule steps_one [where S = "holds_step cfg"], rule holds_step.call) auto

text \<open>An operation goes on with what is held after a call.\<close>
lemma acquire:
  assumes "\<And>r. given_back (c, r) = {#}" and "\<And>p a. c \<noteq> Proc (Execve p a)" and "\<And>r. emits (\<lambda>_. True) (f r)"
    and "\<And>r. simulates (holds_step cfg) (H + acquired (c, r)) (f r) Q"
  shows "simulates (holds_step cfg) H (State_Monad.bind (sys c) f) Q"
proof (rule sim_bind [OF sim_sys [where Q = "\<lambda>r q. q = H + acquired (c, r)"]])
  show "\<exists>q. steps (holds_step cfg) H [(c, r)] q \<and> q = H + acquired (c, r)" for r
    using call_run [of c r H cfg] assms(1,2) by auto
qed (use assms(3,4) in auto)

text \<open>For the places where the result of \<^verbatim>\<open>open\<close> is compared with -1.\<close>
lemma acquire_open:
  fixes f :: "reply \<Rightarrow> 'a op"
  assumes rest: "\<And>r. emits (\<lambda>_. True) (f r)" and bad: "\<And>r. rc r = - 1 \<Longrightarrow> simulates (holds_step cfg) H (f r) Q"
    and good: "\<And>r. rc r \<noteq> - 1 \<Longrightarrow> simulates (holds_step cfg) (add_mset (Descriptor (rc r)) H) (f r) Q"
  shows "simulates (holds_step cfg) H (State_Monad.bind (sys (Fs (Open p fl))) f) Q"
proof (rule sim_bind [OF sim_sys [where Q = "\<lambda>r q. if rc r = - 1 then q = H else q = add_mset (Descriptor (rc r)) H"] rest])
  fix r :: reply
  let ?e = "(Fs (Open p fl), r)"
  consider "rc r < - 1" | "rc r = - 1" | "0 \<le> rc r" by linarith
  then show "\<exists>q. steps (holds_step cfg) H [?e] q \<and> (if rc r = - 1 then q = H else q = add_mset (Descriptor (rc r)) H)"
  proof cases
    case 1
    then have "holds_step cfg H [?e] (add_mset (Descriptor (rc r)) H)" by (rule holds_step.odd)
    then have "steps (holds_step cfg) H [?e] (add_mset (Descriptor (rc r)) H)" by (rule steps_one)
    with 1 show ?thesis by auto
  qed (use call_run [of "Fs (Open p fl)" r H cfg] in auto)
qed (use bad good in \<open>auto split: if_splits\<close>)

lemma release:
  assumes "\<And>r. given_back (c, r) = {#x#}" and "\<And>r. acquired (c, r) = {#}" and "x \<in># H"
    and "\<And>p a. c \<noteq> Proc (Execve p a)"
  shows "simulates (holds_step cfg) H (run c) (\<lambda>_ q. q = H - {#x#})"
  by (rule sim_run) (use call_run [of c _ H cfg] assms in auto)

lemma held_swap [simp]: "add_mset a (add_mset b H) - {#b#} = add_mset a H"
  by (simp add: add_mset_commute [of a b])

lemma seq:
  "keeps cfg H m \<Longrightarrow> (\<And>a. emits (\<lambda>_. True) (f a)) \<Longrightarrow> (\<And>a. simulates (holds_step cfg) H (f a) Q) \<Longrightarrow>
   simulates (holds_step cfg) H (State_Monad.bind m f) Q"
  by (erule sim_bind) auto

lemma seq_sys:
  "(\<And>r. neutral (c, r)) \<Longrightarrow> (\<And>r. emits (\<lambda>_. True) (f r)) \<Longrightarrow> (\<And>r. simulates (holds_step cfg) H (f r) Q) \<Longrightarrow>
   simulates (holds_step cfg) H (State_Monad.bind (sys c) f) Q"
  by (rule seq [OF keeps_sys])

lemma seq_run:
  "(\<And>r. neutral (c, r)) \<Longrightarrow> (\<And>r. emits (\<lambda>_. True) (f r)) \<Longrightarrow> (\<And>r. simulates (holds_step cfg) H (f r) Q) \<Longrightarrow>
   simulates (holds_step cfg) H (State_Monad.bind (run c) f) Q"
  by (rule seq [OF keeps_run])

lemma seq_release:
  assumes "\<And>r. given_back (c, r) = {#x#}" and "\<And>r. acquired (c, r) = {#}" and "\<And>p a. c \<noteq> Proc (Execve p a)"
    and "x \<in># H" and "\<And>r. emits (\<lambda>_. True) (f r)" and "\<And>r. simulates (holds_step cfg) (H - {#x#}) (f r) Q"
  shows "simulates (holds_step cfg) H (State_Monad.bind (run c) f) Q"
  by (rule sim_bind [OF release [OF assms(1,2,4,3)]]) (use assms in auto)

lemma seq_if:
  "(b \<Longrightarrow> keeps cfg H m) \<Longrightarrow> (\<not> b \<Longrightarrow> keeps cfg H n) \<Longrightarrow> (\<And>r. emits (\<lambda>_. True) (f r)) \<Longrightarrow>
   (\<And>r. simulates (holds_step cfg) H (f r) Q) \<Longrightarrow>
   simulates (holds_step cfg) H (State_Monad.bind (if b then m else n) f) Q"
  by (rule seq) auto

lemma seq_halt:
  "s \<noteq> Running \<Longrightarrow> (\<And>a. emits (\<lambda>_. True) (f a)) \<Longrightarrow> simulates (holds_step cfg) H (State_Monad.bind (halt s) f) Q"
  by (rule sim_bind [OF sim_halt [where Q = "\<lambda>_ _. False"]]) auto

text \<open>A block that gives back what was acquired in front of it.\<close>
lemma seq_block:
  assumes "\<And>l. given_back (c, l) = {#}" and "\<And>p a. c \<noteq> Proc (Execve p a)"
    and "\<And>l. acquired (c, l) = (if bad l then {#} else {#x l#})"
    and "\<And>l. bad l \<Longrightarrow> keeps cfg H (m l)"
    and "\<And>l. \<not> bad l \<Longrightarrow> simulates (holds_step cfg) (add_mset (x l) H) (n l) (\<lambda>_ q. q = H)"
    and "\<And>l. emits (\<lambda>_. True) (m l)" "\<And>l. emits (\<lambda>_. True) (n l)" "\<And>l a. emits (\<lambda>_. True) (f l a)"
    and "\<And>l a. simulates (holds_step cfg) H (f l a) Q"
  shows "simulates (holds_step cfg) H (State_Monad.bind (sys c)
     (\<lambda>l. State_Monad.bind (if bad l then m l else n l) (f l))) Q"
proof (rule acquire)
  fix l
  have "simulates (holds_step cfg) (H + acquired (c, l)) (if bad l then m l else n l) (\<lambda>_ q. q = H)"
    using assms(3-5) by simp
  then show "simulates (holds_step cfg) (H + acquired (c, l)) (State_Monad.bind (if bad l then m l else n l) (f l)) Q"
    by (rule sim_bind) (use assms(8,9) in auto)
qed (use assms in \<open>auto intro!: emits_intros\<close>)

lemmas seq_open_block = seq_block [where c = "Fs (Open p fl)" and bad = "\<lambda>l. rc l < 0" and x = "\<lambda>l. Descriptor (rc l)" for p fl]
lemmas seq_calloc_block = seq_block [where c = "Mem (Calloc n)" and bad = "\<lambda>l. rc l = 0" and x = "\<lambda>l. Memory" for n]

lemmas acquire_calls = acquire [where c = "Proc Pipe"]
  acquire [where c = "Stream (Fopen p m)" for p m] acquire [where c = "Fs (Opendir p)" for p]
  acquire [where c = "Fs (Mmap p m)" for p m] acquire [where c = "Mem (Malloc n)" for n]

lemmas acquire_descriptor = acquire [where c = "Fs (Open p fl)" for p fl]

lemmas release_calls = seq_release [where c = "Fs (Close fd)" and x = "Descriptor fd" for fd]
  seq_release [where c = "Stream Fclose" and x = File_stream]
  seq_release [where c = "Fs Closedir" and x = Directory_stream]
  seq_release [where c = "Fs (Munmap n)" and x = Mapping for n]
  seq_release [where c = "Mem (Free b)" and x = Memory for b]

lemmas neutral_calls = seq_sys [where c = "Dev d" for d] seq_sys [where c = "Key d" for d]
  seq_sys [where c = "Pk d" for d] seq_run [where c = "Pk d" for d]
  seq_sys [where c = "Tpm d" for d] seq_run [where c = "Tpm d" for d]
  seq_sys [where c = "Mem (Mlock n)" for n] seq_run [where c = "Mem (Munlock b)" for b]
  seq_sys [where c = "Fs (Pread a b d)" for a b d] seq_sys [where c = "Fs (Fstat a)" for a]
  seq_sys [where c = "Fs (Write a b n)" for a b n] seq_sys [where c = "Fs (Mknod a b d)" for a b d]
  seq_sys [where c = "Fs (Stat p)" for p] seq_sys [where c = "Fs (Lstat p)" for p] seq_sys [where c = "Fs Readdir"]
  seq_sys [where c = "Fs (Mount s t ty fl)" for s t ty fl] seq_sys [where c = "Fs (Access p)" for p]
  seq_sys [where c = "Stream (Fread n)" for n] seq_sys [where c = "Stream (Fgets n)" for n]
  seq_run [where c = "Stream (Fwrite b)" for b] seq_sys [where c = "Proc (Waitpid n)" for n]
  seq_sys [where c = "Proc Fork"] seq_sys [where c = "Proc (Dup2 a b)" for a b]

lemmas held_rules = acquire_calls release_calls neutral_calls seq_if seq_halt sim_structure

section \<open>The operations\<close>

text \<open>Discovery.\<close>
lemma keeps_find_gpt: "keeps cfg H (cominitAutomountFindGpt device disk)"
  unfolding cominitAutomountFindGpt_def cominitAutomountGetBlockSize_def
  by (auto intro!: acquire_descriptor held_rules emits_intros simp: neutral_def split: if_splits)

lemma keeps_entries: "keeps cfg H (entries_loop n disk fd ds guid sz name buf)"
  by (rule keeps_events [OF emits_entries_loop [where K = "\<lambda>e. \<exists>k off. fst e = Fs (Pread fd k off)"]])
    (auto simp: neutral_def)

lemma keeps_part_size: "keeps cfg H (cominitCommonGetPartSize p fd)"
  unfolding cominitCommonGetPartSize_def by (auto intro!: acquire_descriptor held_rules emits_intros simp: neutral_def split: option.split)

lemma keeps_find_on_disk: "keeps cfg H (cominitAutomountFindPartitionOnDisk disk guid name sz)"
  unfolding cominitAutomountFindPartitionOnDisk_def
  by (auto intro!: acquire_descriptor held_rules emits_intros seq [OF keeps_entries] seq [OF keeps_part_size]
      emits_entries_loop inert [OF emits_part_size] simp: neutral_def split: if_splits option.split)

lemma keeps_selinux: "keeps cfg H (cominitLoadSelinuxPolicy p)"
proof (cases p)
  case (Some path)
  show ?thesis
    unfolding cominitLoadSelinuxPolicy_def Some option.case
    by (rule acquire) (auto intro!: held_rules seq_open_block emits_intros simp: neutral_def split: if_splits)
qed (simp add: cominitLoadSelinuxPolicy_def sim_return)

lemma keeps_mode: "keeps cfg H (cominitSetSelinuxMode n)"
  unfolding cominitSetSelinuxMode_def
  by (auto intro!: acquire_descriptor held_rules emits_intros simp: neutral_def split: if_splits)

text \<open>Metadata, device mapper and the rest of the boot.\<close>
lemma load_neutral:
  "load_event e \<Longrightarrow> (\<And>p fl. fst e \<noteq> Fs (Open p fl)) \<Longrightarrow> (\<And>fd. fst e \<noteq> Fs (Close fd)) \<Longrightarrow> neutral e"
  by (cases e rule: acquired.cases; cases e rule: given_back.cases) (auto simp: load_event_def neutral_def)

lemma keeps_load: "keeps cfg H (cominitLoadVerifyMetadata cfg meta keyfile)"
proof -
  let ?K = "\<lambda>e. load_event e \<and> (\<forall>p fl. fst e \<noteq> Fs (Open p fl)) \<and> (\<forall>fd. fst e \<noteq> Fs (Close fd))"
  have quiet: "?K e \<Longrightarrow> neutral e" for e using load_neutral by blast
  have key: "emits ?K (cominitKeyringGetKey k n d)" for k n d
    unfolding cominitKeyringGetKey_def by (auto intro!: emits_intros split: option.split)
  have option: "emits ?K (integrity_option opt)" for opt
    unfolding integrity_option_def by (auto intro!: emits_intros key)
  have options: "emits ?K (integrity_options acc opts)" for acc opts
    by (induction opts arbitrary: acc) (auto intro!: emits_intros option)
  have parse: "emits ?K (cominitParseMetadata m t)" for m t
    unfolding cominitParseMetadata_def cominitGenIntegrityDmTbl_def
    by (auto intro!: emits_intros options split: option.split)
  have loop: "emits ?K (readall_loop n b fd len)" for n b fd len
  proof (induction n arbitrary: b len)
    case 0
    show ?case by (subst readall_loop.simps) (auto intro!: emits_intros)
  next
    case (Suc n)
    show ?case by (subst readall_loop.simps) (auto intro!: emits_intros Suc)
  qed
  have read: "emits ?K (cominitBinReadall b fd off len)" for b fd off len
    unfolding cominitBinReadall_def by (auto intro!: emits_intros loop split: option.split)
  have verify: "emits ?K (cominitCryptoVerifySignature cfg d n sg k)" for d n sg k
    by (rule emits_mono [OF verify_signature.footprint]) (auto simp: pk_event_def split: call.splits)
  note parts = seq [OF keeps_events [OF parse quiet]] seq [OF keeps_events [OF read quiet]]
    seq [OF keeps_events [OF verify quiet]] seq [OF keeps_part_size]
  show ?thesis
    unfolding cominitLoadVerifyMetadata_def
    by (rule acquire_open)
      (auto intro!: held_rules parts emits_intros inert [OF parse] inert [OF read] inert [OF verify]
        inert [OF emits_part_size] simp: neutral_def split: if_splits)
qed

lemma keeps_dm: "keeps cfg H (cominitSetupDmDevice cfg m)"
proof -
  have "keeps cfg H (cominitSetupDmDevice cfg (Some k))" if "dm_target_name k = Some t" for k t
    unfolding cominitSetupDmDevice_def dm_ops option.case that
    by (rule acquire_open) (auto intro!: held_rules emits_intros simp: neutral_def split: if_splits)
  then show ?thesis
    by (cases m; cases "dm_target_name (the m)") (auto simp: cominitSetupDmDevice_def sim_return)
qed

text \<open>TPM and secure memory.\<close>
lemma keeps_unique: "keeps cfg H cominitCryptoCreateUniqueString"
  unfolding cominitCryptoCreateUniqueString_def
  by (auto intro!: held_rules emits_intros simp: neutral_def split: if_splits)

lemma inert_unique: "emits (\<lambda>_. True) cominitCryptoCreateUniqueString"
  unfolding cominitCryptoCreateUniqueString_def by (auto intro!: emits_intros)

lemma keeps_passphrase: "keeps cfg H (cominitCryptoCreatePassphrase p n)"
  unfolding cominitCryptoCreatePassphrase_def
  by (auto intro!: held_rules emits_intros seq [OF keeps_unique] inert_unique simp: neutral_def split: if_splits option.split)

lemma keeps_create_blob: "keeps cfg H (cominitSecurememoryEsysCreate cfg ectx prim digest)"
  unfolding cominitSecurememoryEsysCreate_def
  by (auto intro!: held_rules seq_calloc_block emits_intros seq [OF keeps_passphrase] inert [OF passphrase.footprint]
      simp: neutral_def split: if_splits option.split)

lemma keeps_save_blob: "keeps cfg H (cominitTpmSaveBlob pub priv)"
  unfolding cominitTpmSaveBlob_def
  by (auto intro!: held_rules emits_intros simp: neutral_def split: if_splits option.split)

lemma keeps_load_blob: "keeps cfg H (cominitTpmLoadBlob cfg)"
  unfolding cominitTpmLoadBlob_def
  by (auto intro!: held_rules emits_intros simp: neutral_def split: if_splits option.split)

lemma keeps_policy: "keeps cfg H (policy_pcr cfg args sess)"
  unfolding policy_pcr_def
  by (auto intro!: held_rules emits_intros simp: neutral_def split: if_splits sum.split)

lemma inert_tpm:
  "emits (\<lambda>_. True) (policy_pcr cfg args sess)" "emits (\<lambda>_. True) (cominitTpmSaveBlob pub priv)"
  "emits (\<lambda>_. True) (cominitTpmLoadBlob cfg)" "emits (\<lambda>_. True) (seal_session cfg ectx prim args)"
  "emits (\<lambda>_. True) (cominitTpmSeal cfg ectx args)" "emits (\<lambda>_. True) (unseal_session cfg ectx blob args)"
  "emits (\<lambda>_. True) (cominitTpmUnseal cfg ectx prim pb pv args)"
  unfolding policy_pcr_def cominitTpmSaveBlob_def cominitTpmLoadBlob_def seal_session_def cominitTpmSeal_def
    cominitTpmSavePrimaryHandle_def unseal_session_def cominitTpmUnseal_def
  by (auto intro!: emits_intros inert [OF create_blob.footprint] inert [OF unseal_key.footprint] split: option.split sum.split)

lemma keeps_seal: "keeps cfg H (cominitTpmSealBlob cfg ectx args)"
proof -
  have session: "keeps cfg H (seal_session cfg ectx prim args)" for prim
    unfolding seal_session_def cominitTpmSavePrimaryHandle_def
    by (auto intro!: held_rules emits_intros seq [OF keeps_policy] seq [OF keeps_create_blob] inert_tpm
        inert [OF create_blob.footprint] simp: neutral_def split: if_splits option.split)
  have "keeps cfg H (cominitTpmSeal cfg ectx args)"
    unfolding cominitTpmSeal_def
    by (auto intro!: held_rules emits_intros session inert_tpm simp: neutral_def split: if_splits)
  then show ?thesis
    unfolding cominitTpmSealBlob_def
    by (auto intro!: held_rules emits_intros inert_tpm seq [where m = "cominitTpmSeal cfg ectx args"] keeps_save_blob simp: neutral_def)
qed

lemma keeps_add_key: "keeps cfg H (cominitKeyringAddUserKey d k n)"
  by (rule keeps_events [OF add_key.footprint]) (auto simp: key_event_def neutral_def split: call.splits)

lemma keeps_unseal: "keeps cfg H (cominitTpmUnsealBlob cfg ectx args)"
proof -
  have key: "keeps cfg H (cominitSecurememoryEsysUnseal cfg ectx blob sess)" for blob sess
    unfolding cominitSecurememoryEsysUnseal_def
    by (auto intro!: held_rules emits_intros seq [OF keeps_add_key] inert [OF add_key.footprint] simp: neutral_def split: if_splits option.split)
  have session: "keeps cfg H (unseal_session cfg ectx blob args)" for blob
    unfolding unseal_session_def
    by (auto intro!: held_rules emits_intros seq [OF keeps_policy] seq [OF key] inert_tpm
        inert [OF unseal_key.footprint] simp: neutral_def split: if_splits option.split)
  have unseal: "keeps cfg H (cominitTpmUnseal cfg ectx prim pub priv args)" for prim pub priv
    unfolding cominitTpmUnseal_def
    by (auto intro!: held_rules emits_intros seq [OF session] inert_tpm session simp: neutral_def split: if_splits)
  show ?thesis
    unfolding cominitTpmUnsealBlob_def cominitTpmLoadPrimaryHandle_def
    by (auto intro!: held_rules emits_intros seq [OF keeps_load_blob] inert_tpm unseal simp: neutral_def split: if_splits)
qed

text \<open>Programs.\<close>
lemma sim_execve: "\<forall>x \<in># H. may_hold cfg argv x \<Longrightarrow> keeps cfg H (execve path argv)"
proof -
  assume h: "\<forall>x \<in># H. may_hold cfg argv x"
  have "holds_step cfg H [(Proc (Execve path argv), r)] H" for r
    using holds_step.call [of "(Proc (Execve path argv), r)" H cfg] h by auto
  then have "keeps cfg H (sys (Proc (Execve path argv)))"
    by (intro sim_sys) (blast intro: steps_one [where S = "holds_step cfg"])
  then show ?thesis
    unfolding execve_def by (rule seq) (auto intro!: emits_intros sim_structure seq_halt)
qed

text \<open>What the children of cominit inherit.\<close>
definition child_ok :: "config \<Rightarrow> resource multiset \<Rightarrow> bool" where
  "child_ok cfg H \<longleftrightarrow> (\<forall>x \<in># H. x = File_stream \<and> fake_hsm cfg \<or> x = Memory)"

lemma sim_child:
  assumes "child_ok cfg H" and "argv \<noteq> [''/sbin/init'']" "argv \<noteq> [''/bin/sh'']" and "\<And>a. emits (\<lambda>_. True) (f a)"
  shows "simulates (holds_step cfg) H (State_Monad.bind (child_exec path argv) f) Q"
proof -
  have "simulates (holds_step cfg) H (child_exec path argv) (\<lambda>_ _. False)"
    unfolding child_exec_def using assms
    by (intro seq [OF sim_execve] emits_intros sim_halt) (auto simp: may_hold_def child_ok_def)
  then show ?thesis using assms(4) by (rule sim_bind) simp
qed

lemma inert_child: "emits (\<lambda>_. True) (child_exec path argv)"
  unfolding child_exec_def by (auto intro!: emits_intros)

lemma keeps_spawn:
  assumes "child_ok cfg H" and "Suc 0 < length argv"
  shows "keeps cfg H (cominitSubprocessSpawn path (Some argv) envp)"
  using assms unfolding cominitSubprocessSpawn_def
  by (auto intro!: held_rules emits_intros sim_child inert_child simp: neutral_def split: if_splits option.split)

lemma keeps_spawn_write:
  assumes "child_ok cfg H" and "Suc 0 < length argv"
  shows "keeps cfg H (cominitSubprocessSpawnAndWrite path (Some argv) envp d n)"
  using assms unfolding cominitSubprocessSpawnAndWrite_def
  by (auto intro!: held_rules emits_intros sim_child inert_child simp: neutral_def split: if_splits option.split)

text \<open>Secure storage.\<close>
lemma keeps_luks:
  assumes "child_ok cfg H"
  shows "keeps cfg H (cominitCryptsetupCreateLuksVolume cfg dev pw n)" "keeps cfg H (cominitCryptsetupOpenLuksVolume cfg dev)"
    "keeps cfg H (cominitCryptsetupAddToken cfg dev)" "keeps cfg H (cominitTpmFormatSecureStorage cfg)"
  using assms unfolding cominitCryptsetupCreateLuksVolume_def cominitCryptsetupOpenLuksVolume_def
    cominitCryptsetupAddToken_def cominitTpmFormatSecureStorage_def
  by (auto intro!: sim_structure keeps_spawn keeps_spawn_write simp: mkfs_argv_def split: option.split)

lemma inert_luks:
  "emits (\<lambda>_. True) (cominitCryptsetupCreateLuksVolume cfg (Some d) pw n)"
  "emits (\<lambda>_. True) (cominitCryptsetupOpenLuksVolume cfg (Some d))"
  "emits (\<lambda>_. True) (cominitCryptsetupAddToken cfg (Some d))" "emits (\<lambda>_. True) (cominitTpmFormatSecureStorage cfg)"
  "emits (\<lambda>_. True) (luks_with_key cfg d b)"
  unfolding cominitTpmFormatSecureStorage_def luks_with_key_def
  by (auto intro!: emits_intros inert [OF luks_format.footprint] inert [OF luks_open.footprint]
      inert [OF add_token.footprint] inert [OF spawn.footprint] inert [OF get_key.footprint])

lemma keeps_create_luks:
  assumes "child_ok cfg H"
  shows "keeps cfg H (cominitSecurememoryCreateLuksVolume cfg dev)"
proof -
  have ok: "child_ok cfg (add_mset Memory H)" using assms by (simp add: child_ok_def)
  have get: "keeps cfg K (cominitKeyringGetKey b n d)" for K b n d
    by (rule keeps_events [OF get_key.footprint]) (auto simp: key_event_def neutral_def split: call.splits)
  have "keeps cfg (add_mset Memory H) (luks_with_key cfg d b)" for d b
    unfolding luks_with_key_def
    by (auto intro!: held_rules emits_intros seq [OF get] seq [OF keeps_luks(1) [OF ok]] inert_luks
        inert [OF get_key.footprint] simp: neutral_def split: if_splits)
  then show ?thesis
    unfolding cominitSecurememoryCreateLuksVolume_def
    by (auto intro!: held_rules acquire [where c = "Mem (Calloc n)" for n] emits_intros seq [where m = "luks_with_key cfg d b" for d b]
        inert_luks simp: neutral_def split: if_splits option.split)
qed

lemma keeps_storage:
  assumes "child_ok cfg H"
  shows "keeps cfg H (cominitTpmSetupSecureStorage cfg args first)"
  unfolding cominitTpmSetupSecureStorage_def
  by (auto intro!: sim_structure seq [OF keeps_create_luks [OF assms]] seq [OF keeps_luks(2) [OF assms]]
      seq [OF keeps_luks(3) [OF assms]] keeps_luks [OF assms] emits_intros inert_luks inert [OF create_luks.footprint])

lemma neutral_mkdir: "keeps cfg H (cominitMkdir d mode)"
proof -
  have "emits (\<lambda>e. (\<exists>p m. fst e = Fs (Mkdir p m)) \<or> (\<exists>p. fst e = Fs (Stat p))) (mkdir_loop m cur ts)" for m cur ts
    by (induction ts arbitrary: cur) (auto intro!: emits_intros)
  then have "emits (\<lambda>e. (\<exists>p m. fst e = Fs (Mkdir p m)) \<or> (\<exists>p. fst e = Fs (Stat p))) (cominitMkdir d mode)"
    unfolding cominitMkdir_def by (auto intro!: emits_intros)
  then show ?thesis by (rule keeps_events) (auto simp: neutral_def)
qed

lemma keeps_mount_storage: "keeps cfg H (cominitTpmMountSecureStorage cfg')"
  unfolding cominitTpmMountSecureStorage_def
  by (auto intro!: held_rules emits_intros seq [OF neutral_mkdir] inert [OF emits_mkdir] simp: neutral_def)

lemma keeps_protect:
  assumes "child_ok cfg H"
  shows "keeps cfg H (cominitTpmProtectData cfg ctx args)"
proof -
  have blob: "keeps cfg H (cominitTpmSetupBlob args)"
    unfolding cominitTpmSetupBlob_def
    by (auto intro!: held_rules emits_intros seq [OF neutral_mkdir] inert [OF emits_mkdir] simp: neutral_def)
  have "keeps cfg H (protect_blob cfg ectx args b)" for ectx b
    unfolding protect_blob_def
    by (cases b) (auto intro!: sim_structure emits_intros seq [OF keeps_seal] seq [OF keeps_unseal] seq_if
        seq [OF keeps_storage [OF assms]] keeps_unseal inert [OF emits_setup_storage] inert [OF emits_unseal_blob] inert [OF emits_seal_blob])
  then show ?thesis
    unfolding cominitTpmProtectData_def cominitTpmUnmountBlob_def
    by (auto intro!: seq [OF blob] seq [where m = "protect_blob cfg e args b" for e b] seq_run sim_structure emits_intros
        inert [OF emits_protect_blob] simp: neutral_def)
qed

text \<open>Waiting and discovery.\<close>
lemma keeps_get_fuel: "keeps cfg H get_fuel"
  by (rule keeps_events [OF emits_get_fuel [of neutral]])

lemma inert_devices: "emits (\<lambda>_. True) (devices_loop n r disk guid name sz)"
  by (rule inert [OF emits_devices_loop])

lemma inert_on_disk: "emits (\<lambda>_. True) (cominitAutomountFindPartitionOnDisk (Some disk) guid name sz)"
  by (rule inert [OF emits_find_on_disk])

lemma keeps_devices: "keeps cfg H (devices_loop n r disk guid name sz)"
proof (induction n arbitrary: r disk name)
  case (Suc n)
  show ?case
    by (auto intro!: held_rules emits_intros Suc seq [OF keeps_find_gpt] seq [OF keeps_find_on_disk] inert_devices inert_on_disk
        inert [OF find_gpt.footprint] simp: neutral_def)
qed (auto intro!: held_rules emits_intros)

lemma keeps_find_partition: "keeps cfg H (cominitAutomountFindPartition disk guid name sz)"
  unfolding cominitAutomountFindPartition_def
  by (auto intro!: held_rules emits_intros seq [OF keeps_get_fuel] seq [OF keeps_devices] inert_devices
      simp: neutral_def split: if_splits option.split)

lemma keeps_sleep: "keeps cfg H (cominitMicroSleep m)"
proof -
  let ?K = "\<lambda>e. fst e = Proc Clock_gettime \<or> (\<exists>s n. fst e = Proc (Nanosleep s n))"
  have loop: "emits ?K (sleep_loop n t)" for n t by (induction n) (auto intro!: emits_intros)
  have "emits ?K (cominitMicroSleep m)" unfolding cominitMicroSleep_def by (auto intro!: emits_intros loop)
  then show ?thesis by (rule keeps_events) (auto simp: neutral_def)
qed

lemma keeps_discover: "keeps cfg H (cominitDiscoverRootfs a m d)"
  unfolding cominitDiscoverRootfs_def
  by (auto intro!: held_rules emits_intros seq [OF keeps_find_partition] inert [OF find_partition.footprint]
      simp: neutral_def split: option.split)

lemma keeps_discover_loop: "keeps cfg H (discover_loop n args meta disk)"
  by (induction n arbitrary: meta disk)
    (auto intro!: held_rules emits_intros seq [OF keeps_discover] seq [OF keeps_sleep] inert [OF emits_discover]
      inert [OF emits_discover_loop] inert [OF emits_sleep])

text \<open>The HSM emulation leaves its key files open.\<close>
definition exec_ok :: "config \<Rightarrow> resource multiset \<Rightarrow> bool" where
  "exec_ok cfg H \<longleftrightarrow> (\<forall>x \<in># H. x = File_stream \<and> fake_hsm cfg)"

lemma exec_child: "exec_ok cfg H \<Longrightarrow> child_ok cfg H"
  by (auto simp: exec_ok_def child_ok_def)

lemma sim_enrol:
  assumes "exec_ok cfg H" and "fake_hsm cfg"
  shows "simulates (holds_step cfg) H (fake_hsm_enrol cfg d) (\<lambda>_ q. exec_ok cfg q)"
  unfolding fake_hsm_enrol_def using assms
  by (auto intro!: held_rules emits_intros sim_bind [OF keeps_add_key] inert [OF add_key.footprint]
      simp: neutral_def exec_ok_def split: if_splits)

lemma sim_enrol_loop:
  "exec_ok cfg H \<Longrightarrow> fake_hsm cfg \<Longrightarrow> simulates (holds_step cfg) H (fake_hsm_loop cfg ds) (\<lambda>_ q. exec_ok cfg q)"
proof (induction ds arbitrary: H)
  case (Cons d ds)
  then show ?case
    by (auto intro!: sim_bind [OF sim_enrol] sim_structure emits_intros inert [OF emits_fake_hsm_loop])
qed (simp add: sim_return)

section \<open>The whole program\<close>

text \<open>Steps that make neutral calls only.\<close>
lemma keeps_sysfiles:
  "keeps cfg H cominitSetupSysfiles" "keeps cfg H cominitSetupSysSelinuxfiles" "keeps cfg H cominitCleanupSysfiles"
  "keeps cfg H cominitCleanupSelinuxfiles" "keeps cfg H cominitSwitchIntoRootfs"
proof -
  have "sysfiles_event e \<Longrightarrow> neutral e" "switch_event e \<Longrightarrow> neutral e" for e
    by (cases e rule: acquired.cases; cases e rule: given_back.cases;
        auto simp: neutral_def sysfiles_event_def switch_event_def nftw_event_def)+
  then show "keeps cfg H cominitSetupSysfiles" "keeps cfg H cominitSetupSysSelinuxfiles" "keeps cfg H cominitCleanupSysfiles"
    "keeps cfg H cominitCleanupSelinuxfiles" "keeps cfg H cominitSwitchIntoRootfs"
    by (auto intro: keeps_events [OF sysfiles.footprint] keeps_events [OF selinuxfiles.footprint]
        keeps_events [OF cleanup_sys.footprint] keeps_events [OF cleanup_selinux.footprint] keeps_events [OF switch_root.footprint])
qed

lemma keeps_tpm_context:
  "keeps cfg H (cominitInitTpm ctx)" "keeps cfg H (cominitTpmExtendPCR cfg' ctx k pcr)" "keeps cfg H (cominitDeleteTpm ctx)"
proof -
  let ?K = "\<lambda>e. (\<exists>t. fst e = Tpm t) \<or> (\<exists>p. fst e = Pk p)"
  have digest: "emits ?K (cominitCreateSHA256DigestfromKeyfile f d n)" for f d n
    by (rule emits_mono [OF key_digest.footprint]) (auto simp: pk_event_def split: call.splits)
  have "emits ?K (cominitInitTpm ctx)" "emits ?K (cominitTpmExtendPCR cfg' ctx k pcr)" "emits ?K (cominitDeleteTpm ctx)"
    unfolding cominitInitTpm_def cominitTpmSelftest_def cominitTpmExtendPCR_def cominitDeleteTpm_def
    by (auto split: option.split intro!: emits_intros digest)
  then show "keeps cfg H (cominitInitTpm ctx)" "keeps cfg H (cominitTpmExtendPCR cfg' ctx k pcr)" "keeps cfg H (cominitDeleteTpm ctx)"
    by (auto elim!: keeps_events simp: neutral_def)
qed

lemma keeps_rootfs: "keeps cfg H (cominitSetupRootfs cfg (Some m))"
proof -
  have dir: "keeps cfg H (mkdir_exist_ok p n)" for p n
    unfolding mkdir_exist_ok_def by (auto intro!: seq_sys sim_return emits_intros simp: neutral_def)
  have "keeps cfg H (mount_newroot k)" for k
    unfolding mount_newroot_def fail_if_minus1_def
    by (auto intro!: seq [OF dir] held_rules emits_intros simp: neutral_def)
  then show ?thesis
    unfolding cominitSetupRootfs_def
    by (auto intro!: seq [OF keeps_dm] seq [where m = "mount_newroot k" for k] seq_if sim_structure emits_intros keeps_dm
        inert [OF mount_root.footprint] inert [OF setup_dm.footprint])
qed

lemma keeps_selinux_setup: "keeps cfg H (selinux_setup cfg args)"
proof -
  have "emits (\<lambda>_. True) (cominitLoadSelinuxPolicy p)" "emits (\<lambda>_. True) (cominitSetSelinuxMode n)" for p n
    unfolding cominitLoadSelinuxPolicy_def cominitSetSelinuxMode_def by (auto intro!: emits_intros)
  then show ?thesis
    unfolding selinux_setup_def
    by (auto intro!: seq [OF keeps_sysfiles(2)] seq [OF keeps_selinux] seq [OF keeps_mode] sim_structure emits_intros)
qed

lemma keeps_tpm_block:
  assumes "child_ok cfg H"
  shows "keeps cfg H (find_secure_storage args disk)" "keeps cfg H (tpm_block cfg args)"
proof -
  show "keeps cfg H (find_secure_storage args disk)"
    unfolding find_secure_storage_def
    by (auto intro!: sim_structure seq [OF keeps_find_on_disk] seq [OF keeps_find_partition] emits_intros)
  have ends: "emits (\<lambda>_. True) (cominitInitTpm ctx)" "emits (\<lambda>_. True) (cominitTpmExtendPCR cfg ctx k pcr)"
    "emits (\<lambda>_. True) (cominitDeleteTpm ctx)" for ctx k pcr
    by (rule inert [OF init_tpm.footprint] inert [OF extend_pcr.footprint] inert [OF delete_tpm.footprint])+
  show "keeps cfg H (tpm_block cfg args)"
    unfolding tpm_block_def
    by (auto intro!: sim_structure seq [OF keeps_tpm_context(1)] seq [OF keeps_tpm_context(2)] seq [OF keeps_tpm_context(3)]
        seq [OF keeps_protect [OF assms]] seq_if emits_intros ends inert [OF protect_data.footprint] split: cominitTpmState_t.split)
qed

lemma inert_boot:
  "emits (\<lambda>_. True) (find_secure_storage args disk)" "emits (\<lambda>_. True) (tpm_block cfg args)"
  "emits (\<lambda>_. True) (enter_rootfs cfg args meta)" "emits (\<lambda>_. True) (boot_verified cfg args meta disk)"
  "emits (\<lambda>_. True) (cominitKeyringInitFakeHsm cfg)" "emits (\<lambda>_. True) (discover_loop n args meta gdisk)"
  "emits (\<lambda>_. True) (cominitLoadVerifyMetadata cfg meta key)" "emits (\<lambda>_. True) (cominitSetupRootfs cfg (Some meta))"
  "emits (\<lambda>_. True) (selinux_setup cfg args)" "emits (\<lambda>_. True) cominitCleanupSysfiles"
  "emits (\<lambda>_. True) cominitCleanupSelinuxfiles" "emits (\<lambda>_. True) (cominitTpmMountSecureStorage cfg)"
  "emits (\<lambda>_. True) switch_and_exec" "emits (\<lambda>_. True) rescue"
  unfolding switch_and_exec_def rescue_def
  by (auto intro!: emits_intros inert [OF emits_find_storage] inert [OF emits_tpm_block] inert [OF emits_enter_rootfs]
      inert [OF emits_boot_verified] inert [OF fake_hsm.footprint] inert [OF emits_discover_loop] inert [OF load_metadata.footprint]
      inert [OF setup_rootfs.footprint] inert [OF selinux.footprint] inert [OF cleanup_sys.footprint]
      inert [OF cleanup_selinux.footprint] inert [OF mount_storage.footprint] inert [OF switch_root.footprint])

lemma keeps_exec:
  assumes "exec_ok cfg H"
  shows "keeps cfg H switch_and_exec" "keeps cfg H rescue"
  using assms unfolding switch_and_exec_def rescue_def
  by (auto intro!: seq [OF keeps_sysfiles(5)] seq [OF sim_execve] sim_structure emits_intros simp: may_hold_def exec_ok_def)

lemma keeps_enter:
  assumes "exec_ok cfg H"
  shows "keeps cfg H (enter_rootfs cfg args meta)"
  unfolding enter_rootfs_def
  by (auto intro!: seq [OF keeps_rootfs] seq [OF keeps_mount_storage] seq [OF keeps_selinux_setup] seq [OF keeps_sysfiles(3)]
      seq [OF keeps_sysfiles(4)] seq_if sim_structure emits_intros inert_boot keeps_exec [OF assms])

lemma keeps_verified:
  assumes "exec_ok cfg H"
  shows "keeps cfg H (boot_verified cfg args meta disk)"
proof -
  note storage = keeps_tpm_block [OF exec_child [OF assms]]
  show ?thesis
    unfolding boot_verified_def
    by (auto intro!: seq [OF storage(1)] seq [OF storage(2)] sim_structure emits_intros inert_boot keeps_enter [OF assms])
qed

lemma sim_holds_boot: "simulates (holds_step cfg) {#} (boot cfg args) (\<lambda>_ q. exec_ok cfg q)"
proof -
  define hsm where "hsm = (if fake_hsm cfg then do { _ \<leftarrow> cominitKeyringInitFakeHsm cfg; return () } else return ())"
  have "simulates (holds_step cfg) {#} (cominitKeyringInitFakeHsm cfg) (\<lambda>_ q. exec_ok cfg q)" if "fake_hsm cfg"
    unfolding cominitKeyringInitFakeHsm_def using that by (intro sim_enrol_loop) (auto simp: exec_ok_def)
  then have enrol: "simulates (holds_step cfg) {#} hsm (\<lambda>_ q. exec_ok cfg q)"
    unfolding hsm_def by (auto intro!: sim_bind emits_intros sim_return simp: exec_ok_def)
  have load: "simulates (holds_step cfg) H (do { (e, meta') \<leftarrow> cominitLoadVerifyMetadata cfg meta COMINIT_ROOTFS_KEY_LOCATION;
      if e = - 1 then return () else boot_verified cfg args meta' disk }) (\<lambda>_ q. exec_ok cfg q)" if "exec_ok cfg H" for H meta disk
    using that by (auto intro!: seq [OF keeps_load] sim_structure sim_mono [OF keeps_verified] emits_intros inert_boot)
  have inert_hsm: "emits (\<lambda>_. True) hsm" unfolding hsm_def by (auto intro!: emits_intros inert_boot)
  show ?thesis
    unfolding boot_def hsm_def [symmetric]
    by (auto intro!: seq [OF keeps_sysfiles(1)] sim_bind [OF enrol] seq [OF keeps_discover_loop] sim_structure load emits_intros
        inert_boot inert_hsm simp: exec_ok_def [of cfg "{#}"])
qed

lemma main_holds: "\<exists>H. steps (holds_step cfg) {#} (trace_of_main E n cfg argv log) H"
proof -
  have first: "keeps cfg {#} (run (Proc Setsid))" "keeps cfg {#} (run (Proc (Umask 0)))"
    "keeps cfg {#} (cominitPrintVersion cfg)" "keeps cfg {#} (cominitPrintUsage cfg)"
    unfolding cominitPrintVersion_def cominitPrintUsage_def
    by (auto intro!: keeps_run seq_run emits_intros simp: neutral_def)
  have "simulates (holds_step cfg) {#} (main cfg argv log) (\<lambda>_ _. True)"
    unfolding main_def
    by (auto intro!: sim_structure seq [OF first(1)] seq [OF first(2)] seq [OF first(3)] seq [OF first(4)] sim_bind [OF sim_holds_boot]
        sim_bind [OF keeps_exec(2)] emits_intros boot_inert inert_boot split: early_exit.split)
  moreover obtain a w' where "run_state (main cfg argv log) (start E n) = (a, w')" by fastforce
  ultimately show ?thesis unfolding trace_of_main_def by (fastforce dest: simulatesD)
qed

text \<open>What is held after a sequence of calls. \<^verbatim>\<open>open\<close> answers as it is documented to.\<close>
definition held :: "event list \<Rightarrow> resource multiset" where
  "held tr = foldl (\<lambda>H e. H - given_back e + acquired e) {#} tr"

definition open_documented :: "event list \<Rightarrow> bool" where
  "open_documented tr \<longleftrightarrow> (\<forall>(c, r) \<in> set tr. (\<forall>p fl. c = Fs (Open p fl) \<longrightarrow> - 1 \<le> rc r))"

text \<open>Only what is held is given back, and hardly anything is held when a program is started.\<close>
definition resources_kept :: "config \<Rightarrow> event list \<Rightarrow> bool" where
  "resources_kept cfg tr \<longleftrightarrow> (\<forall>before e after. tr = before @ e # after \<longrightarrow> open_documented before \<longrightarrow>
     given_back e \<subseteq># held before
     \<and> (\<forall>p argv. fst e = Proc (Execve p argv) \<longrightarrow> (\<forall>x \<in># held before. may_hold cfg argv x)))"

text \<open>C10: Resources are given back: in every run, a descriptor, stream, directory, mapping or piece of memory is
  given back only while it is held, so never twice, and nothing acquired is still held when the init
  or the rescue shell is started, on any path; a child inherits memory at most. The only exception are
  the key files of the HSM emulation, which are never closed.\<close>
theorem resources_released: "resources_kept cfg (trace_of_main E n cfg argv log)"
  unfolding resources_kept_def
proof (intro allI impI)
  fix before e after
  assume tr: "trace_of_main E n cfg argv log = before @ e # after" and doc: "open_documented before"
  let ?I = "\<lambda>H h. open_documented h \<longrightarrow> H = held h"
  obtain H where run: "steps (holds_step cfg) {#} (trace_of_main E n cfg argv log) H" using main_holds by blast
  have keep: "?I q (h @ x)" if "holds_step cfg p x q" "?I p h" for p x q h
    using that by cases (auto simp: held_def open_documented_def)
  have "\<exists>p us vs q b. holds_step cfg p (us @ e # vs) q \<and> before = b @ us \<and> ?I p ([] @ b)"
    by (rule steps_event [where I = ?I, OF run _ keep tr]) (auto simp: held_def)
  then obtain p us vs q b where step: "holds_step cfg p (us @ e # vs) q" and b: "before = b @ us" "?I p b" by auto
  from b doc have "us = [] \<Longrightarrow> p = held before" by simp
  with step show "given_back e \<subseteq># held before
     \<and> (\<forall>p argv. fst e = Proc (Execve p argv) \<longrightarrow> (\<forall>x \<in># held before. may_hold cfg argv x))"
    by cases (auto simp: append_eq_Cons_conv)
qed

end
