(* ===== verification/Sealing.thy ===== *)
theory Sealing
  imports Tpm
begin

unbundle bit_operations_syntax

text \<open>
  Properties of the TPM part of src/tpm.c: which PCRs the policy of the sealed key covers, what an
  unsealed key rests on, when the secure storage is formatted, and what happens when the TPM refuses
  to create the sealed object.
\<close>

section \<open>The PCRs of the policy\<close>

definition sealed_pcrs :: "cominitCliArgs_t \<Rightarrow> nat set" where
  "sealed_pcrs args = unat ` set (take (pcrSealCount args) (pcrSeal args))"

lemma select_pcr_exact:
  "if \<forall>p \<in> sealed_pcrs args. p < 8 * n
   then \<exists>sel. cominitTpmSelectPcr args (replicate n 0) = Inr sel \<and> length sel = n
     \<and> (\<forall>i < 8 * n. bit (sel ! (i div 8)) (i mod 8) \<longleftrightarrow> i \<in> sealed_pcrs args)
   else cominitTpmSelectPcr args (replicate n 0) = Inl OutOfBounds"
proof (cases "\<forall>p \<in> sealed_pcrs args. p < 8 * n")
  case True
  then obtain sel where sel: "cominitTpmSelectPcr args (replicate n 0) = Inr sel"
    using select_pcr_in_bounds [of "take (pcrSealCount args) (pcrSeal args)" "replicate n 0"]
    by (auto simp: cominitTpmSelectPcr_def sealed_pcrs_def)
  have zero: "\<not> bit (replicate n (0 :: byte) ! (i div 8)) (i mod 8)" if "i < 8 * n" for i
  proof -
    from that have "i div 8 < n" by (simp add: less_mult_imp_div_less mult.commute)
    then show ?thesis by simp
  qed
  from select_pcr_bits [OF sel [unfolded cominitTpmSelectPcr_def]] zero True sel show ?thesis
    by (auto simp: sealed_pcrs_def)
next
  case False
  then show ?thesis
    using select_pcr_out_of_bounds [where sel = "replicate n 0"]
    by (auto simp: cominitTpmSelectPcr_def sealed_pcrs_def not_less)
qed

text \<open>C24: The PCR selection is exact as long as its array holds the indexes: bit \<open>i\<close> of the array is set if
  and only if PCR \<open>i\<close> was asked for. An index beyond the array makes the code write out of bounds.\<close>
theorem pcr_selection:
  "if \<forall>p \<in> sealed_pcrs args. p < 8 * n
   then \<exists>sel. cominitTpmSelectPcr args (replicate n 0) = Inr sel \<and> length sel = n
     \<and> (\<forall>i < 8 * n. bit (sel ! (i div 8)) (i mod 8) \<longleftrightarrow> i \<in> sealed_pcrs args)
   else cominitTpmSelectPcr args (replicate n 0) = Inl OutOfBounds"
  by (rule select_pcr_exact)

definition seal_args :: "u64 list \<Rightarrow> cominitCliArgs_t" where
  "seal_args pcrs = (argCtx_init default_config)\<lparr>pcrSeal := pcrs, pcrSealCount := length pcrs\<rparr>"

lemma sealed_seal_args: "sealed_pcrs (seal_args pcrs) = unat ` set pcrs"
  by (simp add: sealed_pcrs_def seal_args_def)

theorem pcr_selection_witness:
  "(\<exists>sel. cominitTpmSelectPcr (seal_args [4, 7, 23]) (replicate 4 0) = Inr sel \<and> bit (sel ! 2) 7)
   \<and> cominitTpmSelectPcr (seal_args [4, 32]) (replicate 4 0) = Inl OutOfBounds"
  using pcr_selection [of "seal_args [4, 7, 23]" 4] pcr_selection [of "seal_args [4, 32]" 4]
  by (auto simp: sealed_seal_args dest: spec [of _ 23])

text \<open>C35: Only PCRs 0 to 23 are protected: two selections that agree on these give the same policy call,
  whatever else they select. The array is filled for all PCRs, but the policy is given its first
  three bytes.\<close>
theorem policy_ignores_high_pcrs:
  assumes "\<forall>p \<in> sealed_pcrs a \<union> sealed_pcrs b. p < 8 * pcr_select_max cfg"
    and "\<forall>p < 24. p \<in> sealed_pcrs a \<longleftrightarrow> p \<in> sealed_pcrs b"
  shows "policy_pcr cfg a sess = policy_pcr cfg b sess"
proof -
  let ?n = "pcr_select_max cfg"
  obtain x y where x: "cominitTpmSelectPcr a (replicate ?n 0) = Inr x" "length x = ?n"
      "\<And>i. i < 8 * ?n \<Longrightarrow> bit (x ! (i div 8)) (i mod 8) \<longleftrightarrow> i \<in> sealed_pcrs a"
    and y: "cominitTpmSelectPcr b (replicate ?n 0) = Inr y" "length y = ?n"
      "\<And>i. i < 8 * ?n \<Longrightarrow> bit (y ! (i div 8)) (i mod 8) \<longleftrightarrow> i \<in> sealed_pcrs b"
    using select_pcr_exact [of a ?n] select_pcr_exact [of b ?n] assms(1) by auto
  have "take 3 x = take 3 y"
  proof (rule nth_equalityI)
    fix j assume "j < length (take 3 x)"
    then have j: "j < 3" "j < ?n" using x(2) by auto
    have "x ! j = y ! j"
    proof (rule bit_word_eqI)
      fix k assume "k < LENGTH(8)"
      then have "k < 8" by simp
      with j have "8 * j + k < 24" "8 * j + k < 8 * ?n" "(8 * j + k) div 8 = j" "(8 * j + k) mod 8 = k" by auto
      with x(3) [of "8 * j + k"] y(3) [of "8 * j + k"] assms(2) show "bit (x ! j) k \<longleftrightarrow> bit (y ! j) k" by simp
    qed
    then show "take 3 x ! j = take 3 y ! j" using j by simp
  qed (simp add: x(2) y(2))
  then show ?thesis by (simp add: policy_pcr_def x(1) y(1))
qed

theorem policy_ignores_high_pcrs_witness:
  "policy_pcr default_config (seal_args [30]) 7 = policy_pcr default_config (seal_args []) 7"
  using policy_ignores_high_pcrs [of "seal_args [30]" "seal_args []" default_config 7]
  by (simp add: sealed_seal_args default_config_def)

text \<open>A first call, then a session, then undefined behaviour, if both succeed.\<close>
definition session_faults :: "call \<Rightarrow> session_type \<Rightarrow> event list \<Rightarrow> status \<Rightarrow> bool" where
  "session_faults first ty ext st \<longleftrightarrow> (case ext of
      [] \<Rightarrow> False
    | (c, r) # rest \<Rightarrow> c = first \<and> (rc r = 0 \<longrightarrow> (case rest of
          [] \<Rightarrow> False
        | (c', s) # rest' \<Rightarrow> c' = Tpm (Esys_StartAuthSession ty)
            \<and> (rc s = 0 \<longrightarrow> rest' = [] \<and> st = Undefined OutOfBounds))))"

lemma seal_faults:
  assumes "cominitTpmSelectPcr args (replicate (pcr_select_max cfg) 0) = Inl OutOfBounds" and "status w = Running"
  shows "wp (cominitTpmSealBlob cfg ectx args) (\<lambda>_ w'. \<exists>ext. trace w' = trace w @ ext
     \<and> session_faults (Tpm (Esys_CreatePrimary TPM2_ALG_RSA primary_attributes)) TPM2_SE_TRIAL ext (status w')) w"
  unfolding cominitTpmSealBlob_def cominitTpmSeal_def seal_session_def policy_pcr_def assms(1) sum.case
  using assms(2) by (simp add: wp_simps Let_def session_faults_def split_def)

lemma unseal_faults:
  assumes "cominitTpmSelectPcr args (replicate (pcr_select_max cfg) 0) = Inl OutOfBounds" and "status w = Running"
  shows "wp (cominitTpmUnseal cfg ectx prim pub priv args) (\<lambda>_ w'. \<exists>ext. trace w' = trace w @ ext
     \<and> session_faults (Tpm (Esys_Load prim priv pub)) TPM2_SE_POLICY ext (status w')) w"
  unfolding cominitTpmUnseal_def unseal_session_def policy_pcr_def assms(1) sum.case
  using assms(2) by (simp add: wp_simps Let_def session_faults_def split_def)

text \<open>C36: The option parser does not protect the selection: it accepts every index below its own limit, and one
  that lies beyond the selection array makes sealing and unsealing write out of bounds. Both go as far as the
  session (after the primary key has been created, or the object loaded); if these calls succeed, the write is what
  follows, before the policy is computed, so that the TPM neither creates nor unseals an object.\<close>
theorem accepted_index_overflows:
  assumes "8 * pcr_select_max cfg \<le> p" and "p < pcr_count cfg" and "pcr_count cfg \<le> 2 ^ 64"
    and "length (pcrSeal a) = pcr_count cfg" and "status w = Running"
  shows "\<exists>args. cominitTpmParsePcrIndexes cfg (Some a) (Some (udec p)) = Inr (EXIT_SUCCESS, args)
     \<and> wp (cominitTpmSealBlob cfg ectx args) (\<lambda>_ w'. \<exists>ext. trace w' = trace w @ ext
          \<and> session_faults (Tpm (Esys_CreatePrimary TPM2_ALG_RSA primary_attributes)) TPM2_SE_TRIAL ext (status w')) w
     \<and> wp (cominitTpmUnseal cfg ectx prim pub priv args) (\<lambda>_ w'. \<exists>ext. trace w' = trace w @ ext
          \<and> session_faults (Tpm (Esys_Load prim priv pub)) TPM2_SE_POLICY ext (status w')) w"
proof -
  let ?args = "a\<lparr>pcrSeal := of_nat p # drop 1 (pcrSeal a), pcrSealCount := 1\<rparr>"
  have read: "cominitTpmParsePcrIndexes cfg (Some a) (Some (udec p)) = Inr (EXIT_SUCCESS, ?args)"
    using pcr_loop_reads [of "[p]" cfg "[]" "pcrSeal a"] assms by (simp add: cominitTpmParsePcrIndexes_def)
  have "p < 2 ^ 64" using assms(2,3) by simp
  then have "sealed_pcrs ?args = {p}" by (simp add: sealed_pcrs_def unat_of_nat)
  with assms(1) have "\<not> (\<forall>p \<in> sealed_pcrs ?args. p < 8 * pcr_select_max cfg)" by simp
  then have "cominitTpmSelectPcr ?args (replicate (pcr_select_max cfg) 0) = Inl OutOfBounds"
    using select_pcr_exact [of ?args "pcr_select_max cfg"] by (simp only: if_False)
  with read seal_faults unseal_faults assms(5) show ?thesis by blast
qed

theorem accepted_index_overflows_witness:
  "\<exists>args. cominitTpmParsePcrIndexes default_config (Some (argCtx_init default_config)) (Some ''40'')
       = Inr (EXIT_SUCCESS, args)
     \<and> wp (cominitTpmSealBlob default_config (Some 1) args) (\<lambda>_ w'.
          session_faults (Tpm (Esys_CreatePrimary TPM2_ALG_RSA primary_attributes)) TPM2_SE_TRIAL (trace w') (status w'))
         (start (\<lambda>_ _. ok) 0)
     \<and> wp (cominitTpmUnseal default_config (Some 1) 5 [1] [2] args) (\<lambda>_ w'.
          session_faults (Tpm (Esys_Load 5 [2] [1])) TPM2_SE_POLICY (trace w') (status w')) (start (\<lambda>_ _. ok) 0)"
proof -
  have "udec 40 = ''40''" by (simp add: udec.simps hex_digit_def)
  moreover have "8 * pcr_select_max default_config \<le> 40" "40 < pcr_count default_config" "pcr_count default_config \<le> 2 ^ 64"
    "length (pcrSeal (argCtx_init default_config)) = pcr_count default_config"
    by (simp_all add: default_config_def argCtx_init_def)
  ultimately show ?thesis
    using accepted_index_overflows [of default_config 40 "argCtx_init default_config" "start (\<lambda>_ _. ok) 0" "Some 1" 5 "[1]" "[2]"]
    by simp
qed

section \<open>A machine with secure storage\<close>

definition storage_args :: cominitCliArgs_t where
  "storage_args = (seal_args [4])\<lparr>devNodeBlob := ''/dev/sda3'', devNodeCrypt := ''/dev/sda4''\<rparr>"

definition storage_ctx :: cominitTpmContext_t where
  "storage_ctx = \<lparr>esysCtx = To 1, tctiCtx = To 2\<rparr>"

text \<open>The blob partition holds a sealed key, or is empty; in the latter case the process is followed into
  the child of \<^verbatim>\<open>fork\<close>.\<close>
definition storage_env :: "bool \<Rightarrow> event list \<Rightarrow> call \<Rightarrow> reply" where
  "storage_env present h c = (case c of
      Stream (Fread n) \<Rightarrow> ok\<lparr>rc := int n\<rparr> | Stream _ \<Rightarrow> ok\<lparr>rc := 1\<rparr>
    | Fs (Access p) \<Rightarrow> (if present then ok else ok\<lparr>rc := - 1, err := ENOENT\<rparr>)
    | Mem (Calloc n) \<Rightarrow> ok\<lparr>rc := 1\<rparr> | Key (Keyctl_read k n) \<Rightarrow> ok\<lparr>rc := 1, bytes := [9]\<rparr>
    | Proc Fork \<Rightarrow> ok\<lparr>rc := (if present then 7 else 0)\<rparr> | Tpm (Esys_Unseal b s) \<Rightarrow> ok\<lparr>bytes := [9]\<rparr> | _ \<Rightarrow> ok)"

lemma storage_replies:
  "storage_env b h (Stream (Fread n)) = ok\<lparr>rc := int n\<rparr>" "storage_env b h (Stream (Fopen p m)) = ok\<lparr>rc := 1\<rparr>"
  "storage_env b h (Stream (Fgets n)) = ok\<lparr>rc := 1\<rparr>" "storage_env b h (Stream (Fwrite x)) = ok\<lparr>rc := 1\<rparr>"
  "storage_env b h (Stream Fclose) = ok\<lparr>rc := 1\<rparr>" "storage_env b h (Fs (Mkdir p n)) = ok" "storage_env b h (Fs (Stat p)) = ok"
  "storage_env b h (Fs (Mount p q ty fl)) = ok" "storage_env b h (Fs (Umount p)) = ok" "storage_env b h (Fs (Close fd)) = ok"
  "storage_env b h (Fs (Access p)) = (if b then ok else ok\<lparr>rc := - 1, err := ENOENT\<rparr>)"
  "storage_env b h (Mem (Calloc n)) = ok\<lparr>rc := 1\<rparr>" "storage_env b h (Mem (Mlock n)) = ok"
  "storage_env b h (Mem (Munlock x)) = ok" "storage_env b h (Mem (Free x)) = ok"
  "storage_env b h (Key (Keyctl_search p)) = ok" "storage_env b h (Key (Keyctl_read k n)) = ok\<lparr>rc := 1, bytes := [9]\<rparr>"
  "storage_env b h (Key (Add_key p x)) = ok" "storage_env b h (Pk q') = ok"
  "storage_env b h (Proc Pipe) = ok" "storage_env b h (Proc Fork) = ok\<lparr>rc := (if b then 7 else 0)\<rparr>"
  "storage_env b h (Proc (Waitpid k)) = ok" "storage_env b h (Proc (Dup2 k k')) = ok" "storage_env b h (Proc (Execve p a)) = ok"
  by (simp_all add: storage_env_def)

lemma storage_tpm_replies:
  "storage_env b h (Tpm (Esys_CreatePrimary x y)) = ok" "storage_env b h (Tpm (Esys_Create x1 x2 x3 x4 x5 x6)) = ok"
  "storage_env b h (Tpm (Esys_PolicyGetDigest s)) = ok" "storage_env b h (Tpm (Esys_EvictControl s)) = ok"
  "storage_env b h (Tpm Esys_TR_FromTPMPublic) = ok" "storage_env b h (Tpm (Esys_Load s x7 x8)) = ok"
  "storage_env b h (Tpm (Esys_StartAuthSession t)) = ok" "storage_env b h (Tpm (Esys_PolicyPCR s n sel)) = ok"
  "storage_env b h (Tpm (Esys_Unseal s s')) = ok\<lparr>bytes := [9]\<rparr>" "storage_env b h (Tpm (Esys_FlushContext s)) = ok"
  "storage_env b h (Tpm (Esys_Free fr)) = ok"
  by (simp_all add: storage_env_def)

lemma ok_simps: "rc ok = 0" "bytes ok = []" "val ok = 0" "val2 ok = 0" "bytes2 ok = []" "err ok = Eother"
  by (simp_all add: ok_def)

lemma child_succeeded_ok: "child_succeeded ok"
  by (simp add: child_succeeded_def wait_status_def WIFEXITED_def WEXITSTATUS_def ok_def)

lemma storage_args_simps:
  "devNodeBlob storage_args = ''/dev/sda3''" "devNodeCrypt storage_args = ''/dev/sda4''"
  "address (esysCtx storage_ctx) = Some 1" "COMINIT_PASSPHRASE_SIZE \<noteq> 0" "COMINIT_PASSPHRASE_SIZE > 0"
  by (simp_all add: storage_args_def storage_ctx_def lits)

lemmas storage_eval = wp_simps storage_replies storage_tpm_replies ok_simps child_succeeded_ok storage_args_simps

lemma storage_selection:
  "\<exists>sel. cominitTpmSelectPcr storage_args (replicate (pcr_select_max default_config) 0) = Inr sel"
  by (simp add: cominitTpmSelectPcr_def storage_args_def seal_args_def default_config_def)

lemma storage_mkdir:
  assumes "status w = Running" "env w = storage_env b"
  shows "wp (cominitMkdir d m) (\<lambda>a w'. status w' = Running \<and> env w' = storage_env b \<and> a = EXIT_SUCCESS
     \<and> (\<exists>ext. trace w' = trace w @ ext)) w"
proof -
  have "wp (mkdir_loop m cur ts) (\<lambda>a w'. status w' = Running \<and> env w' = storage_env b
      \<and> (\<exists>ext. trace w' = trace w @ ext)) w"
    if "status w = Running" "env w = storage_env b" for cur ts w
    using that
  proof (induction ts arbitrary: cur w)
    case (Cons t ts)
    then show ?case by (auto simp: storage_eval Let_def intro!: wp_mono [OF Cons.IH])
  qed (simp add: storage_eval)
  from this [OF assms] show ?thesis
    unfolding cominitMkdir_def wp_bind by (rule wp_mono) (auto simp: storage_eval)
qed

lemma storage_blob:
  "wp (cominitTpmSetupBlob storage_args) (\<lambda>s w'. status w' = Running \<and> env w' = storage_env b
     \<and> s = (if b then BlobExists else BlobIsEmpty)) (start (storage_env b) 0)"
  unfolding cominitTpmSetupBlob_def
  by (auto simp: storage_eval intro!: wp_mono [OF storage_mkdir])

lemmas storage_ops = protect_blob_def cominitTpmUnsealBlob_def cominitTpmUnseal_def unseal_session_def policy_pcr_def
  cominitTpmLoadBlob_def cominitTpmLoadPrimaryHandle_def cominitSecurememoryEsysUnseal_def
  cominitKeyringAddUserKey_def cominitTpmSetupSecureStorage_def

lemma storage_unsealed:
  "wp (cominitTpmProtectData default_config storage_ctx storage_args)
     (\<lambda>s w'. s = Unsealed \<and> status w' = Running) (start (storage_env True) 0)"
proof -
  have rest: "wp (protect_blob default_config (Some 1) storage_args BlobExists)
      (\<lambda>s w'. s = Unsealed \<and> status w' = Running) w" if "status w = Running" "env w = storage_env True" for w
    using that storage_selection unfolding storage_ops cominitCryptsetupOpenLuksVolume_def cominitSubprocessSpawn_def
    by (elim exE) (simp add: storage_eval Let_def split_def)
  show ?thesis
    unfolding cominitTpmProtectData_def cominitTpmUnmountBlob_def wp_bind storage_args_simps
    by (auto simp: wp_simps intro!: wp_mono [OF storage_blob] wp_mono [OF rest])
qed

lemma storage_formatted:
  "wp (cominitTpmProtectData default_config storage_ctx storage_args)
     (\<lambda>s w'. \<exists>e \<in> set (trace w'). formats default_config storage_args e) (start (storage_env False) 0)"
proof -
  have sealing: "wp (cominitTpmSealBlob default_config (Some 1) storage_args)
      (\<lambda>s w'. s = Sealed \<and> status w' = Running \<and> env w' = storage_env False) w"
    if "status w = Running" "env w = storage_env False" for w
    using that storage_selection
    unfolding cominitTpmSealBlob_def cominitTpmSeal_def seal_session_def policy_pcr_def
      cominitSecurememoryEsysCreate_def cominitCryptoCreatePassphrase_def cominitCryptoCreateUniqueString_def
      cominitTpmSavePrimaryHandle_def cominitTpmSaveBlob_def
    by (elim exE) (simp add: storage_eval Let_def split_def)
  have unseal: "wp (cominitTpmUnsealBlob default_config (Some 1) storage_args)
      (\<lambda>s w'. s = Unsealed \<and> status w' = Running \<and> env w' = storage_env False) w"
    if "status w = Running" "env w = storage_env False" for w
    using that storage_selection unfolding storage_ops
    by (elim exE) (simp add: storage_eval Let_def split_def)
  have luks: "wp (cominitTpmSetupSecureStorage default_config storage_args True)
      (\<lambda>r w'. (\<exists>e \<in> set (trace w'). formats default_config storage_args e) \<and> status w' \<noteq> Running) w"
    if "status w = Running" "env w = storage_env False" for w
    using that
    unfolding cominitTpmSetupSecureStorage_def cominitSecurememoryCreateLuksVolume_def luks_with_key_def
      cominitKeyringGetKey_def cominitCryptsetupCreateLuksVolume_def cominitSubprocessSpawnAndWrite_def
      child_exec_def execve_def cominitCryptsetupAddToken_def cominitSubprocessSpawn_def
    by (simp add: storage_eval Let_def split_def size_t_of_def formats_def lits)
  show ?thesis
    unfolding cominitTpmProtectData_def cominitTpmUnmountBlob_def wp_bind storage_args_simps protect_blob_def
    by (auto simp: wp_simps intro!: wp_mono [OF storage_blob] wp_mono [OF sealing] wp_mono [OF unseal] wp_mono [OF luks]; blast)
qed
section \<open>Unsealing\<close>

text \<open>C14: Protecting the data ends in one of the documented states and never in \<^verbatim>\<open>Sealed\<close>. The last call gives
  the blob partition back on every path, and \<^verbatim>\<open>Unsealed\<close> means that the policy over the selected PCRs
  was satisfied in a session, that the TPM unsealed the key in this very session, and that exactly
  this key was put into the keyring under the name cryptsetup looks for.\<close>
theorem protect_outcome:
  "wp (cominitTpmProtectData cfg ctx args) (\<lambda>s w'. s \<noteq> Sealed
     \<and> (status w' = Running \<longrightarrow> (\<exists>ext r. trace w' = trace w @ ext @ [(Fs (Umount COMINIT_TPM_MNT_PT), r)]))
     \<and> (s = Unsealed \<longrightarrow> (\<exists>ext. trace w' = trace w @ ext \<and> key_unsealed cfg args ext))) w"
  by (rule wpI) (auto dest: returnsD [OF protect_states] protect_unmounts protect_unsealed)

theorem protect_outcome_witness:
  "wp (cominitTpmProtectData default_config storage_ctx storage_args) (\<lambda>s w'. s = Unsealed
     \<and> key_unsealed default_config storage_args (trace w')
     \<and> (\<exists>r. last (trace w') = (Fs (Umount COMINIT_TPM_MNT_PT), r))) (start (storage_env True) 0)"
  using wp_conj [THEN iffD2, OF conjI, OF storage_unsealed
      protect_outcome [of default_config storage_ctx storage_args "start (storage_env True) 0"]]
  by (rule wp_mono) auto

text \<open>C15: Data are not destroyed: the LUKS volume and the filesystem of the secure storage are made anew only
  when the blob partition was mounted and reported not to contain a sealed key.\<close>
theorem formatted_only_when_empty:
  "wp (cominitTpmProtectData cfg ctx args) (\<lambda>s w'. \<forall>e \<in> set (trace w'). e \<notin> set (trace w) \<longrightarrow>
     formats cfg args e \<longrightarrow> (\<exists>r. (Fs (Access blob_path), r) \<in> set (trace w') \<and> rc r \<noteq> 0 \<and> err r = ENOENT)) w"
  by (rule wpI) (auto intro: protect_formats)

theorem formatted_only_when_empty_witness:
  "wp (cominitTpmProtectData default_config storage_ctx storage_args) (\<lambda>s w'.
     (\<exists>e \<in> set (trace w'). formats default_config storage_args e)
     \<and> (\<exists>r. (Fs (Access blob_path), r) \<in> set (trace w') \<and> err r = ENOENT)) (start (storage_env False) 0)"
  using wp_conj [THEN iffD2, OF conjI, OF storage_formatted
      formatted_only_when_empty [of default_config storage_ctx storage_args "start (storage_env False) 0"]]
  by (rule wp_mono) auto

section \<open>Sealing\<close>

text \<open>The successful creations of a sealed object, and the successful openings of the blob for writing.\<close>
fun created :: "event \<Rightarrow> reply option" where
  "created (Tpm (Esys_Create _ _ _ _ _ _), r) = (if rc r = 0 then Some r else None)"
| "created _ = None"

fun opened :: "event \<Rightarrow> reply option" where
  "opened (Stream (Fopen _ m), r) = (if m = ''wb'' \<and> rc r \<noteq> 0 then Some r else None)"
| "opened _ = None"

abbreviation creations :: "event list \<Rightarrow> reply list" where
  "creations ext \<equiv> List.map_filter created ext"

abbreviation openings :: "event list \<Rightarrow> reply list" where
  "openings ext \<equiv> List.map_filter opened ext"

lemma passphrase_neutral:
  "\<forall>e \<in> set ext. passphrase_event e \<Longrightarrow> creations ext = [] \<and> openings ext = []"
proof (induction ext)
  case (Cons e ext)
  then have "created e = None \<and> opened e = None"
    by (cases e rule: created.cases; cases e rule: opened.cases) (auto simp: passphrase_event_def)
  with Cons show ?case by (simp add: map_filter_simps)
qed (simp add: map_filter_simps)

lemma map_filter_append: "List.map_filter f (xs @ ys) = List.map_filter f xs @ List.map_filter f ys"
  by (simp add: List.map_filter_def)

lemma vcg_passphrase:
  assumes "status w = Running"
    and "\<And>a ext. creations ext = [] \<Longrightarrow> openings ext = [] \<Longrightarrow> Q a (w\<lparr>trace := trace w @ ext\<rparr>)"
  shows "wp (cominitCryptoCreatePassphrase p n) Q w"
proof (rule wpI)
  fix a w' assume run: "run_state (cominitCryptoCreatePassphrase p n) w = (a, w')"
  have "wp (cominitCryptoCreatePassphrase p n) (\<lambda>_ w'. status w' = Running) w"
    unfolding cominitCryptoCreatePassphrase_def cominitCryptoCreateUniqueString_def
    using assms(1) by (auto intro!: vcg split: option.split)
  from wp_run_state [OF this run] have "status w' = Running" .
  moreover from emitsD [OF passphrase.footprint run] obtain ext where
    "env w' = env w" "fuel w' = fuel w" "trace w' = trace w @ ext" "\<forall>e \<in> set ext. passphrase_event e" by blast
  ultimately show "Q a w'" using assms passphrase_neutral [of ext] assms(2) [of ext a]
    by (cases w; cases w') simp
qed

text \<open>Public and private part are those of the one object created, or there is none.\<close>
definition parts :: "event list \<Rightarrow> byte list option \<Rightarrow> byte list option \<Rightarrow> bool" where
  "parts ext pub priv \<longleftrightarrow> openings ext = [] \<and>
     (creations ext = [] \<and> pub = None \<and> priv = None
      \<or> (\<exists>e. creations ext = [e] \<and> pub = Some (bytes e) \<and> priv = Some (bytes2 e)))"

lemma esys_create_parts:
  assumes "status w = Running"
  shows "wp (cominitSecurememoryEsysCreate cfg ectx prim digest) (\<lambda>(r, pub, priv) w'. status w' = Running
     \<and> (\<exists>ext. trace w' = trace w @ ext \<and> parts ext pub priv)) w"
  unfolding cominitSecurememoryEsysCreate_def parts_def
  using assms by (auto intro!: vcg vcg_passphrase simp: map_filter_append map_filter_simps)

lemma seal_parts:
  assumes "status w = Running" and "\<forall>p \<in> sealed_pcrs args. p < 8 * pcr_select_max cfg"
  shows "wp (cominitTpmSeal cfg ectx args) (\<lambda>(r, pub, priv) w'. status w' = Running
     \<and> (\<exists>ext. trace w' = trace w @ ext \<and> parts ext pub priv)) w"
proof -
  from select_pcr_exact [of args "pcr_select_max cfg"] assms(2) obtain sel where
    sel: "cominitTpmSelectPcr args (replicate (pcr_select_max cfg) 0) = Inr sel" by auto
  have create: "wp (cominitSecurememoryEsysCreate cfg ectx prim digest) Q v"
    if "status v = Running" "\<And>r pub priv ext v'. parts ext pub priv \<Longrightarrow> status v' = Running \<Longrightarrow>
        trace v' = trace v @ ext \<Longrightarrow> Q (r, pub, priv) v'" for prim digest Q v
    by (rule wp_mono [OF esys_create_parts [OF that(1)]]) (auto intro: that(2))
  show ?thesis
    unfolding cominitTpmSeal_def seal_session_def policy_pcr_def sel sum.case cominitTpmSavePrimaryHandle_def
    using assms(1)
    by (auto intro!: vcg create simp: parts_def map_filter_append map_filter_simps)
qed

text \<open>What the events, the state of the process and the result of sealing have to do with one another.\<close>
definition seal_result :: "event list \<Rightarrow> status \<Rightarrow> cominitTpmState_t \<Rightarrow> bool" where
  "seal_result ext st s \<longleftrightarrow>
     st = (if openings ext \<noteq> [] \<and> creations ext = [] then Undefined NullPointer else Running)
     \<and> (s = Sealed \<and> st = Running \<longrightarrow> (\<exists>e pre f a b c x y. creations ext = [e] \<and> ext = pre @
          [(Stream (Fopen blob_path ''wb''), f), (Stream (Fwrite (bytes e)), a), (Stream (Fwrite (bytes2 e)), b),
           (Stream Fclose, c), (Tpm (Esys_Free (Some (bytes e))), x), (Tpm (Esys_Free (Some (bytes2 e))), y)]))"

text \<open>C25: Sealing and saving the key: it ends in \<^verbatim>\<open>Sealed\<close> only if the TPM created an object, and then both of
  its parts were written to the blob in this order. When the TPM refuses to create the object, the
  code goes on: opening the blob for writing then ends in the use of a null pointer, and it does so
  in no other case.\<close>
theorem seal_blob_outcome:
  assumes "status w = Running" and "\<forall>p \<in> sealed_pcrs args. p < 8 * pcr_select_max cfg"
  shows "wp (cominitTpmSealBlob cfg ectx args)
     (\<lambda>s w'. \<exists>ext. trace w' = trace w @ ext \<and> seal_result ext (status w') s) w"
proof -
  have save: "wp (do { result \<leftarrow> (if r \<noteq> EXIT_SUCCESS then return r else cominitTpmSaveBlob pub priv);
          run (Tpm (Esys_Free pub)); run (Tpm (Esys_Free priv));
          return (if result = EXIT_SUCCESS then Sealed else TpmFailure) })
       (\<lambda>s w'. \<exists>ext. trace w' = trace w @ ext \<and> seal_result ext (status w') s) v"
    if "parts ext pub priv" "status v = Running" "trace v = trace w @ ext" for r pub priv ext v
    using that unfolding cominitTpmSaveBlob_def parts_def
    by (auto simp: wp_simps) (auto simp: seal_result_def map_filter_append map_filter_simps)
  show ?thesis
    unfolding cominitTpmSealBlob_def
    by (rule vcg_bind, rule wp_mono [OF seal_parts [OF assms]], rule_tac y = a in prod_cases3)
      (hypsubst, unfold prod.case, elim conjE exE, rule save)
qed

text \<open>A TPM that answers everything but the creation of the sealed object.\<close>
definition refusing_env :: "event list \<Rightarrow> call \<Rightarrow> reply" where
  "refusing_env h c = (case c of
      Tpm (Esys_Create _ _ _ _ _ _) \<Rightarrow> ok\<lparr>rc := 1\<rparr> | Stream _ \<Rightarrow> ok\<lparr>rc := 1\<rparr>
    | Mem (Calloc n) \<Rightarrow> ok\<lparr>rc := 1\<rparr> | _ \<Rightarrow> ok)"

lemma refusing_simps:
  "refusing_env h (Tpm (Esys_Create a b c d e f)) = ok\<lparr>rc := 1\<rparr>" "refusing_env h (Stream st) = ok\<lparr>rc := 1\<rparr>"
  "refusing_env h (Mem (Calloc n)) = ok\<lparr>rc := 1\<rparr>" "refusing_env h (Mem (Mlock n)) = ok" "refusing_env h (Mem (Munlock key)) = ok"
  "refusing_env h (Mem (Free key)) = ok" "refusing_env h (Pk q) = ok" "refusing_env h (Tpm (Esys_CreatePrimary x y)) = ok"
  "refusing_env h (Tpm (Esys_StartAuthSession t)) = ok" "refusing_env h (Tpm (Esys_PolicyPCR s n sel)) = ok"
  "refusing_env h (Tpm (Esys_PolicyGetDigest s)) = ok" "refusing_env h (Tpm (Esys_EvictControl p)) = ok"
  "refusing_env h (Tpm (Esys_FlushContext p)) = ok" "refusing_env h (Tpm (Esys_Free fr)) = ok"
  by (simp_all add: refusing_env_def)

lemma refused_faults:
  "wp (cominitTpmSealBlob default_config (Some 1) (seal_args [4]))
     (\<lambda>s w'. status w' = Undefined NullPointer) (start refusing_env 1)"
proof -
  have sel: "\<exists>sel. cominitTpmSelectPcr (seal_args [4]) (replicate (pcr_select_max default_config) 0) = Inr sel"
    by (simp add: cominitTpmSelectPcr_def seal_args_def default_config_def)
  have pos: "COMINIT_PASSPHRASE_SIZE \<noteq> 0" by (simp add: lits)
  show ?thesis
    using sel pos
    unfolding cominitTpmSealBlob_def cominitTpmSeal_def seal_session_def policy_pcr_def
      cominitSecurememoryEsysCreate_def cominitCryptoCreatePassphrase_def cominitCryptoCreateUniqueString_def
      cominitTpmSavePrimaryHandle_def cominitTpmSaveBlob_def
    by (elim exE) (simp add: wp_simps refusing_simps ok_simps Let_def split_def)
qed
theorem seal_blob_outcome_witness:
  "wp (cominitTpmSealBlob default_config (Some 1) (seal_args [4])) (\<lambda>s w'. status w' = Undefined NullPointer
     \<and> seal_result (trace w') (status w') s) (start refusing_env 1)"
proof -
  have "\<forall>p \<in> sealed_pcrs (seal_args [4]). p < 8 * pcr_select_max default_config"
    by (simp add: sealed_seal_args default_config_def)
  from wp_conj [THEN iffD2, OF conjI, OF refused_faults
      seal_blob_outcome [of "start refusing_env 1" "seal_args [4]" default_config "Some 1", OF start_simps(4) this]]
  show ?thesis by (rule wp_mono) auto
qed

end
