(* ===== verification/Storage_Key.thy ===== *)
theory Storage_Key
  imports Sealing
begin

text \<open>
  The passphrase of the secure storage across the components: it is generated by src/crypto.c, sealed
  by src/securememory.c, saved, loaded and unsealed by src/tpm.c, kept in the keyring by
  src/keyring.c and given to cryptsetup by src/cryptsetup.c and src/subprocess.c.
\<close>

section \<open>What the environment remembers\<close>

text \<open>What the outside world is to remember: the object created last, what was written to the blob since
  it was opened for writing, the object loaded last, and the keys added.\<close>
record secrets =
  sealed_as :: "(byte list \<times> byte list \<times> byte list) option"
  blob :: "byte list option"
  loaded :: "(u64 \<times> byte list \<times> byte list) option"
  added :: "string \<Rightarrow> byte list option"

fun remember :: "secrets \<Rightarrow> event \<Rightarrow> secrets" where
  "remember s (Tpm (Esys_Create _ _ _ _ _ data), r) =
     (if rc r = 0 then s\<lparr>sealed_as := Some (data, bytes r, bytes2 r)\<rparr> else s)"
| "remember s (Stream (Fopen p m), r) = (if p = blob_path \<and> m = ''wb'' \<and> rc r \<noteq> 0 then s\<lparr>blob := Some []\<rparr> else s)"
| "remember s (Stream (Fwrite b), r) = s\<lparr>blob := map_option (\<lambda>d. d @ b) (blob s)\<rparr>"
| "remember s (Tpm (Esys_Load _ priv pub), r) = (if rc r = 0 then s\<lparr>loaded := Some (val r, pub, priv)\<rparr> else s)"
| "remember s (Key (Add_key d k), r) = (if rc r = - 1 then s else s\<lparr>added := (added s)(d := Some k)\<rparr>)"
| "remember s _ = s"

definition secrets_of :: "event list \<Rightarrow> secrets" where
  "secrets_of h = foldl remember \<lparr>sealed_as = None, blob = None, loaded = None, added = (\<lambda>_. None)\<rparr> h"

text \<open>Calls that leave everything remembered as it is.\<close>
definition unremembered :: "event \<Rightarrow> bool" where
  "unremembered e \<longleftrightarrow> (\<forall>s. remember s e = s)"

lemma foldl_unremembered: "list_all unremembered x \<Longrightarrow> foldl remember s x = s"
  by (induction x arbitrary: s) (auto simp: unremembered_def)

lemma secrets_of_append: "secrets_of (h @ x) = foldl remember (secrets_of h) x"
  by (simp add: secrets_of_def)

text \<open>
  The documented behaviour the passphrase depends on. An object that was created and loaded is
  unsealed to the data it was created with, and its two parts have the size of their structures; what
  was written to the blob is read back, if a read is complete; and the key found under a name is the one last added.
\<close>
definition tpm_faithful :: "config \<Rightarrow> (event list \<Rightarrow> call \<Rightarrow> reply) \<Rightarrow> bool" where
  "tpm_faithful cfg E \<longleftrightarrow> (\<forall>h.
     (\<forall>p ty at dg ua d. rc (E h (Tpm (Esys_Create p ty at dg ua d))) = 0 \<longrightarrow>
        length (bytes (E h (Tpm (Esys_Create p ty at dg ua d)))) = sizeof_public cfg
        \<and> length (bytes2 (E h (Tpm (Esys_Create p ty at dg ua d)))) = sizeof_private cfg)
     \<and> (\<forall>obj sess d pub priv. loaded (secrets_of h) = Some (obj, pub, priv) \<longrightarrow> sealed_as (secrets_of h) = Some (d, pub, priv) \<longrightarrow>
          rc (E h (Tpm (Esys_Unseal obj sess))) = 0 \<longrightarrow> bytes (E h (Tpm (Esys_Unseal obj sess))) = d))"

definition blob_faithful :: "(event list \<Rightarrow> call \<Rightarrow> reply) \<Rightarrow> bool" where
  "blob_faithful E \<longleftrightarrow> (\<forall>h d f n. blob (secrets_of h) = Some d \<longrightarrow>
     (let h1 = h @ [(Stream (Fopen blob_path ''rb''), f)]; r = E h1 (Stream (Fread n)) in
        rc r = int n \<longrightarrow> take n (bytes r) = take n d
        \<and> (\<forall>m. let q = E (h1 @ [(Stream (Fread n), r)]) (Stream (Fread m)) in
              rc q = int m \<longrightarrow> take m (bytes q) = take m (drop n d))))"

definition keyring_faithful :: "(event list \<Rightarrow> call \<Rightarrow> reply) \<Rightarrow> bool" where
  "keyring_faithful E \<longleftrightarrow> (\<forall>h name s n k. added (secrets_of h) name = Some k \<longrightarrow>
     (let r = E (h @ [(Key (Keyctl_search name), s)]) (Key (Keyctl_read (rc s) n)) in
        rc r = - 1 \<or> rc r = int (length k) \<and> take n (bytes r) = take n k))"

lemma tpm_faithful_create:
  "tpm_faithful cfg E \<Longrightarrow> answered E h (Tpm (Esys_Create p ty at dg ua d)) r \<Longrightarrow> rc r = 0 \<Longrightarrow>
   length (bytes r) = sizeof_public cfg \<and> length (bytes2 r) = sizeof_private cfg"
  by (auto simp: tpm_faithful_def answered_def)

lemma tpm_faithful_unseal:
  "tpm_faithful cfg E \<Longrightarrow> answered E h (Tpm (Esys_Unseal obj sess)) r \<Longrightarrow> rc r = 0 \<Longrightarrow>
   loaded (secrets_of h) = Some (obj, pub, priv) \<Longrightarrow> sealed_as (secrets_of h) = Some (d, pub, priv) \<Longrightarrow> bytes r = d"
  by (auto simp: tpm_faithful_def answered_def)

lemma blob_faithful_read:
  assumes "blob_faithful E" and "blob (secrets_of h) = Some d"
    and "answered E (h @ [(Stream (Fopen blob_path ''rb''), f)]) (Stream (Fread n)) r" "rc r = int n"
  shows "take n (bytes r) = take n d"
    and "answered E (h @ [(Stream (Fopen blob_path ''rb''), f), (Stream (Fread n), r)]) (Stream (Fread m)) q \<Longrightarrow>
      rc q = int m \<Longrightarrow> take m (bytes q) = take m (drop n d)"
  using assms unfolding blob_faithful_def answered_def Let_def by (metis append_Cons append_Nil append_assoc)+

lemma keyring_faithful_read:
  "keyring_faithful E \<Longrightarrow> added (secrets_of h) name = Some k \<Longrightarrow>
   answered E (h @ [(Key (Keyctl_search name), s)]) (Key (Keyctl_read (rc s) n)) r \<Longrightarrow>
   rc r = - 1 \<or> rc r = int (length k) \<and> take n (bytes r) = take n k"
  by (simp add: keyring_faithful_def answered_def Let_def)

section \<open>Sealing\<close>

text \<open>A passphrase as the random generator delivered it.\<close>
definition generated :: "byte list \<Rightarrow> event list \<Rightarrow> bool" where
  "generated pw ext \<longleftrightarrow> (\<exists>g. (Pk (Drbg_random COMINIT_PASSPHRASE_SIZE), g) \<in> set ext \<and> rc g = 0
     \<and> pw = overlay (take COMINIT_PASSPHRASE_SIZE (bytes g)) (replicate COMINIT_PASSPHRASE_SIZE 0))"

lemma generated_mono: "generated pw x \<Longrightarrow> set x \<subseteq> set y \<Longrightarrow> generated pw y"
  by (auto simp: generated_def)

lemma generated_parts: "generated pw x \<Longrightarrow> generated pw (x @ y)" "generated pw y \<Longrightarrow> generated pw (x @ y)"
  "generated pw y \<Longrightarrow> generated pw (e # y)"
  by (auto simp: generated_def)

lemma generated_length: "generated pw ext \<Longrightarrow> length pw = COMINIT_PASSPHRASE_SIZE"
  by (auto simp: generated_def)

text \<open>What the generation of the passphrase returns and does to what is remembered.\<close>
definition fresh_passphrase :: "int \<Rightarrow> byte list option \<Rightarrow> event list \<Rightarrow> bool" where
  "fresh_passphrase p pw ext \<longleftrightarrow> (\<forall>s. foldl remember s ext = s)
     \<and> (p = EXIT_SUCCESS \<longrightarrow> pw \<noteq> None \<and> generated (the pw) ext)"

lemma vcg_passphrase_secret:
  assumes "status w = Running" and "\<And>p pw ext. fresh_passphrase p pw ext \<Longrightarrow> Q (p, pw) (w\<lparr>trace := trace w @ ext\<rparr>)"
  shows "wp (cominitCryptoCreatePassphrase (Some (replicate COMINIT_PASSPHRASE_SIZE 0)) COMINIT_PASSPHRASE_SIZE) Q w"
proof -
  have "COMINIT_PASSPHRASE_SIZE \<noteq> 0" by (simp add: lits)
  with assms(1) show ?thesis
    unfolding cominitCryptoCreatePassphrase_def cominitCryptoCreateUniqueString_def option.case if_not_P
    by (auto intro!: vcg assms(2) simp: fresh_passphrase_def generated_def blob_path_def lits)
qed

text \<open>The parts of the sealed object, and the passphrase in it.\<close>
definition sealed_with :: "config \<Rightarrow> event list \<Rightarrow> byte list option \<Rightarrow> byte list option \<Rightarrow> bool" where
  "sealed_with cfg h pub priv \<longleftrightarrow> (pub = None \<longleftrightarrow> priv = None) \<and> (\<forall>pb pv. pub = Some pb \<longrightarrow> priv = Some pv \<longrightarrow>
     (\<exists>pw. sealed_as (secrets_of h) = Some (pw, pb, pv) \<and> generated pw h
        \<and> length pb = sizeof_public cfg \<and> length pv = sizeof_private cfg))"

lemma sealed_with_None [simp]: "sealed_with cfg h None None"
  by (simp add: sealed_with_def)

lemma sealed_with_append:
  "sealed_with cfg h pub priv \<Longrightarrow> (\<And>s. sealed_as (foldl remember s x) = sealed_as s) \<Longrightarrow> sealed_with cfg (h @ x) pub priv"
  by (force simp: sealed_with_def secrets_of_append intro: generated_mono)

text \<open>The size of the two parts of an object created.\<close>
definition object_sizes :: "config \<Rightarrow> reply \<Rightarrow> bool" where
  "object_sizes cfg r \<longleftrightarrow> (rc r = 0 \<longrightarrow> length (bytes r) = sizeof_public cfg \<and> length (bytes2 r) = sizeof_private cfg)"

lemma sealed_with_created:
  assumes "fresh_passphrase EXIT_SUCCESS pw ext" "object_sizes cfg r" "rc r = 0"
    and "\<And>s. foldl remember s [a, b] = s" "\<And>s. sealed_as (foldl remember s y) = sealed_as s"
  shows "sealed_with cfg (h @ a # b # ext @ (Tpm (Esys_Create p ty at dg ua (the pw)), r) # y) (Some (bytes r)) (Some (bytes2 r))"
  using assms by (auto simp: sealed_with_def secrets_of_append fresh_passphrase_def object_sizes_def generated_def)

lemma create_sealed:
  assumes "status w = Running" and "tpm_faithful cfg (env w)"
  shows "wp (cominitSecurememoryEsysCreate cfg ectx prim digest) (\<lambda>(r, pub, priv) w'. status w' = Running
     \<and> env w' = env w \<and> sealed_with cfg (trace w') pub priv) w"
proof -
  have create: "wp (sys (Tpm (Esys_Create p ty at dg ua d))) Q v"
    if "status v = Running \<and> env v = env w" "\<And>r. object_sizes cfg r \<Longrightarrow>
       Q r (v\<lparr>trace := trace v @ [(Tpm (Esys_Create p ty at dg ua d), r)]\<rparr>)" for p ty at dg ua d Q v
    using that(1) assms(2) by (intro vcg_sys_answered that) (auto simp: object_sizes_def dest: tpm_faithful_create)
  show ?thesis
    unfolding cominitSecurememoryEsysCreate_def using assms(1)
    by (auto intro!: vcg vcg_passphrase_secret create) (rule sealed_with_created; simp)
qed

lemma seal_sealed:
  assumes "status w = Running" and "tpm_faithful cfg (env w)"
    and sel: "cominitTpmSelectPcr args (replicate (pcr_select_max cfg) 0) = Inr sel"
  shows "wp (cominitTpmSeal cfg ectx args) (\<lambda>(r, pub, priv) w'. status w' = Running
     \<and> env w' = env w \<and> sealed_with cfg (trace w') pub priv) w"
proof -
  have create: "wp (cominitSecurememoryEsysCreate cfg ectx prim digest) Q v"
    if "status v = Running" "env v = env w"
      "\<And>r pub priv v'. sealed_with cfg (trace v') pub priv \<Longrightarrow> status v' = Running \<Longrightarrow> env v' = env w \<Longrightarrow> Q (r, pub, priv) v'"
    for prim digest Q v
    by (rule wp_mono [OF create_sealed [OF that(1)]]) (use that assms(2) in auto)
  show ?thesis
    unfolding cominitTpmSeal_def seal_session_def policy_pcr_def sel sum.case cominitTpmSavePrimaryHandle_def
    using assms(1) by (auto intro!: vcg create simp: sealed_with_append)
qed

text \<open>The passphrase is in the TPM's object with the given parts, and these are in the blob.\<close>
definition key_object :: "config \<Rightarrow> event list \<Rightarrow> byte list \<Rightarrow> byte list \<Rightarrow> byte list \<Rightarrow> bool" where
  "key_object cfg h pw pub priv \<longleftrightarrow> generated pw h \<and> sealed_as (secrets_of h) = Some (pw, pub, priv)
     \<and> blob (secrets_of h) = Some (pub @ priv) \<and> length pub = sizeof_public cfg \<and> length priv = sizeof_private cfg"

definition key_stored :: "config \<Rightarrow> event list \<Rightarrow> byte list \<Rightarrow> bool" where
  "key_stored cfg h pw \<longleftrightarrow> (\<exists>pub priv. key_object cfg h pw pub priv)"

lemma key_object_append:
  "key_object cfg h pw pub priv \<Longrightarrow> (\<And>s. sealed_as (foldl remember s x) = sealed_as s) \<Longrightarrow>
   (\<And>s. blob (foldl remember s x) = blob s) \<Longrightarrow> key_object cfg (h @ x) pw pub priv"
  by (simp add: key_object_def secrets_of_append generated_parts)

lemma key_stored_append: "key_stored cfg h pw \<Longrightarrow> list_all unremembered x \<Longrightarrow> key_stored cfg (h @ x) pw"
  unfolding key_stored_def by (elim exE, intro exI, rule key_object_append) (simp_all add: foldl_unremembered)

lemma key_stored_saved:
  assumes "sealed_with cfg h (Some pub) (Some priv)" and "rc f \<noteq> 0" and "list_all unremembered x"
  shows "\<exists>pw. key_stored cfg (h @ (Stream (Fopen blob_path ''wb''), f) # (Stream (Fwrite pub), a) # (Stream (Fwrite priv), b) # x) pw"
  using assms by (auto simp: sealed_with_def key_stored_def key_object_def secrets_of_append generated_def foldl_unremembered)

lemma seal_blob_stored:
  assumes "status w = Running" and "tpm_faithful cfg (env w)"
    and "cominitTpmSelectPcr args (replicate (pcr_select_max cfg) 0) = Inr sel"
  shows "wp (cominitTpmSealBlob cfg ectx args) (\<lambda>s w'. s = Sealed \<longrightarrow> status w' = Running \<longrightarrow>
     env w' = env w \<and> (\<exists>pw. key_stored cfg (trace w') pw)) w"
proof -
  have save: "wp (do { result \<leftarrow> (if r \<noteq> EXIT_SUCCESS then return r else cominitTpmSaveBlob pub priv);
          run (Tpm (Esys_Free pub)); run (Tpm (Esys_Free priv));
          return (if result = EXIT_SUCCESS then Sealed else TpmFailure) })
       (\<lambda>s w'. s = Sealed \<longrightarrow> status w' = Running \<longrightarrow> env w' = env w \<and> (\<exists>pw. key_stored cfg (trace w') pw)) v"
    if "status v = Running" "env v = env w" "sealed_with cfg (trace v) pub priv" for r pub priv v
  proof (cases "pub = None")
    case True
    with that show ?thesis by (simp add: cominitTpmSaveBlob_def wp_simps sealed_with_def)
  next
    case False
    with that(3) obtain pb pv where parts: "pub = Some pb" "priv = Some pv" by (auto simp: sealed_with_def)
    with that(1,2) show ?thesis
      using key_stored_saved [of cfg "trace v" pb pv] that(3)
      unfolding cominitTpmSaveBlob_def by (auto intro!: vcg simp: unremembered_def)
  qed
  show ?thesis
    unfolding cominitTpmSealBlob_def
    by (rule vcg_bind, rule wp_mono [OF seal_sealed [OF assms]], rule_tac y = a in prod_cases3)
      (hypsubst, unfold prod.case, elim conjE, rule save)
qed

section \<open>Unsealing\<close>

lemma load_blob_object:
  assumes "status w = Running" and "blob_faithful (env w)" and "key_stored cfg (trace w) pw"
  shows "wp (cominitTpmLoadBlob cfg) (\<lambda>(b, pub, priv) w'. status w' = Running \<and> env w' = env w
     \<and> length (trace w) \<le> length (trace w') \<and> (b = EXIT_SUCCESS \<longrightarrow> key_object cfg (trace w') pw pub priv)) w"
proof -
  from assms(3) obtain pb pv where pb: "generated pw (trace w)" "sealed_as (secrets_of (trace w)) = Some (pw, pb, pv)"
    "blob (secrets_of (trace w)) = Some (pb @ pv)" "length pb = sizeof_public cfg" "length pv = sizeof_private cfg"
    by (auto simp: key_stored_def key_object_def)
  have object: "key_object cfg (trace w @ [(Stream (Fopen blob_path ''rb''), f), (Stream (Fread (sizeof_public cfg)), p),
        (Stream (Fread (sizeof_private cfg)), q), (Stream Fclose, c)]) pw (read_struct (sizeof_public cfg) p) (read_struct (sizeof_private cfg) q)"
    if "answered (env w) (trace w @ [(Stream (Fopen blob_path ''rb''), f)]) (Stream (Fread (sizeof_public cfg))) p"
      "answered (env w) (trace w @ [(Stream (Fopen blob_path ''rb''), f), (Stream (Fread (sizeof_public cfg)), p)])
         (Stream (Fread (sizeof_private cfg))) q"
      "rc p = int (sizeof_public cfg)" "rc q = int (sizeof_private cfg)" for f p q c
    using blob_faithful_read [OF assms(2) pb(3) that(1,3)] that(2,4) pb
    by (simp add: key_object_def read_struct_def secrets_of_append generated_def overlay_def)
  show ?thesis
    unfolding cominitTpmLoadBlob_def using assms(1)
    by (auto intro!: vcg_sys_answered vcg_return vcg_bind vcg_run vcg_if vcg_case_prod vcg_Let object split: if_splits)
qed

text \<open>A key was added under the name of the secure storage after the first n calls.\<close>
definition key_enrolled :: "nat \<Rightarrow> event list \<Rightarrow> byte list \<Rightarrow> bool" where
  "key_enrolled n h pw \<longleftrightarrow> (\<exists>a. (Key (Add_key COMINIT_TPM_SECURE_STORAGE_KEY_NAME pw), a) \<in> set (drop n h) \<and> rc a \<noteq> - 1)"

lemma key_enrolled_append: "key_enrolled n h pw \<Longrightarrow> key_enrolled n (h @ x) pw"
  by (auto simp: key_enrolled_def)

lemma key_enrolled_earlier: "key_enrolled m h pw \<Longrightarrow> n \<le> m \<Longrightarrow> key_enrolled n h pw"
  using set_drop_subset_set_drop [of n m h] by (auto simp: key_enrolled_def)

text \<open>The passphrase is in the keyring, where it was added after the first n calls.\<close>
definition key_added :: "config \<Rightarrow> nat \<Rightarrow> event list \<Rightarrow> byte list \<Rightarrow> bool" where
  "key_added cfg n h pw \<longleftrightarrow> key_stored cfg h pw \<and> added (secrets_of h) COMINIT_TPM_SECURE_STORAGE_KEY_NAME = Some pw
     \<and> key_enrolled n h pw"

lemma key_added_append: "key_added cfg n h pw \<Longrightarrow> list_all unremembered x \<Longrightarrow> key_added cfg n (h @ x) pw"
  by (simp add: key_added_def key_stored_append secrets_of_append foldl_unremembered key_enrolled_append)

lemma key_stored_length: "key_stored cfg h pw \<Longrightarrow> length pw = COMINIT_PASSPHRASE_SIZE"
  by (auto simp: key_stored_def key_object_def dest: generated_length)

text \<open>The object is loaded, and the handle is known.\<close>
definition key_loaded :: "config \<Rightarrow> event list \<Rightarrow> byte list \<Rightarrow> u64 \<Rightarrow> bool" where
  "key_loaded cfg h pw obj \<longleftrightarrow> (\<exists>pub priv. key_object cfg h pw pub priv \<and> loaded (secrets_of h) = Some (obj, pub, priv))"

lemma unseal_key_adds:
  assumes "status w = Running" and "tpm_faithful cfg (env w)" and "key_loaded cfg (trace w) pw obj" and "n \<le> length (trace w)"
  shows "wp (cominitSecurememoryEsysUnseal cfg ectx (Some obj) (Some sess)) (\<lambda>s w'. status w' = Running
     \<and> env w' = env w \<and> (s = Unsealed \<longrightarrow> key_added cfg n (trace w') pw)) w"
proof -
  have key: "bytes u = pw" if "answered (env w) (trace w) (Tpm (Esys_Unseal obj sess)) u" "rc u = 0" for u
    using assms(3) tpm_faithful_unseal [OF assms(2) that] by (auto simp: key_loaded_def key_object_def)
  have add: "key_added cfg n (trace w @ (Tpm (Esys_Unseal obj sess), u) # (Mem m, l)
      # (Key (Add_key COMINIT_TPM_SECURE_STORAGE_KEY_NAME pw), a) # [(Mem m', x), (Tpm (Esys_Free f), y)]) pw"
    if "rc a \<noteq> - 1" for u m l a m' x f y
    using that assms(3,4) by (force simp: key_added_def key_enrolled_def key_stored_def key_loaded_def key_object_def secrets_of_append generated_def)
  show ?thesis
    unfolding cominitSecurememoryEsysUnseal_def cominitKeyringAddUserKey_def using assms(1)
    by (auto intro!: vcg vcg_sys_answered [where c = "Tpm (Esys_Unseal obj sess)"] add simp: key split: option.split if_splits)
qed

lemma unseal_blob_adds:
  assumes "status w = Running" and "tpm_faithful cfg (env w)" and "blob_faithful (env w)"
    and "key_stored cfg (trace w) pw" and sel: "cominitTpmSelectPcr args (replicate (pcr_select_max cfg) 0) = Inr sel"
  shows "wp (cominitTpmUnsealBlob cfg ectx args) (\<lambda>s w'. status w' = Running
     \<and> env w' = env w \<and> (s = Unsealed \<longrightarrow> key_added cfg (length (trace w)) (trace w') pw)) w"
proof -
  have unseal: "wp (cominitSecurememoryEsysUnseal cfg ectx (Some obj) (Some sess)) Q v"
    if "status v = Running \<and> env v = env w \<and> key_loaded cfg (trace v) pw obj \<and> length (trace w) \<le> length (trace v)" "\<And>s v'. status v' = Running \<Longrightarrow> env v' = env w \<Longrightarrow>
       (s = Unsealed \<longrightarrow> key_added cfg (length (trace w)) (trace v') pw) \<Longrightarrow> Q s v'" for obj sess Q v
    by (rule wp_mono [OF unseal_key_adds]) (use that assms(2) in auto)
  have load: "wp (cominitTpmLoadBlob cfg) Q v"
    if "status v = Running \<and> env v = env w \<and> key_stored cfg (trace v) pw" "\<And>b pub priv v'. status v' = Running \<Longrightarrow> env v' = env w \<Longrightarrow>
       length (trace v) \<le> length (trace v') \<Longrightarrow> (b = EXIT_SUCCESS \<longrightarrow> key_object cfg (trace v') pw pub priv) \<Longrightarrow> Q (b, pub, priv) v'" for Q v
    by (rule wp_mono [OF load_blob_object [of _ cfg pw]]) (use that assms(3) in auto)
  have stored: "key_stored cfg (trace w @ [(Tpm Esys_TR_FromTPMPublic, r)]) pw" for r
    using assms(4) by (auto intro!: key_stored_append simp: unremembered_def)
  have "key_loaded cfg (h @ [(Tpm (Esys_Load prim priv pub), l), (Tpm (Esys_StartAuthSession t), s), (Tpm (Esys_PolicyPCR n m k), p)]) pw (val l)"
    if "key_object cfg h pw pub priv" "rc l = 0" for h prim priv pub l t s n m k p
    using that by (auto simp: key_loaded_def key_object_def secrets_of_append generated_def)
  then show ?thesis
    unfolding cominitTpmUnsealBlob_def cominitTpmUnseal_def unseal_session_def cominitTpmLoadPrimaryHandle_def
      policy_pcr_def sel sum.case
    using assms(1) by (auto intro!: vcg load unseal stored key_added_append simp: unremembered_def)
qed

section \<open>Formatting\<close>

definition appended :: "(event \<Rightarrow> bool) \<Rightarrow> world \<Rightarrow> world \<Rightarrow> bool" where
  "appended K w w' \<longleftrightarrow> (\<exists>ext. trace w' = trace w @ ext \<and> list_all K ext)"

lemma appended_trans: "appended K u v \<Longrightarrow> appended K v w \<Longrightarrow> appended K u w"
  by (force simp: appended_def)

lemma emits_appended: "emits K m \<Longrightarrow> wp m (\<lambda>_. appended K w) w"
  by (rule wpI) (auto simp: appended_def list_all_iff dest: emitsD(3))

text \<open>No byte is written to a descriptor.\<close>
definition writes_nothing :: "event \<Rightarrow> bool" where
  "writes_nothing e \<longleftrightarrow> (case e of (Fs (Write _ _ _), _) \<Rightarrow> False | _ \<Rightarrow> True)"

text \<open>A write, if any, is of this buffer and size, by calls that leave everything remembered as it is.\<close>
definition writes_buffer :: "byte list \<Rightarrow> nat \<Rightarrow> event \<Rightarrow> bool" where
  "writes_buffer d n e \<longleftrightarrow> unremembered e \<and> (case e of (Fs (Write _ d' n'), _) \<Rightarrow> d' = d \<and> n' = n | _ \<Rightarrow> True)"

definition no_write :: "event \<Rightarrow> bool" where
  "no_write e \<longleftrightarrow> unremembered e \<and> writes_nothing e"

lemma luks_volume_writes: "emits (writes_buffer d n) (cominitCryptsetupCreateLuksVolume cfg (Some dev) (Some d) n)"
  unfolding cominitCryptsetupCreateLuksVolume_def cominitSubprocessSpawnAndWrite_def child_exec_def
  by (auto intro!: emits_intros simp: writes_buffer_def unremembered_def)

text \<open>The keyring did not give a key.\<close>
definition key_lost :: "event list \<Rightarrow> bool" where
  "key_lost ext \<longleftrightarrow> (\<exists>e \<in> set ext. rc (snd e) = - 1 \<and>
     (case fst e of Key (Keyctl_search _) \<Rightarrow> True | Key (Keyctl_read _ _) \<Rightarrow> True | _ \<Rightarrow> False))"

text \<open>
  A write asks for exactly the passphrase from a buffer that holds it; or, when the keyring did not give the
  key, for as many bytes as its code of -1 is as a size, which no memory has.
\<close>
definition asks_for :: "byte list \<Rightarrow> event list \<Rightarrow> byte list \<Rightarrow> nat \<Rightarrow> bool" where
  "asks_for pw ext d n \<longleftrightarrow> n \<le> length d \<and> take n d = pw \<or> n = size_t_of (- 1) \<and> key_lost ext"

definition fed_by :: "byte list \<Rightarrow> world \<Rightarrow> world \<Rightarrow> bool" where
  "fed_by pw w w' \<longleftrightarrow> (\<exists>ext. trace w' = trace w @ ext \<and> list_all unremembered ext
     \<and> (\<forall>fd d n r. (Fs (Write fd d n), r) \<in> set ext \<longrightarrow> asks_for pw ext d n))"

lemma key_lost_mono: "key_lost x \<Longrightarrow> set x \<subseteq> set y \<Longrightarrow> key_lost y"
  by (auto simp: key_lost_def)

lemma asks_for_mono: "asks_for pw x d n \<Longrightarrow> set x \<subseteq> set y \<Longrightarrow> asks_for pw y d n"
  by (auto simp: asks_for_def intro: key_lost_mono)

lemma fed_by_trans:
  assumes "fed_by pw u v" and "fed_by pw v w"
  shows "fed_by pw u w"
proof -
  from assms obtain x y where xy: "trace v = trace u @ x" "list_all unremembered x" "trace w = trace v @ y" "list_all unremembered y"
    "\<forall>fd d n r. (Fs (Write fd d n), r) \<in> set x \<longrightarrow> asks_for pw x d n" "\<forall>fd d n r. (Fs (Write fd d n), r) \<in> set y \<longrightarrow> asks_for pw y d n"
    by (auto simp: fed_by_def)
  have "asks_for pw (x @ y) d n" if "(Fs (Write fd d n), r) \<in> set (x @ y)" for fd d n r
    using that xy(5,6) asks_for_mono [of pw x d n "x @ y"] asks_for_mono [of pw y d n "x @ y"] by (auto; blast)
  with xy(1-4) show ?thesis unfolding fed_by_def by (intro exI [of _ "x @ y"]) auto
qed

lemma no_write_feeds: "appended no_write w w' \<Longrightarrow> fed_by pw w w'"
  by (force simp: appended_def fed_by_def no_write_def writes_nothing_def list_all_iff)

lemma buffer_feeds:
  assumes "trace v = trace w @ x" "list_all no_write x" "asks_for pw x d n" "appended (writes_buffer d n) v w'"
  shows "fed_by pw w w'"
proof -
  from assms(4) obtain y where y: "trace w' = trace v @ y" "list_all (writes_buffer d n) y" by (auto simp: appended_def)
  have "asks_for pw (x @ y) d' n'" if "(Fs (Write fd d' n'), r) \<in> set (x @ y)" for fd d' n' r
    using that assms(2) y(2) asks_for_mono [OF assms(3), of "x @ y"]
    by (force simp: list_all_iff no_write_def writes_nothing_def writes_buffer_def)
  with assms(1,2) y show ?thesis
    unfolding fed_by_def by (intro exI [of _ "x @ y"]) (auto simp: list_all_iff no_write_def writes_buffer_def)
qed

lemma fed_bind:
  assumes "wp m (\<lambda>a v. fed_by pw w v \<and> P a v) w" and "\<And>a v. P a v \<Longrightarrow> wp (f a) (\<lambda>_. fed_by pw v) v"
  shows "wp (State_Monad.bind m f) (\<lambda>_. fed_by pw w) w"
  by (rule vcg_bind, rule wp_mono [OF assms(1)]) (blast intro: wp_mono [OF assms(2)] fed_by_trans)

lemma fed_emits: "emits no_write m \<Longrightarrow> wp m (\<lambda>_. fed_by pw w) w"
  by (rule wp_mono [OF emits_appended no_write_feeds])

lemma fed_bind_emits:
  assumes "wp m (\<lambda>_. fed_by pw w) w" and "\<And>a. emits no_write (f a)"
  shows "wp (State_Monad.bind m f) (\<lambda>_. fed_by pw w) w"
  by (rule fed_bind [where P = "\<lambda>_ _. True"]) (simp_all add: assms fed_emits)

lemma spawn_writes: "emits no_write (cominitSubprocessSpawn p a e)"
  unfolding cominitSubprocessSpawn_def child_exec_def
  by (auto intro!: emits_intros simp: no_write_def writes_nothing_def unremembered_def)

lemma mem_writes: "no_write (Mem m, r)"
  by (simp add: no_write_def writes_nothing_def unremembered_def)

lemma get_key_added:
  assumes "status w = Running" and "keyring_faithful (env w)" and "key_added cfg n (trace w) pw"
  shows "wp (cominitKeyringGetKey (Some (replicate COMINIT_PASSPHRASE_SIZE 0)) COMINIT_PASSPHRASE_SIZE
      (Some COMINIT_TPM_SECURE_STORAGE_KEY_NAME)) (\<lambda>(k, buf) w'. status w' = Running
     \<and> (\<exists>x d. trace w' = trace w @ x \<and> list_all no_write x \<and> buf = Some d \<and> asks_for pw x d (size_t_of k))) w"
proof -
  have len: "length pw = COMINIT_PASSPHRASE_SIZE"
    using assms(3) by (auto simp: key_added_def dest: key_stored_length)
  have filled: "nat (rc r) = COMINIT_PASSPHRASE_SIZE \<and> size_t_of (rc r) = COMINIT_PASSPHRASE_SIZE
        \<and> take COMINIT_PASSPHRASE_SIZE (bytes r) = pw"
    if "answered (env w) (trace w @ [(Key (Keyctl_search COMINIT_TPM_SECURE_STORAGE_KEY_NAME), s)])
        (Key (Keyctl_read (rc s) COMINIT_PASSPHRASE_SIZE)) r" "rc r \<noteq> - 1" for s r
    using keyring_faithful_read [OF assms(2) _ that(1)] assms(3) that(2) len
    by (auto simp: key_added_def size_t_of_def)
  have short: "\<not> 4095 \<le> length COMINIT_TPM_SECURE_STORAGE_KEY_NAME" by (simp add: lits)
  show ?thesis
    unfolding cominitKeyringGetKey_def using assms(1) short len
    by (auto intro!: vcg_sys_answered vcg_return vcg_bind vcg_if dest!: filled
        simp: asks_for_def key_lost_def no_write_def writes_nothing_def unremembered_def)
qed

lemma luks_with_key_writes:
  assumes "status w = Running" and "keyring_faithful (env w)" and "key_added cfg n (trace w) pw"
  shows "wp (luks_with_key cfg dev (replicate COMINIT_PASSPHRASE_SIZE 0)) (\<lambda>_. fed_by pw w) w"
proof -
  let ?get = "cominitKeyringGetKey (Some (replicate COMINIT_PASSPHRASE_SIZE 0)) COMINIT_PASSPHRASE_SIZE
    (Some COMINIT_TPM_SECURE_STORAGE_KEY_NAME)"
  have lock: "wp (sys (Mem (Mlock COMINIT_PASSPHRASE_SIZE))) (\<lambda>l v. fed_by pw w v
      \<and> status v = Running \<and> keyring_faithful (env v) \<and> key_added cfg n (trace v) pw) w"
    using assms by (auto intro!: vcg key_added_append no_write_feeds simp: appended_def mem_writes unremembered_def)
  have luks: "wp (do { r \<leftarrow> cominitCryptsetupCreateLuksVolume cfg (Some dev) (Some d) m;
        case cominitSecurememoryZeroOut (Some d) COMINIT_PASSPHRASE_SIZE of (_, cleared) \<Rightarrow> return (r, the cleared) })
      (\<lambda>_. fed_by pw v) u" if "trace u = trace v @ x" "list_all no_write x" "asks_for pw x d m" for u v x d m
  proof -
    have "wp (cominitCryptsetupCreateLuksVolume cfg (Some dev) (Some d) m) (\<lambda>_. fed_by pw v) u"
      by (rule wp_mono [OF emits_appended [OF luks_volume_writes]]) (rule buffer_feeds [OF that])
    then show ?thesis by (intro vcg_bind) (auto elim!: wp_mono simp: wp_return split: prod.split)
  qed
  show ?thesis
    unfolding luks_with_key_def Let_def
  proof (rule fed_bind [OF lock], elim conjE)
    fix l and v :: world assume v: "status v = Running" "keyring_faithful (env v)" "key_added cfg n (trace v) pw"
    have "wp ?get (\<lambda>a. wp (case a of (k, buf) \<Rightarrow>
          if size_t_of k = 0 then return (EXIT_FAILURE, the buf)
          else do { r \<leftarrow> cominitCryptsetupCreateLuksVolume cfg (Some dev) buf (size_t_of k);
            case cominitSecurememoryZeroOut buf COMINIT_PASSPHRASE_SIZE of (_, cleared) \<Rightarrow> return (r, the cleared) })
        (\<lambda>_. fed_by pw v)) v"
      by (rule wp_mono [OF get_key_added [OF v]])
        (auto intro!: vcg_if vcg_return luks no_write_feeds simp: appended_def)
    then show "wp (if rc l \<noteq> 0 then return (EXIT_FAILURE, replicate COMINIT_PASSPHRASE_SIZE 0)
        else State_Monad.bind ?get (\<lambda>(k, buf).
          if size_t_of k = 0 then return (EXIT_FAILURE, the buf)
          else do { r \<leftarrow> cominitCryptsetupCreateLuksVolume cfg (Some dev) buf (size_t_of k);
            case cominitSecurememoryZeroOut buf COMINIT_PASSPHRASE_SIZE of (_, cleared) \<Rightarrow> return (r, the cleared) }))
      (\<lambda>_. fed_by pw v) v"
      by (intro vcg_if vcg_bind fed_emits [OF emits_return])
  qed
qed

lemma setup_storage_writes:
  assumes "status w = Running" and "keyring_faithful (env w)" and "key_added cfg n (trace w) pw"
  shows "wp (cominitTpmSetupSecureStorage cfg args True) (\<lambda>_. fed_by pw w) w"
proof -
  have alloc: "wp (sys (Mem (Calloc COMINIT_PASSPHRASE_SIZE))) (\<lambda>l v. fed_by pw w v
      \<and> status v = Running \<and> keyring_faithful (env v) \<and> key_added cfg n (trace v) pw) w"
    using assms by (auto intro!: vcg key_added_append no_write_feeds simp: appended_def mem_writes unremembered_def)
  have "wp (cominitSecurememoryCreateLuksVolume cfg (Some dev)) (\<lambda>_. fed_by pw w) w" for dev
    unfolding cominitSecurememoryCreateLuksVolume_def option.case Let_def
    by (rule fed_bind [OF alloc])
      (auto intro!: vcg_if fed_emits [OF emits_return] fed_bind_emits luks_with_key_writes emits_intros simp: mem_writes)
  then show ?thesis
    unfolding cominitTpmSetupSecureStorage_def if_True
    by (auto intro!: fed_bind_emits emits_intros spawn_writes
        simp: cominitCryptsetupAddToken_def cominitCryptsetupOpenLuksVolume_def cominitTpmFormatSecureStorage_def)
qed

section \<open>The whole way\<close>

lemma blob_writes_nothing:
  "emits writes_nothing (cominitTpmSetupBlob args)" "emits writes_nothing (cominitTpmSealBlob cfg ectx args)"
  "emits writes_nothing (cominitTpmUnsealBlob cfg ectx args)" "emits writes_nothing (cominitCryptsetupOpenLuksVolume cfg dev)"
proof -
  have loop: "emits writes_nothing (mkdir_loop mode cur ts)" for mode cur ts
    by (induction ts arbitrary: cur) (auto intro!: emits_intros simp: writes_nothing_def)
  show "emits writes_nothing (cominitTpmSetupBlob args)"
    unfolding cominitTpmSetupBlob_def cominitMkdir_def by (auto intro!: emits_intros loop simp: writes_nothing_def)
  show "emits writes_nothing (cominitTpmSealBlob cfg ectx args)"
    unfolding cominitTpmSealBlob_def cominitTpmSeal_def seal_session_def cominitTpmSavePrimaryHandle_def
      cominitTpmSaveBlob_def policy_pcr_def cominitSecurememoryEsysCreate_def cominitCryptoCreatePassphrase_def
      cominitCryptoCreateUniqueString_def
    by (auto split: option.split sum.split intro!: emits_intros simp: writes_nothing_def)
  show "emits writes_nothing (cominitTpmUnsealBlob cfg ectx args)"
    unfolding cominitTpmUnsealBlob_def cominitTpmUnseal_def unseal_session_def cominitTpmLoadBlob_def
      cominitTpmLoadPrimaryHandle_def policy_pcr_def cominitSecurememoryEsysUnseal_def cominitKeyringAddUserKey_def
    by (auto split: option.split sum.split intro!: emits_intros simp: writes_nothing_def)
  show "emits writes_nothing (cominitCryptsetupOpenLuksVolume cfg dev)"
    unfolding cominitCryptsetupOpenLuksVolume_def cominitSubprocessSpawn_def child_exec_def
    by (auto split: option.split intro!: emits_intros simp: writes_nothing_def)
qed

text \<open>Every write from one world to the next asks for the passphrase: generated in the run, sealed in the
  object created last, whose parts are what the blob holds; unless the keyring did not give it.\<close>
definition key_fed :: "config \<Rightarrow> world \<Rightarrow> world \<Rightarrow> bool" where
  "key_fed cfg w w' \<longleftrightarrow> (\<exists>ext. trace w' = trace w @ ext \<and> (\<forall>fd d n r. (Fs (Write fd d n), r) \<in> set ext \<longrightarrow>
     n = COMINIT_PASSPHRASE_SIZE \<and> n \<le> length d \<and> key_stored cfg (trace w') (take n d)
     \<or> n = size_t_of (- 1) \<and> key_lost ext))"

lemma key_fed_nothing: "appended writes_nothing w w' \<Longrightarrow> key_fed cfg w w'"
  by (force simp: key_fed_def appended_def list_all_iff writes_nothing_def)

lemma key_fed_before:
  assumes "appended writes_nothing w v" and "key_fed cfg v w'"
  shows "key_fed cfg w w'"
proof -
  from assms obtain x y where xy: "trace v = trace w @ x" "list_all writes_nothing x" "trace w' = trace v @ y"
    "\<forall>fd d n r. (Fs (Write fd d n), r) \<in> set y \<longrightarrow> n = COMINIT_PASSPHRASE_SIZE \<and> n \<le> length d
       \<and> key_stored cfg (trace w') (take n d) \<or> n = size_t_of (- 1) \<and> key_lost y"
    by (auto simp: appended_def key_fed_def)
  have "(Fs (Write fd d n), r) \<in> set y" if "(Fs (Write fd d n), r) \<in> set (x @ y)" for fd d n r
    using that xy(2) by (auto simp: list_all_iff writes_nothing_def)
  with xy key_lost_mono [of y "x @ y"] show ?thesis unfolding key_fed_def by (intro exI [of _ "x @ y"]) fastforce
qed

lemma key_fed_format:
  assumes "key_added cfg k (trace w) pw" and "fed_by pw w w'"
  shows "key_fed cfg w w'"
proof -
  from assms(2) obtain x where x: "trace w' = trace w @ x" "list_all unremembered x"
    "\<forall>fd d n r. (Fs (Write fd d n), r) \<in> set x \<longrightarrow> asks_for pw x d n" by (auto simp: fed_by_def)
  then have "key_stored cfg (trace w') pw" using assms(1) by (auto simp: key_added_def intro: key_stored_append)
  moreover from this have "length pw = COMINIT_PASSPHRASE_SIZE" by (rule key_stored_length)
  ultimately have "n = COMINIT_PASSPHRASE_SIZE \<and> n \<le> length d \<and> key_stored cfg (trace w') (take n d)
      \<or> n = size_t_of (- 1) \<and> key_lost x" if "(Fs (Write fd d n), r) \<in> set x" for fd d n r
    using x(3) that by (fastforce simp: asks_for_def)
  with x(1) show ?thesis unfolding key_fed_def by blast
qed

lemma key_fed_after:
  assumes "key_fed cfg w v" and "trace w' = trace v \<or> trace w' = trace v @ [(Fs (Umount p), r)]"
  shows "key_fed cfg w w'"
proof (cases "trace w' = trace v")
  case False
  with assms(2) have w': "trace w' = trace v @ [(Fs (Umount p), r)]" by simp
  have stored: "key_stored cfg (trace w') d" if "key_stored cfg (trace v) d" for d
    using that unfolding w' by (rule key_stored_append) (simp add: unremembered_def)
  from assms(1) obtain x where x: "trace v = trace w @ x" "\<forall>fd d n r. (Fs (Write fd d n), r) \<in> set x \<longrightarrow>
      n = COMINIT_PASSPHRASE_SIZE \<and> n \<le> length d \<and> key_stored cfg (trace v) (take n d) \<or> n = size_t_of (- 1) \<and> key_lost x"
    by (auto simp: key_fed_def)
  with w' stored key_lost_mono [of x "x @ [(Fs (Umount p), r)]"] show ?thesis
    unfolding key_fed_def by (intro exI [of _ "x @ [(Fs (Umount p), r)]"]) fastforce
qed (use assms(1) in \<open>simp add: key_fed_def\<close>)

lemma halted_feeds_nothing: "emits K m \<Longrightarrow> status w \<noteq> Running \<Longrightarrow> wp m (\<lambda>_. key_fed cfg w) w"
  by (rule wpI) (auto simp: key_fed_def dest: emitsD(4))

lemma protect_blob_fed:
  assumes "tpm_faithful cfg (env w)" "blob_faithful (env w)" "keyring_faithful (env w)"
    and sel: "cominitTpmSelectPcr args (replicate (pcr_select_max cfg) 0) = Inr sel"
  shows "wp (protect_blob cfg ectx args b) (\<lambda>_. key_fed cfg w) w"
proof (cases "b = BlobIsEmpty \<and> status w = Running")
  case False
  show ?thesis
  proof (cases "status w = Running")
    case True
    with False have "emits writes_nothing (protect_blob cfg ectx args b)"
      unfolding protect_blob_def cominitTpmSetupSecureStorage_def
      by (auto split: cominitBlobState_t.split intro!: emits_intros blob_writes_nothing)
    then show ?thesis by (rule wp_mono [OF emits_appended key_fed_nothing])
  qed (rule halted_feeds_nothing [OF emits_protect_blob])
next
  case True
  then have run: "status w = Running" and b: "b = BlobIsEmpty" by auto
  have feeds: "wp (do { r \<leftarrow> cominitTpmSetupSecureStorage cfg args True;
        return (if r \<noteq> EXIT_SUCCESS then TpmFailure else Unsealed) }) (\<lambda>_. key_fed cfg v) v"
    if "status v = Running" "env v = env w" "key_added cfg n (trace v) pw" for v n pw
    by (rule wp_mono [OF fed_bind_emits [OF setup_storage_writes]])
      (use that assms(3) in \<open>auto intro: key_fed_format emits_intros\<close>)
  have unseals: "wp (do { u \<leftarrow> cominitTpmUnsealBlob cfg ectx args;
        if u = Unsealed then do { r \<leftarrow> cominitTpmSetupSecureStorage cfg args True;
          return (if r \<noteq> EXIT_SUCCESS then TpmFailure else u) } else return u }) (\<lambda>_. key_fed cfg v) v"
    if "status v = Running" "env v = env w" "key_stored cfg (trace v) pw" for v pw
  proof -
    have "wp (cominitTpmUnsealBlob cfg ectx args) (\<lambda>s v'. appended writes_nothing v v' \<and> status v' = Running
       \<and> env v' = env v \<and> (s = Unsealed \<longrightarrow> key_added cfg (length (trace v)) (trace v') pw)) v"
      using unseal_blob_adds [OF that(1) _ _ that(3) sel, of ectx] that(2) assms
      by (subst wp_conj) (simp add: emits_appended blob_writes_nothing)
    then show ?thesis
    proof (intro vcg_bind, elim wp_mono conjE)
      fix u v' assume v': "appended writes_nothing v v'" "status v' = Running" "env v' = env v"
        and added: "u = Unsealed \<longrightarrow> key_added cfg (length (trace v)) (trace v') pw"
      show "wp (if u = Unsealed then do { r \<leftarrow> cominitTpmSetupSecureStorage cfg args True;
          return (if r \<noteq> EXIT_SUCCESS then TpmFailure else u) } else return u) (\<lambda>_. key_fed cfg v) v'"
      proof (cases "u = Unsealed")
        case True
        have "wp (do { r \<leftarrow> cominitTpmSetupSecureStorage cfg args True;
            return (if r \<noteq> EXIT_SUCCESS then TpmFailure else Unsealed) }) (\<lambda>_. key_fed cfg v) v'"
          by (rule wp_mono [OF feeds key_fed_before [OF v'(1)]]) (use v' added that(2) True in auto)
        with True show ?thesis by (simp only: if_True simp_thms)
      next
        case False
        with v'(1) show ?thesis by (simp add: wp_return key_fed_nothing)
      qed
    qed
  qed
  have "wp (cominitTpmSealBlob cfg ectx args) (\<lambda>s v. appended writes_nothing w v \<and> (s = Sealed \<longrightarrow>
      status v = Running \<longrightarrow> env v = env w \<and> (\<exists>pw. key_stored cfg (trace v) pw)) \<and> s \<noteq> Unsealed) w"
    using seal_blob_stored [OF run assms(1) sel] returns_wp [OF seal_blob_states]
    by (simp add: wp_conj emits_appended blob_writes_nothing)
  then show ?thesis
    unfolding protect_blob_def b cominitBlobState_t.case
  proof (intro vcg_bind, elim wp_mono conjE)
    fix s v assume v: "appended writes_nothing w v" "s \<noteq> Unsealed"
      and stored: "s = Sealed \<longrightarrow> status v = Running \<longrightarrow> env v = env w \<and> (\<exists>pw. key_stored cfg (trace v) pw)"
    let ?rest = "do { u \<leftarrow> (if s = Sealed then cominitTpmUnsealBlob cfg ectx args else return s);
        if u = Unsealed then do { r \<leftarrow> cominitTpmSetupSecureStorage cfg args True;
          return (if r \<noteq> EXIT_SUCCESS then TpmFailure else u) } else return u }"
    have "wp ?rest (\<lambda>_. key_fed cfg v) v"
    proof (cases "s = Sealed \<and> status v = Running")
      case True
      with stored obtain pw where "env v = env w" "key_stored cfg (trace v) pw" by blast
      with unseals [of v pw] True show ?thesis by simp
    next
      case False
      have "emits (tpm_event cfg) ?rest" by (auto intro!: emits_intros calm_tpm [OF emits_unseal_blob])
      with False v(2) halted_feeds_nothing [OF this, of v] show ?thesis
        by (cases "s = Sealed") (simp_all add: wp_bind wp_return key_fed_def)
    qed
    then show "wp ?rest (\<lambda>_. key_fed cfg w) v" by (rule wp_mono) (rule key_fed_before [OF v(1)])
  qed
qed

lemma selection_exists:
  assumes "\<forall>p \<in> sealed_pcrs args. p < 8 * pcr_select_max cfg"
  obtains sel where "cominitTpmSelectPcr args (replicate (pcr_select_max cfg) 0) = Inr sel"
  using select_pcr_exact [of args "pcr_select_max cfg"] assms by auto

lemma protect_feeds_key:
  assumes "tpm_faithful cfg (env w)" "blob_faithful (env w)" "keyring_faithful (env w)"
    and sel: "cominitTpmSelectPcr args (replicate (pcr_select_max cfg) 0) = Inr sel"
  shows "wp (cominitTpmProtectData cfg ctx args) (\<lambda>_. key_fed cfg w) w"
proof -
  have first: "wp (cominitTpmSetupBlob args) (\<lambda>_ v. appended writes_nothing w v \<and> env v = env w) w"
    by (rule wpI) (use wp_run_state [OF emits_appended [OF blob_writes_nothing(1)]] emitsD(1) [OF blob_writes_nothing(1)] in blast)
  have protect: "wp (protect_blob cfg ectx args b) (\<lambda>_. key_fed cfg w) v" if "appended writes_nothing w v" "env v = env w" for ectx b v
    by (rule wp_mono [OF protect_blob_fed [OF _ _ _ sel]]) (use that assms in \<open>auto intro: key_fed_before\<close>)
  have finish: "wp (do { cominitTpmUnmountBlob; return s }) (\<lambda>_. key_fed cfg w) v" if "key_fed cfg w v" for s v
    using that by (auto simp: wp_simps cominitTpmUnmountBlob_def intro: key_fed_after)
  show ?thesis
    unfolding cominitTpmProtectData_def
    by (rule vcg_bind, rule wp_mono [OF first], elim conjE, rule vcg_bind)
      (rule wp_mono [OF protect], assumption, assumption, rule finish)
qed

text \<open>C8: The passphrase of the secure storage from its generation to cryptsetup. If the TPM unseals what
  was sealed, the blob is read as it was written and the keyring returns the key added or fails, then
  whatever protecting the data writes to a subprocess is exactly the passphrase of 32 bytes that the random
  generator delivered in this run and that is sealed in the object whose parts are in the blob, from
  which the next boot unseals it. There is one other call: only if the keyring reported a failure in the same
  run, a write of \<^verbatim>\<open>SIZE_MAX\<close> bytes is asked for, its code of -1 taken as a size, which no buffer has.\<close>
theorem luks_passphrase_sealed:
  assumes "tpm_faithful cfg (env w)" "blob_faithful (env w)" "keyring_faithful (env w)"
    and "\<forall>p \<in> sealed_pcrs args. p < 8 * pcr_select_max cfg"
  shows "wp (cominitTpmProtectData cfg ctx args) (\<lambda>_. key_fed cfg w) w"
proof -
  obtain sel where "cominitTpmSelectPcr args (replicate (pcr_select_max cfg) 0) = Inr sel"
    using assms(4) by (rule selection_exists)
  with assms(1-3) show ?thesis by (rule protect_feeds_key)
qed

text \<open>A machine with an empty blob partition on which everything works: it remembers what it was given.\<close>
fun remembering_env :: "config \<Rightarrow> event list \<Rightarrow> call \<Rightarrow> reply" where
  "remembering_env cfg h (Tpm (Esys_Create _ _ _ _ _ _)) =
     ok\<lparr>bytes := replicate (sizeof_public cfg) 1, bytes2 := replicate (sizeof_private cfg) 2\<rparr>"
| "remembering_env cfg h (Tpm (Esys_Unseal _ _)) = ok\<lparr>bytes := (case sealed_as (secrets_of h) of None \<Rightarrow> [] | Some (d, _) \<Rightarrow> d)\<rparr>"
| "remembering_env cfg h (Stream (Fread n)) = ok\<lparr>rc := int n, bytes := take n (drop
     (case rev h of (Stream (Fread m), _) # _ \<Rightarrow> m | _ \<Rightarrow> 0) (case blob (secrets_of h) of None \<Rightarrow> [] | Some d \<Rightarrow> d))\<rparr>"
| "remembering_env cfg h (Key (Keyctl_read _ _)) = (case rev h of
      (Key (Keyctl_search name), _) # _ \<Rightarrow>
        (case added (secrets_of h) name of None \<Rightarrow> ok\<lparr>rc := - 1\<rparr> | Some k \<Rightarrow> ok\<lparr>rc := int (length k), bytes := k\<rparr>)
    | _ \<Rightarrow> ok\<lparr>rc := - 1\<rparr>)"
| "remembering_env cfg h (Pk (Drbg_random n)) = ok\<lparr>bytes := map of_nat [1 ..< Suc n]\<rparr>"
| "remembering_env cfg h (Fs (Access _)) = (if blob (secrets_of h) = None then ok\<lparr>rc := - 1, err := ENOENT\<rparr> else ok)"
| "remembering_env cfg h (Mem (Calloc _)) = ok\<lparr>rc := 1\<rparr>"
| "remembering_env cfg h (Stream _) = ok\<lparr>rc := 1\<rparr>"
| "remembering_env cfg h (Proc Fork) = ok\<lparr>rc := 7\<rparr>"
| "remembering_env cfg h _ = ok"

lemma remembering_env_faithful:
  "tpm_faithful cfg (remembering_env cfg)" "blob_faithful (remembering_env cfg)" "keyring_faithful (remembering_env cfg)"
  by (auto simp: tpm_faithful_def blob_faithful_def keyring_faithful_def secrets_of_append ok_def)

text \<open>Structures of two and three bytes, to keep the evaluation short.\<close>
definition small_config :: config where
  "small_config = default_config\<lparr>sizeof_public := 2, sizeof_private := 3\<rparr>"

text \<open>What was written to descriptors: the buffers and the sizes asked for.\<close>
definition fed :: "event list \<Rightarrow> (byte list \<times> nat) list" where
  "fed h = List.map_filter (\<lambda>e. case e of (Fs (Write _ d n), _) \<Rightarrow> Some (d, n) | _ \<Rightarrow> None) h"

definition first_boot_args :: cominitCliArgs_t where
  "first_boot_args = (seal_args [4])\<lparr>devNodeBlob := ''/dev/b'', devNodeCrypt := ''/dev/c''\<rparr>"

text \<open>The first boot of this machine, which formats the storage.\<close>
definition first_boot :: "cominitTpmState_t \<times> world" where
  "first_boot = run_state (cominitTpmProtectData small_config (tpmCtx_unset\<lparr>esysCtx := To 1\<rparr>) first_boot_args)
     (start (remembering_env small_config) 0)"

lemma storage_fed: "fed (trace (snd first_boot)) = [(map of_nat [1 ..< 33], COMINIT_PASSPHRASE_SIZE)]"
  by code_simp

lemma first_boot_pcrs: "\<forall>p \<in> sealed_pcrs first_boot_args. p < 8 * pcr_select_max small_config"
  by (simp add: sealed_pcrs_def first_boot_args_def seal_args_def small_config_def default_config_def)

theorem luks_passphrase_sealed_witness:
  "wp (cominitTpmProtectData small_config (tpmCtx_unset\<lparr>esysCtx := To 1\<rparr>) first_boot_args)
     (\<lambda>_ w'. key_fed small_config (start (remembering_env small_config) 0) w' \<and> fed (trace w') = [(map of_nat [1 ..< 33], COMINIT_PASSPHRASE_SIZE)])
     (start (remembering_env small_config) 0)"
proof -
  from remembering_env_faithful [of small_config] first_boot_pcrs
  have "wp (cominitTpmProtectData small_config (tpmCtx_unset\<lparr>esysCtx := To 1\<rparr>) first_boot_args)
      (\<lambda>_. key_fed small_config (start (remembering_env small_config) 0)) (start (remembering_env small_config) 0)"
    by (intro luks_passphrase_sealed) (simp_all add: start_simps)
  then show ?thesis unfolding wp_conj using storage_fed by (simp add: wp_def split_def first_boot_def)
qed

section \<open>The boots after the first\<close>

text \<open>Documented behaviour of access: on the mounted blob partition it does not report that a blob
  written before does not exist.\<close>
definition access_faithful :: "cominitCliArgs_t \<Rightarrow> (event list \<Rightarrow> call \<Rightarrow> reply) \<Rightarrow> bool" where
  "access_faithful args E \<longleftrightarrow> (\<forall>h m. blob (secrets_of h) \<noteq> None \<longrightarrow> rc m = 0 \<longrightarrow>
     (let a = E (h @ [(Fs (Mount (devNodeBlob args) COMINIT_TPM_MNT_PT (Some ''ext4'') [MS_NOEXEC]), m)]) (Fs (Access blob_path))
      in rc a \<noteq> 0 \<longrightarrow> err a \<noteq> ENOENT))"

text \<open>Calls that write nothing to a descriptor and leave the sealed object and the blob as they are.\<close>
definition keeps_blob :: "event \<Rightarrow> bool" where
  "keeps_blob e \<longleftrightarrow> writes_nothing e \<and> (\<forall>s. sealed_as (remember s e) = sealed_as s \<and> blob (remember s e) = blob s)"

lemma foldl_keeps_blob:
  "list_all keeps_blob x \<Longrightarrow> sealed_as (foldl remember s x) = sealed_as s \<and> blob (foldl remember s x) = blob s"
  by (induction x arbitrary: s) (simp_all add: keeps_blob_def)

lemma key_stored_kept: "key_stored cfg (trace w) pw \<Longrightarrow> appended keeps_blob w w' \<Longrightarrow> key_stored cfg (trace w') pw"
  unfolding key_stored_def appended_def
  by (elim exE conjE, simp, intro exI, erule key_object_append) (simp_all add: foldl_keeps_blob)

lemma keeps_blob_fs:
  "keeps_blob (Fs (Mkdir p mode), r)" "keeps_blob (Fs (Stat p), r)" "keeps_blob (Fs (Mount d p fs fl), r)"
  "keeps_blob (Fs (Access p), r)" "keeps_blob (Fs (Umount p), r)"
  by (simp_all add: keeps_blob_def writes_nothing_def)

lemma mkdir_found:
  assumes "status w = Running"
  shows "wp (cominitMkdir d mode) (\<lambda>_ v. status v = Running \<and> env v = env w \<and> appended keeps_blob w v) w"
proof -
  have loop: "wp (mkdir_loop mode cur ts) (\<lambda>_ v. status v = Running \<and> env v = env w \<and> appended keeps_blob w v) v"
    if "status v = Running" "env v = env w" "appended keeps_blob w v" for cur ts v
    using that
  proof (induction ts arbitrary: cur v)
    case (Cons t ts)
    from Cons.prems have "appended keeps_blob w (v\<lparr>trace := trace v @ [(Fs (Mkdir p mode), r)]\<rparr>)" for p r
      by (auto simp: appended_def keeps_blob_fs)
    with Cons show ?case by (auto intro!: vcg)
  qed (simp add: wp_return)
  show ?thesis
    unfolding cominitMkdir_def
    by (rule vcg_bind, rule wp_mono [OF loop [OF assms]])
      (auto intro!: vcg simp: appended_def keeps_blob_fs)
qed

lemma setup_blob_found:
  assumes "status w = Running" and "access_faithful args (env w)" and "key_stored cfg (trace w) pw"
  shows "wp (cominitTpmSetupBlob args) (\<lambda>b v. status v = Running \<and> env v = env w \<and> appended keeps_blob w v \<and> b \<noteq> BlobIsEmpty) w"
proof -
  have mkdir: "wp (cominitMkdir COMINIT_TPM_MNT_PT S_IRWXU) Q w"
    if "\<And>d v. status v = Running \<Longrightarrow> env v = env w \<Longrightarrow> appended keeps_blob w v \<Longrightarrow> Q d v" for Q
    by (rule wp_mono [OF mkdir_found [OF assms(1)]]) (use that in blast)
  have found: "rc a = 0 \<or> err a \<noteq> ENOENT"
    if "appended keeps_blob w v" "rc m = 0" "answered (env w) (trace v @
        [(Fs (Mount (devNodeBlob args) COMINIT_TPM_MNT_PT (Some ''ext4'') [MS_NOEXEC]), m)]) (Fs (Access blob_path)) a" for v m a
    using that assms(2) key_stored_kept [OF assms(3) that(1)]
    by (auto simp: access_faithful_def answered_def key_stored_def key_object_def Let_def)
  show ?thesis
    unfolding cominitTpmSetupBlob_def
    by (auto intro!: vcg_if vcg_bind vcg_return mkdir vcg_sys_answered assms(1) dest: found
        simp: appended_def keeps_blob_fs split: if_splits)
qed

lemma protect_found_keeps:
  assumes "b \<noteq> BlobIsEmpty"
  shows "emits keeps_blob (protect_blob cfg ectx args b)"
proof -
  have "emits keeps_blob (cominitTpmUnsealBlob cfg ectx args)"
    unfolding cominitTpmUnsealBlob_def cominitTpmUnseal_def unseal_session_def cominitTpmLoadBlob_def
      cominitTpmLoadPrimaryHandle_def policy_pcr_def cominitSecurememoryEsysUnseal_def cominitKeyringAddUserKey_def
    by (auto split: option.split sum.split intro!: emits_intros simp: keeps_blob_def writes_nothing_def)
  moreover have "emits keeps_blob (cominitCryptsetupOpenLuksVolume cfg dev)" for dev
    unfolding cominitCryptsetupOpenLuksVolume_def cominitSubprocessSpawn_def child_exec_def
    by (auto split: option.split intro!: emits_intros simp: keeps_blob_def writes_nothing_def)
  ultimately show ?thesis
    using assms unfolding protect_blob_def cominitTpmSetupSecureStorage_def
    by (auto split: cominitBlobState_t.split intro!: emits_intros)
qed

lemma protect_found_enrols:
  assumes "status w = Running" and "tpm_faithful cfg (env w)" and "blob_faithful (env w)"
    and "key_stored cfg (trace w) pw" and "cominitTpmSelectPcr args (replicate (pcr_select_max cfg) 0) = Inr sel"
    and "b \<noteq> BlobIsEmpty"
  shows "wp (protect_blob cfg ectx args b) (\<lambda>s v. s = Unsealed \<longrightarrow> key_enrolled (length (trace w)) (trace v) pw) w"
proof (cases b)
  case BlobExists
  have opens: "wp (cominitTpmSetupSecureStorage cfg args False) (\<lambda>_ v'. key_enrolled n (trace v') pw) v"
    if "key_enrolled n (trace v) pw" for n v
  proof -
    have "emits (\<lambda>_. True) (cominitTpmSetupSecureStorage cfg args False)"
      using emits_mono [OF blob_writes_nothing(4)] by (simp add: cominitTpmSetupSecureStorage_def)
    then show ?thesis
      by (rule wp_mono [OF emits_appended]) (use that key_enrolled_append in \<open>auto simp: appended_def\<close>)
  qed
  have "wp (cominitTpmUnsealBlob cfg ectx args) (\<lambda>s v. s = Unsealed \<longrightarrow> key_enrolled (length (trace w)) (trace v) pw) w"
    by (rule wp_mono [OF unseal_blob_adds [OF assms(1-5)]]) (simp add: key_added_def)
  then show ?thesis
    unfolding protect_blob_def BlobExists cominitBlobState_t.case
    by (intro vcg_bind, elim wp_mono) (auto intro!: vcg_if vcg_return vcg_bind wp_mono [OF opens])
qed (use assms(6) in \<open>simp_all add: protect_blob_def wp_return\<close>)

text \<open>One boot with the passphrase stored: it keeps what is stored, writes to no subprocess, and unseals the passphrase
  or fails.\<close>
lemma boot_with_key:
  assumes "status w = Running" and "tpm_faithful cfg (env w)" and "blob_faithful (env w)" and "access_faithful args (env w)"
    and "key_stored cfg (trace w) pw" and sel: "cominitTpmSelectPcr args (replicate (pcr_select_max cfg) 0) = Inr sel"
  shows "wp (cominitTpmProtectData cfg ctx args) (\<lambda>s v. env v = env w \<and> appended keeps_blob w v
     \<and> (s = Unsealed \<longrightarrow> key_enrolled (length (trace w)) (trace v) pw)) w"
proof -
  have protect: "wp (protect_blob cfg ectx args b) (\<lambda>s v'. env v' = env w \<and> appended keeps_blob w v'
      \<and> (s = Unsealed \<longrightarrow> key_enrolled (length (trace w)) (trace v') pw)) v"
    if v: "status v = Running" "env v = env w" "appended keeps_blob w v" "b \<noteq> BlobIsEmpty" for ectx b v
  proof -
    have stored: "key_stored cfg (trace v) pw" by (rule key_stored_kept [OF assms(5) v(3)])
    have later: "key_enrolled (length (trace w)) h pw" if "key_enrolled (length (trace v)) h pw" for h
      using that v(3) by (auto simp: appended_def elim: key_enrolled_earlier)
    have "wp (protect_blob cfg ectx args b) (\<lambda>_ v'. env v' = env v \<and> appended keeps_blob v v') v"
      by (rule wpI) (use emitsD(1) [OF protect_found_keeps [OF v(4)]]
          wp_run_state [OF emits_appended [OF protect_found_keeps [OF v(4)]]] in blast)
    moreover have "wp (protect_blob cfg ectx args b) (\<lambda>s v'. s = Unsealed \<longrightarrow> key_enrolled (length (trace v)) (trace v') pw) v"
      using v assms(2,3) by (intro protect_found_enrols [OF _ _ _ stored sel]) auto
    ultimately have "wp (protect_blob cfg ectx args b) (\<lambda>s v'. (env v' = env v \<and> appended keeps_blob v v')
        \<and> (s = Unsealed \<longrightarrow> key_enrolled (length (trace v)) (trace v') pw)) v"
      by (simp add: wp_conj)
    then show ?thesis by (rule wp_mono) (use v(2,3) later in \<open>auto intro: appended_trans\<close>)
  qed
  show ?thesis
    unfolding cominitTpmProtectData_def cominitTpmUnmountBlob_def
    by (rule vcg_bind, rule wp_mono [OF setup_blob_found [OF assms(1,4,5)]], elim conjE, rule vcg_bind,
        rule wp_mono [OF protect], assumption+)
      (auto simp: wp_simps appended_def keeps_blob_fs key_enrolled_append)
qed

text \<open>Any number of boots, whatever becomes of each of them.\<close>
inductive boots :: "config \<Rightarrow> cominitCliArgs_t \<Rightarrow> world \<Rightarrow> world \<Rightarrow> bool" for cfg args where
  none: "boots cfg args w w"
| again: "boots cfg args w v \<Longrightarrow> run_state (cominitTpmProtectData cfg ctx args) (v\<lparr>status := Running\<rparr>) = (s, v') \<Longrightarrow> boots cfg args w v'"

lemma boots_keep_key:
  assumes "boots cfg args w v" and "tpm_faithful cfg (env w)" and "blob_faithful (env w)" and "access_faithful args (env w)"
    and "key_stored cfg (trace w) pw" and "cominitTpmSelectPcr args (replicate (pcr_select_max cfg) 0) = Inr sel"
  shows "env v = env w \<and> key_stored cfg (trace v) pw"
  using assms
proof (induction rule: boots.induct)
  case (again w v ctx s v')
  let ?v = "v\<lparr>status := Running\<rparr>"
  have "env v' = env ?v \<and> appended keeps_blob ?v v'"
    using wp_run_state [OF boot_with_key [of ?v cfg args pw sel ctx] again.hyps(2)] again by simp
  with again key_stored_kept [of cfg ?v pw v'] show ?case by simp
qed simp

text \<open>C9: The passphrase over the boots. After a boot that formatted the secure storage, and any number of further
  boots however they end, a boot never writes to a subprocess again, and it ends in Unsealed only if it
  added to the keyring the very passphrase the storage was formatted with.\<close>
theorem passphrase_over_boots:
  assumes "tpm_faithful cfg (env w)" "blob_faithful (env w)" "keyring_faithful (env w)" "access_faithful args (env w)"
    and "\<forall>p \<in> sealed_pcrs args. p < 8 * pcr_select_max cfg"
    and first: "run_state (cominitTpmProtectData cfg ctx args) w = (s, w1)"
      "(Fs (Write fd d COMINIT_PASSPHRASE_SIZE), r) \<in> set (drop (length (trace w)) (trace w1))"
    and boots: "boots cfg args w1 v"
    and last: "run_state (cominitTpmProtectData cfg ctx' args) (v\<lparr>status := Running\<rparr>) = (s', v')"
  shows "(s' = Unsealed \<longrightarrow> key_enrolled (length (trace v)) (trace v') (take COMINIT_PASSPHRASE_SIZE d))
    \<and> list_all writes_nothing (drop (length (trace v)) (trace v'))"
proof -
  obtain sel where sel: "cominitTpmSelectPcr args (replicate (pcr_select_max cfg) 0) = Inr sel"
    using assms(5) by (rule selection_exists)
  have env: "env w1 = env w" using emitsD(1) [OF protect_data.footprint first(1)] .
  have "wp (cominitTpmProtectData cfg ctx args) (\<lambda>_. key_fed cfg w) w" by (rule protect_feeds_key [OF assms(1-3) sel])
  from wp_run_state [OF this first(1)] obtain ext where ext: "trace w1 = trace w @ ext"
    "\<forall>fd d n r. (Fs (Write fd d n), r) \<in> set ext \<longrightarrow> n = COMINIT_PASSPHRASE_SIZE \<and> n \<le> length d
       \<and> key_stored cfg (trace w1) (take n d) \<or> n = size_t_of (- 1) \<and> key_lost ext" by (auto simp: key_fed_def)
  define pw where "pw = take COMINIT_PASSPHRASE_SIZE d"
  have "COMINIT_PASSPHRASE_SIZE \<noteq> size_t_of (- 1)" by (simp add: size_t_of_def lits)
  with first(2) ext have "key_stored cfg (trace w1) pw" by (fastforce simp: pw_def)
  with boots_keep_key [OF boots _ _ _ _ sel] env assms have v: "env v = env w" "key_stored cfg (trace v) pw" by auto
  let ?v = "v\<lparr>status := Running\<rparr>"
  have "appended keeps_blob ?v v' \<and> (s' = Unsealed \<longrightarrow> key_enrolled (length (trace ?v)) (trace v') pw)"
    using wp_run_state [OF boot_with_key [of ?v cfg args pw sel ctx'] last] sel v assms by simp
  then show ?thesis by (auto simp: appended_def keeps_blob_def list_all_iff pw_def)
qed

text \<open>The second one, which finds the blob.\<close>
definition second_boot :: "cominitTpmState_t \<times> world" where
  "second_boot = run_state (cominitTpmProtectData small_config (tpmCtx_unset\<lparr>esysCtx := To 1\<rparr>) first_boot_args)
     ((snd first_boot)\<lparr>status := Running\<rparr>)"

lemma second_boot_unseals: "fst second_boot = Unsealed"
  by code_simp

lemma remembering_access_faithful: "access_faithful args (remembering_env cfg)"
  by (auto simp: access_faithful_def secrets_of_append ok_def Let_def)

lemma fed_written: "(d, n) \<in> set (fed h) \<Longrightarrow> \<exists>fd r. (Fs (Write fd d n), r) \<in> set h"
  by (auto simp: fed_def map_filter_def split: call.splits fs_call.splits) blast+

theorem passphrase_over_boots_witness:
  "fst second_boot = Unsealed \<and> fed (trace (snd first_boot)) = [(map of_nat [1 ..< 33], COMINIT_PASSPHRASE_SIZE)]
   \<and> key_enrolled (length (trace (snd first_boot))) (trace (snd second_boot)) (map of_nat [1 ..< 33])
   \<and> list_all writes_nothing (drop (length (trace (snd first_boot))) (trace (snd second_boot)))"
proof -
  have "(map of_nat [1 ..< 33], COMINIT_PASSPHRASE_SIZE) \<in> set (fed (trace (snd first_boot)))"
    by (simp only: storage_fed) simp
  then obtain fd r where
    written: "(Fs (Write fd (map of_nat [1 ..< 33]) COMINIT_PASSPHRASE_SIZE), r) \<in> set (trace (snd first_boot))"
    by (blast dest: fed_written)
  have whole: "take COMINIT_PASSPHRASE_SIZE (map of_nat [Suc 0 ..< 33] :: byte list) = map of_nat [Suc 0 ..< 33]"
    by (simp add: lits)
  show ?thesis
    using passphrase_over_boots [of small_config "start (remembering_env small_config) 0" first_boot_args
        "tpmCtx_unset\<lparr>esysCtx := To 1\<rparr>" "fst first_boot" "snd first_boot" fd
        "map of_nat [1 ..< 33]" r "snd first_boot"
        "tpmCtx_unset\<lparr>esysCtx := To 1\<rparr>" "fst second_boot" "snd second_boot"]
      remembering_env_faithful [of small_config] remembering_access_faithful first_boot_pcrs boots.none
      storage_fed second_boot_unseals written
    by (simp add: whole start_simps first_boot_def [symmetric] second_boot_def [symmetric] prod_eq_iff)
qed

end
