(* ===== verification/Meta_Keys.thy ===== *)
theory Meta_Keys
  imports Meta_Format
begin

text \<open>
  The keys in dm-integrity options: an option like \<^verbatim>\<open>internal_hash:hmac(sha256)::description\<close> has the key of
  that description put in its place, in hexadecimal.
\<close>

section \<open>Keys in hexadecimal\<close>

text \<open>Reading two digits for each byte.\<close>
fun unhex_bytes :: "string \<Rightarrow> byte list option" where
  "unhex_bytes [] = Some []"
| "unhex_bytes [c] = None"
| "unhex_bytes (c # d # s) =
     (case (unhex [c, d], unhex_bytes s) of (Some n, Some bs) \<Rightarrow> Some (of_nat n # bs) | _ \<Rightarrow> None)"

definition hex_bytes :: "byte list \<Rightarrow> string" where
  "hex_bytes bs = concat (map (\<lambda>b. hexw 2 (unat b)) bs)"

lemma unhex_hex_bytes: "unhex_bytes (hex_bytes bs) = Some bs"
proof (induction bs)
  case (Cons b bs)
  have "unhex (hexw 2 (unat b)) = Some (unat b)" by (rule hex.dec_enc) simp
  then have "unhex [hex_digit (unat b div 16 mod 16), hex_digit (unat b mod 16)] = Some (unat b)"
    by (simp add: numeral_2_eq_2)
  with Cons show ?case by (simp add: hex_bytes_def numeral_2_eq_2)
qed (simp add: hex_bytes_def)

lemma length_hex_text [simp]: "length (hex_bytes bs) = 2 * length bs"
  unfolding hex_bytes_def by (induction bs) auto

lemma hex_text_no_nul: "CHR 0x00 \<notin> set (hex_bytes bs)"
proof -
  have "CHR 0x00 \<notin> set ''0123456789abcdef''" by simp
  then have "hex_digit n \<noteq> CHR 0x00" for n
    using nth_mem [of n "''0123456789abcdef''"] by (auto simp: hex_digit_def)
  then have "CHR 0x00 \<noteq> hex_digit n" for n by metis
  then show ?thesis unfolding hex_bytes_def by (induction bs) (simp_all add: numeral_2_eq_2)
qed

text \<open>The zero of a text is overwritten by the text written behind it.\<close>
lemma write_at_behind:
  assumes "off + length h + length t \<le> length d" and "t \<noteq> []"
  shows "write_at (off + length h) t (write_at off (h @ [c]) d) = write_at off (h @ t) d"
proof -
  have "off \<le> length d" "1 \<le> length t" using assms by (auto simp: Suc_le_eq)
  then show ?thesis
    by (cases t) (simp_all add: write_at_def overlay_def ac_simps)
qed

lemma hex_loop_inside:
  "0 < k \<Longrightarrow> i + k \<le> length s \<Longrightarrow> 2 * (i + k) + 1 \<le> length d \<Longrightarrow>
   hex_loop k i d s = return (0, write_at (2 * i) (hex_bytes (take k (drop i s)) @ [CHR 0x00]) d)"
proof (induction k arbitrary: i d)
  case (Suc k)
  let ?h = "hexw 2 (unat (s ! i))"
  have i: "i < length s" "2 * i + 3 \<le> length d" using Suc.prems by auto
  have split: "take (Suc k) (drop i s) = s ! i # take k (drop (Suc i) s)"
    using i(1) by (simp add: Cons_nth_drop_Suc [symmetric])
  show ?case
  proof (cases "k = 0")
    case True
    with i split show ?thesis by (simp add: hex_bytes_def)
  next
    case False
    let ?d = "write_at (2 * i) (?h @ [CHR 0x00]) d"
    let ?t = "hex_bytes (take k (drop (Suc i) s)) @ [CHR 0x00]"
    have "hex_loop k (Suc i) ?d s = return (0, write_at (2 * Suc i) ?t ?d)"
      using Suc.IH [of "Suc i" ?d] False Suc.prems i by simp
    also have "write_at (2 * Suc i) ?t ?d = write_at (2 * i) (?h @ ?t) d"
      using write_at_behind [of "2 * i" ?h ?t d "CHR 0x00"] Suc.prems by simp
    finally show ?thesis using i by (simp add: split hex_bytes_def)
  qed
qed simp

lemma hex_loop_outside:
  assumes "status w = Running"
  shows "0 < k \<Longrightarrow> \<not> (i + k \<le> length s \<and> 2 * (i + k) + 1 \<le> length d) \<Longrightarrow>
     wp (hex_loop k i d s) (\<lambda>_ w'. status w' = Undefined OutOfBounds) w"
proof (induction k arbitrary: i d)
  case (Suc k)
  show ?case
  proof (cases "i < length s \<and> 2 * i + 3 \<le> length d")
    case True
    moreover from this Suc.prems have "0 < k" by (cases k) auto
    ultimately show ?thesis using Suc.IH [of "Suc i" "write_at (2 * i) (hexw 2 (unat (s ! i)) @ [CHR 0x00]) d"] Suc.prems by auto
  next
    case False
    with assms show ?thesis by (auto simp: wp_simps)
  qed
qed simp

lemma bytes_to_hex:
  assumes "0 < n" "n \<le> length s" "2 * n + 1 \<le> length d"
  shows "cominitBytesToHex (Some d) (Some s) n = return (0, Some (overlay (hex_bytes (take n s) @ [CHR 0x00]) d))"
  using assms by (simp add: cominitBytesToHex_def hex_loop_inside)

text \<open>C18: A key written in hexadecimal can be read back. If the source has the given number of bytes and the
  buffer has room for two digits of each and a zero, the conversion succeeds without a call: the buffer
  keeps its size, the digits are followed by a zero and nothing behind it is changed, and decoding the
  text in front of the zero gives the bytes. If the source or the buffer is too small, memory outside of it is
  touched; for no bytes the buffer stays as it is. A missing buffer is refused.\<close>
theorem bytes_to_hex_roundtrip:
  assumes "status w = Running"
  shows "wp (cominitBytesToHex dest src n) (\<lambda>(e, r) w'. case (dest, src) of
      (Some d, Some s) \<Rightarrow>
        if n = 0 then e = 0 \<and> r = dest \<and> w' = w
        else if n \<le> length s \<and> 2 * n + 1 \<le> length d
        then e = 0 \<and> w' = w \<and> (\<exists>h d'. r = Some d' \<and> d' = h @ CHR 0x00 # drop (2 * n + 1) d \<and> length d' = length d
               \<and> length h = 2 * n \<and> CHR 0x00 \<notin> set h \<and> unhex_bytes h = Some (take n s))
        else status w' = Undefined OutOfBounds
    | _ \<Rightarrow> e = - 1 \<and> r = dest \<and> w' = w) w"
proof (cases "dest = None \<or> src = None \<or> n = 0")
  case True
  then show ?thesis by (auto simp: cominitBytesToHex_def wp_simps split: option.split)
next
  case False
  then obtain d s where ds: "dest = Some d" "src = Some s" "0 < n" by auto
  show ?thesis
  proof (cases "n \<le> length s \<and> 2 * n + 1 \<le> length d")
    case True
    with ds show ?thesis
      by (auto simp: bytes_to_hex wp_simps overlay_def hex_text_no_nul unhex_hex_bytes)
  next
    case out: False
    show ?thesis
      using ds out hex_loop_outside [OF assms ds(3), of 0 s d]
      by (auto simp: cominitBytesToHex_def wp_simps elim!: wp_mono)
  qed
qed

theorem bytes_to_hex_roundtrip_witness:
  "wp (cominitBytesToHex (Some ''zzzzzzz'') (Some [170, 187, 204]) 2) (\<lambda>(e, r) w'. e = 0 \<and>
     (\<exists>h. r = Some (h @ CHR 0x00 # ''zz'') \<and> unhex_bytes h = Some [170, 187])) (start (\<lambda>_ _. ok) 0)"
  by (rule wp_mono [OF bytes_to_hex_roundtrip [of "start (\<lambda>_ _. ok) 0"]]) auto

section \<open>Substitution\<close>

text \<open>A keyring with a key for every description, none of them empty or larger than the buffer.\<close>
definition keyring_serves :: "(event list \<Rightarrow> call \<Rightarrow> reply) \<Rightarrow> (string \<Rightarrow> byte list) \<Rightarrow> bool" where
  "keyring_serves E keys \<longleftrightarrow> (\<forall>desc. keys desc \<noteq> [] \<and> length (keys desc) \<le> COMINIT_KEYRING_PAYLOAD_MAX_SIZE
     \<and> (\<forall>h h'. rc (E h (Key (Keyctl_search desc))) \<noteq> - 1
        \<and> rc (E h' (Key (Keyctl_read (rc (E h (Key (Keyctl_search desc)))) COMINIT_KEYRING_PAYLOAD_MAX_SIZE)))
            = int (length (keys desc))
        \<and> bytes (E h' (Key (Keyctl_read (rc (E h (Key (Keyctl_search desc)))) COMINIT_KEYRING_PAYLOAD_MAX_SIZE)))
            = keys desc))"

text \<open>The front of an option that names a key, and the description.\<close>
definition key_parts :: "string \<Rightarrow> (string \<times> string) option" where
  "key_parts opt = (if \<exists>k \<in> set keyOpts. starts_with opt k then
     (case find_sub ''::'' opt of None \<Rightarrow> None
      | Some (front, mark) \<Rightarrow> if length mark > 2 then Some (front, drop 2 mark) else None) else None)"

definition resolved :: "(string \<Rightarrow> byte list) \<Rightarrow> string \<Rightarrow> string" where
  "resolved keys opt = (case key_parts opt of None \<Rightarrow> opt
     | Some (front, desc) \<Rightarrow> front @ '':'' @ hex_bytes (keys desc))"

lemma key_option_resolved:
  assumes keys: "keyring_serves (env w) keys" and run: "status w = Running"
    and parts: "key_parts opt = Some (front, desc)" and len: "length desc < 4095"
  shows "wp (integrity_option opt) (\<lambda>t w'. t = Some (resolved keys opt @ '' '') \<and> status w' = Running
     \<and> env w' = env w) w"
proof -
  have key: "keys desc \<noteq> []" "length (keys desc) \<le> COMINIT_KEYRING_PAYLOAD_MAX_SIZE"
    and E: "\<And>h. rc (env w h (Key (Keyctl_search desc))) \<noteq> - 1"
      "\<And>h h'. rc (env w h' (Key (Keyctl_read (rc (env w h (Key (Keyctl_search desc))))
          COMINIT_KEYRING_PAYLOAD_MAX_SIZE))) = int (length (keys desc))"
      "\<And>h h'. bytes (env w h' (Key (Keyctl_read (rc (env w h (Key (Keyctl_search desc))))
          COMINIT_KEYRING_PAYLOAD_MAX_SIZE))) = keys desc"
    using keys unfolding keyring_serves_def by blast+
  have ov: "overlay (keys desc) (replicate COMINIT_KEYRING_PAYLOAD_MAX_SIZE 0)
      = keys desc @ replicate (COMINIT_KEYRING_PAYLOAD_MAX_SIZE - length (keys desc)) 0"
    by (simp add: overlay_def)
  from parts obtain mark where m: "\<exists>k \<in> set keyOpts. starts_with opt k" "find_sub ''::'' opt = Some (front, mark)"
    "2 < length mark" "desc = drop 2 mark"
    by (auto simp: key_parts_def split: if_splits option.splits)
  have res: "resolved keys opt = front @ '':'' @ hex_bytes (keys desc)" by (simp add: resolved_def parts)
  have one: "\<not> int (length (keys desc)) < 1" using key(1) by (cases "keys desc") auto
  show ?thesis
    unfolding integrity_option_def cominitKeyringGetKey_def res Let_def if_P [OF m(1)] m(2) option.case prod.case
      if_P [OF m(3)] m(4) [symmetric]
    using run key E len one hex_text_no_nul by (simp add: wp_simps ov bytes_to_hex Suc_le_eq overlay_def)
qed

lemma option_resolved:
  assumes keys: "keyring_serves (env w) keys" and run: "status w = Running" and len: "length opt < 4095"
  shows "wp (integrity_option opt) (\<lambda>t w'. t = Some (resolved keys opt @ '' '') \<and> status w' = Running
     \<and> env w' = env w) w"
proof (cases "key_parts opt")
  case None
  then have "plain_option opt" "resolved keys opt = opt"
    by (auto simp: key_parts_def plain_option_def resolved_def split: option.splits if_splits)
  with run show ?thesis by (simp add: plain_option_copied wp_simps)
next
  case (Some p)
  then obtain front desc where p: "key_parts opt = Some (front, desc)" by (cases p) auto
  then obtain mark where "find_sub ''::'' opt = Some (front, mark)" "desc = drop 2 mark"
    by (auto simp: key_parts_def split: if_splits option.splits)
  with find_sub_Some [of "''::''" opt front mark] len have "length desc < 4095" by auto
  with key_option_resolved [OF keys run p] show ?thesis by blast
qed

lemma options_resolved:
  assumes "keyring_serves (env w) keys" and "status w = Running" and "\<forall>opt \<in> set opts. length opt < 4095"
    and "length acc + length (concat (map (\<lambda>opt. resolved keys opt @ '' '') opts)) < COMINIT_DM_TABLE_SIZE_MAX"
  shows "wp (integrity_options acc opts) (\<lambda>t w'. t = Some (acc @ concat (map (\<lambda>opt. resolved keys opt @ '' '') opts))
     \<and> status w' = Running) w"
  using assms
proof (induction opts arbitrary: acc w)
  case Nil
  then show ?case by (simp add: wp_simps)
next
  case (Cons opt opts)
  have "wp (integrity_options (acc @ resolved keys opt @ '' '') opts)
      (\<lambda>t w'. t = Some (acc @ concat (map (\<lambda>opt. resolved keys opt @ '' '') (opt # opts))) \<and> status w' = Running) v"
    if "status v = Running" "env v = env w" for v
    using Cons.IH [of v "acc @ resolved keys opt @ '' ''"] Cons.prems that by simp
  moreover have "Suc (length (resolved keys opt)) < COMINIT_DM_TABLE_SIZE_MAX - length acc"
    using Cons.prems(4) by simp
  ultimately show ?case
    unfolding integrity_options.simps
    using Cons.prems
    by (intro vcg_bind wp_mono [OF option_resolved [where keys = keys]]) (auto simp: wp_simps Let_def)
qed

text \<open>C17: The table made from dm-integrity metadata in the documented format: every option is taken over, those
  that name a key with the key from the keyring in hexadecimal (which can be read back), an option
  \<^verbatim>\<open>block_size:\<close> with the block size is added and counted as one more option, and the size of the device
  is the product of blocks and block size. README.md names another option to be added, \<^verbatim>\<open>data_blocks:\<close>,
  which the code does not generate.\<close>
theorem integrity_table_with_keys:
  assumes "crypt m = COMINIT_CRYPTOPT_INTEGRITY" and opts: "opts \<noteq> []" "\<forall>opt \<in> set opts. word_text opt \<and> length opt < 4095"
    and "bsize < 2 ^ 64" "blocks < 2 ^ 64" and count: "count + 1 < 2 ^ 64"
    and fit: "length (integrity_table (devicePath m) bsize count (map (resolved keys) opts)) < COMINIT_DM_TABLE_SIZE_MAX"
    and keys: "keyring_serves (env w) keys" and run: "status w = Running"
  shows "wp (cominitGenIntegrityDmTbl (Some m) (Some (integrity_text blocks bsize count opts)))
     (\<lambda>(e, r) w'. e = 0 \<and> status w' = Running \<and> r = Some (m\<lparr>dmVerintDataSizeBytes := of_nat blocks * of_nat bsize,
        dmTableVerint := integrity_table (devicePath m) bsize count (map (resolved keys) opts)\<rparr>)) w"
proof -
  have ne: "unwords opts \<noteq> []"
    using opts by (cases opts rule: unwords.cases) (auto simp: word_text_def)
  have toks: "tokens '' '' (unwords opts) = opts" using opts by (intro tokens_unwords) auto
  have opt: "wp (integrity_options [] opts)
      (\<lambda>t w'. t = Some (concat (map (\<lambda>opt. resolved keys opt @ '' '') opts)) \<and> status w' = Running) w"
    using options_resolved [OF keys run, of opts "[]"] opts fit by (simp add: integrity_table_def comp_def)
  show ?thesis
    unfolding cominitGenIntegrityDmTbl_def integrity_text_def prod.case option.case Let_def
    using assms ne toks unat_of_nat_Suc [OF count] fit
    by (auto simp: strtoul_udec integrity_table_def wp_simps comp_def intro!: wp_mono [OF opt])
qed

text \<open>The keyring of the examples: one key, 170 and 187.\<close>
definition key_env :: "event list \<Rightarrow> call \<Rightarrow> reply" where
  "key_env h c = (case c of Key (Keyctl_search d) \<Rightarrow> ok\<lparr>rc := 9\<rparr>
     | Key (Keyctl_read i n) \<Rightarrow> ok\<lparr>rc := 2, bytes := [170, 187]\<rparr> | _ \<Rightarrow> ok)"

definition hmac_option :: string where
  "hmac_option = ''internal_hash:hmac(sha256)::dm-integrity-hmac-secret''"

lemma hmac_option_parts:
  "key_parts hmac_option = Some (''internal_hash:hmac(sha256)'', ''dm-integrity-hmac-secret'')"
  by (simp add: key_parts_def hmac_option_def keyOpts_def starts_with_def)

lemma key_env_serves: "keyring_serves key_env (\<lambda>_. [170, 187])"
  by (simp add: keyring_serves_def key_env_def ok_def lits)

lemma sample_hex: "hex_bytes [170, 187] = ''aabb''"
  by code_simp

theorem integrity_table_with_keys_witness:
  "wp (cominitGenIntegrityDmTbl (Some (rfsMeta_zero\<lparr>devicePath := ''/dev/sda2'', crypt := COMINIT_CRYPTOPT_INTEGRITY\<rparr>))
       (Some (integrity_text 978936 512 2 [hmac_option, ''fix_padding''])))
     (\<lambda>(e, r) w'. e = 0 \<and> dmTableVerint (the r)
        = ''/dev/sda2 0 - J 3 block_size:512 internal_hash:hmac(sha256):aabb fix_padding '') (start key_env 0)"
proof -
  let ?m = "rfsMeta_zero\<lparr>devicePath := ''/dev/sda2'', crypt := COMINIT_CRYPTOPT_INTEGRITY\<rparr>"
  have r: "map (resolved (\<lambda>_. [170, 187])) [hmac_option, ''fix_padding'']
      = [''internal_hash:hmac(sha256):aabb'', ''fix_padding'']"
    by (simp add: resolved_def hmac_option_parts sample_hex)
      (simp add: key_parts_def keyOpts_def starts_with_def)
  have t: "integrity_table (devicePath ?m) 512 2 [''internal_hash:hmac(sha256):aabb'', ''fix_padding'']
      = ''/dev/sda2 0 - J 3 block_size:512 internal_hash:hmac(sha256):aabb fix_padding ''"
    by (simp add: integrity_table_def udec.simps hex_digit_def)
  show ?thesis
    by (rule wp_mono [OF integrity_table_with_keys [where keys = "\<lambda>_. [170, 187]"]])
      (unfold r t, auto simp: key_env_serves word_text_def hmac_option_def lits)
qed

section \<open>Large keys\<close>

text \<open>C39: A key in the keyring that is larger than the buffer is not refused: the kernel reports its full
  length, and the conversion to hexadecimal then reads behind the end of the buffer.\<close>
theorem key_option_overflow:
  assumes "\<exists>k \<in> set keyOpts. starts_with opt k" and "find_sub ''::'' opt = Some (front, ''::'' @ desc)"
    and "desc \<noteq> []" "length desc < 4095" and "status w = Running"
    and "\<And>h. rc (env w h (Key (Keyctl_search desc))) \<noteq> - 1"
    and "\<And>h i. rc (env w h (Key (Keyctl_read i COMINIT_KEYRING_PAYLOAD_MAX_SIZE)))
           > int COMINIT_KEYRING_PAYLOAD_MAX_SIZE"
  shows "wp (integrity_option opt) (\<lambda>_ w'. status w' = Undefined OutOfBounds) w"
proof -
  define keyLen where "keyLen h i = rc (env w h (Key (Keyctl_read i COMINIT_KEYRING_PAYLOAD_MAX_SIZE)))" for h i
  have "keyLen h i \<noteq> - 1" "\<not> keyLen h i \<le> 0" "\<not> keyLen h i < 1"
    and "COMINIT_KEYRING_PAYLOAD_MAX_SIZE < nat (keyLen h i)" for h i
    using assms(7) [of h i] by (simp_all add: lits keyLen_def)
  note len = this
  have hex: "wp (cominitBytesToHex (Some d) (Some b) (nat (keyLen h i))) (\<lambda>_ w'. status w' = Undefined OutOfBounds) v"
    if "status v = Running" "length b = COMINIT_KEYRING_PAYLOAD_MAX_SIZE" for d b h i v
    unfolding cominitBytesToHex_def using len(3,4) [of h i] that
    by (auto intro!: vcg wp_mono [OF hex_loop_outside [OF that(1)]])
  show ?thesis
    unfolding integrity_option_def cominitKeyringGetKey_def
    using assms(1-6) len by (auto simp: wp_simps Let_def keyLen_def [symmetric] intro!: wp_mono [OF hex])
qed

definition large_key_env :: "event list \<Rightarrow> call \<Rightarrow> reply" where
  "large_key_env h c = (case c of Key (Keyctl_read i n) \<Rightarrow> ok\<lparr>rc := 513\<rparr> | _ \<Rightarrow> ok)"

theorem key_option_overflow_witness:
  "wp (integrity_option hmac_option) (\<lambda>_ w'. status w' = Undefined OutOfBounds) (start large_key_env 0)"
  by (rule key_option_overflow [where front = "''internal_hash:hmac(sha256)''" and desc = "''dm-integrity-hmac-secret''"])
    (auto simp: hmac_option_def keyOpts_def starts_with_def large_key_env_def ok_def lits)

section \<open>The name in the log\<close>

text \<open>The algorithm of the option for the journal's MAC is logged without its first two characters.\<close>
lemma hash_name_cut:
  "hashTmp ''internal_hash:hmac(sha256)::k'' = Some ''hmac(sha256)''" "hashTmp ''journal_mac:hmac(sha256)::k'' = Some ''ac(sha256)''"
  by (simp_all add: hashTmp_def keyOpts_def)

end
