(* ===== verification/Spec2Isabelle.thy ===== *)
theory Spec2Isabelle
  imports Boot_Complete Boot_Automaton Waiting Discovery Measurement Resources Storage_Key Meta_Keys
begin

text \<open>
  A model of Compact Init (cominit), the program an initramfs starts as process 1, and its
  properties.

  \<^bold>\<open>The program.\<close> cominit mounts the pseudo filesystems, waits for the device of the rootfs (given on the
  command line or found by its GPT type), reads the metadata region in the last 4096 bytes of the
  partition, verifies its signature with an RSA key of the initramfs, parses it, optionally extends a
  PCR and unseals or creates a secure storage with the TPM, sets up dm-verity or dm-integrity, mounts
  the rootfs, removes the initramfs, switches the root and starts \<^verbatim>\<open>/sbin/init\<close>. Every failure
  leads to a rescue shell.

  \<^bold>\<open>How calls are modelled.\<close> Theory \<open>Machine\<close> turns everything outside the sources (the kernel, the C
  library's I/O, mbedTLS, tpm2-tss) into calls answered by an arbitrary environment, a function of
  the calls so far and the present one. An operation is a state monad over a world with this
  environment, the trace of calls and replies, and the status of the process, which also records
  undefined behaviour. A theorem without a hypothesis on the environment holds for every behaviour
  of the outside world. String and number functions of the C library that the sources use are
  defined (\<open>CString\<close>, \<open>CNumber\<close>); build options and constants of foreign headers are fields of a
  record (\<open>Config\<close>).

  \<^bold>\<open>Theories and sources.\<close> The definitions have the names of the C functions; a definition with another
  name is a part of the function named in its text.
  \<^item> \<open>Output\<close>: src/output.c and the macros of inc/output.h, with \<open>Common\<close> for src/common.c and \<open>Version\<close> for
    src/version.c.in.
  \<^item> \<open>Options\<close>: the option structure of inc/common.h, the argument loop of \<^verbatim>\<open>main\<close>, and the parsers of
    src/cominit.c and src/tpm.c.
  \<^item> \<open>Keyring\<close>, \<open>Crypto\<close>, \<open>Subprocess\<close>, \<open>Cryptsetup\<close>, \<open>Securememory\<close>, \<open>Dmctl\<close>, \<open>Minsetup\<close>, \<open>Automount\<close>: the
    files of these names under src/.
  \<^item> \<open>Meta\<close>: src/meta.c; \<open>Meta_Format\<close>, \<open>Meta_Keys\<close> and \<open>Meta_Load\<close> hold properties of it.
  \<^item> \<open>Tpm\<close>: the rest of src/tpm.c; \<open>Sealing\<close> holds its properties, \<open>Storage_Key\<close> those of the passphrase on
    its way through src/crypto.c, src/securememory.c, src/tpm.c, src/keyring.c, src/cryptsetup.c and
    src/subprocess.c.
  \<^item> \<open>Cominit\<close>: src/cominit.c; \<open>Waiting\<close> and \<open>Discovery\<close> hold properties of the search for the root device,
    \<open>Measurement\<close> of the PCR extension, and \<open>Boot_Complete\<close>, \<open>Boot_Automaton\<close>, \<open>Resources\<close> and this theory
    of the whole program.

  State that the code keeps in structures is a record of the same name (\<open>cominitRfsMetaData_t\<close>,
  \<open>cominitCliArgs_t\<close>, \<open>cominitGPTDisk_t\<close>, \<open>cominitTpmContext_t\<close>, \<open>cominitLogContext_t\<close>), returned
  updated; a pointer argument is an option, \<open>None\<close> being \<^verbatim>\<open>NULL\<close>. Integers have the width of the source
  where they wrap; a signed time is an integer whose overflow is undefined behaviour. A write carries the
  buffer and the size the caller asks for, which need not fit. A buffer that is given back to the system is an argument of the call, so that the
  trace shows what it held.

  \<^bold>\<open>What is shown.\<close>
  \<^item> Verified boot: before an accepted signature over a region read from a device only harmless calls are
    made; what is mounted at \<^verbatim>\<open>/newroot\<close> is that device or a mapping of it by the table of the signed record; the init is started only in the new root; \<^verbatim>\<open>main\<close> refines a state machine from
    which the order of verification, mount, removal of the initramfs, switch and start follows; and
    on a machine that grants the calls the init of a plain or dm-verity rootfs is reached.
  \<^item> Resources: in every run what is acquired is given back once, and nothing is held when the init or
    the rescue shell is started.
  \<^item> Metadata: parsing reads back what the format writes, keys are put into dm-integrity options in
    hexadecimal, success implies an accepted signature over the bytes read from the record's own device; the reading loop ends if reads make progress.
  \<^item> Device mapper, mount and switch: the exact calls of a success, and what is refused.
  \<^item> TPM and secure storage: what an unsealed key rests on, when the storage is formatted, which PCRs
    the policy covers, that the passphrase is cleared, that cryptsetup gets the passphrase that is
    sealed, that later boots unseal this passphrase and never format again, and that the key is measured
    once and before anything is sealed or unsealed.
  \<^item> Discovery and waiting: the GPT scan implements a search in the list of entries, a root device
    found rests on what was read from a disk, at most ten waits.
  \<^item> Options, logging, subprocesses and the keyring: invariants and results of the single operations.
  \<^item> Where the code does not do what it means to (a region read in two parts, end of file, large keys,
    PCR indexes beyond the selection, an object the TPM does not create, a key the keyring does not give,
    interrupted sleeps, short writes), a theorem states what it does.

  \<^bold>\<open>Proof structure.\<close> \<open>emits\<close> bounds the calls of an operation, \<open>returns\<close> its results, \<open>wp\<close> describes both
  together; the rules of the collections \<open>emits_intros\<close>, \<open>returns_intros\<close>, \<open>wp_simps\<close> and \<open>vcg\<close> follow the
  structure of programs. The locale \<open>operation\<close> (with \<open>code_operation\<close> for operations returning one of
  two codes) states what a caller relies on and is interpreted for each operation another component
  calls; \<open>simulates\<close> of theory \<open>Simulation\<close> relates a program to a machine whose steps consume events,
  and is used for the phases of the boot, the resources held and the measurement; \<open>trace_property\<close>, \<open>tokeniser\<close> and \<open>fixed_codec\<close> serve traces, \<^verbatim>\<open>strtok_r\<close> and fixed-width numbers.

  \<^bold>\<open>Fuel and bounds.\<close> Four loops end only if the environment lets them: reading the region, the walk over
  the initramfs, the scan of \<^verbatim>\<open>/dev\<close>, and the sleep. They take at most \<open>fuel\<close> turns and then set \<open>Spinning\<close>. For reading,
  as much fuel as bytes suffices if every read makes progress (\<open>readall_terminates\<close>), and without
  progress no fuel does; more fuel than the initramfs has entries suffices for the walk
  (\<open>boot_reaches_init\<close>); a safety theorem holds for every fuel. The search for the rootfs has the
  bound of the source. Every other loop is structural.

  \<^bold>\<open>Not modelled.\<close> The log calls inside the components (the log function and its macros are), because their
  texts carry no state and would hide the calls that do (the algorithm name \<open>hashTmp\<close>, computed for a log
  message only, is defined beside the option it is taken from); the build and the tests, which are no part of
  the program. Undefined behaviour ends a run; what a compiler makes of it is not described.
\<close>

section \<open>Verified boot\<close>

text \<open>C1: Boot requires a signature. In every environment and for every command line, either the whole
  run of cominit consists of calls that are harmless before verification (pseudo filesystems, reads,
  the rescue shell), or it contains the reading of a metadata region from a device, the acceptance of the
  signature over the bytes read, nothing but harmless calls before the end of its parsing, and after it
  only what the boot does with exactly the record parsed from that region, which is a record for the device
  the region was read from and not a dm-crypt one.\<close>
theorem boot_requires_signature:
  "list_all quiet_event (trace_of_main E n cfg argv log) \<or> verified_run cfg (trace_of_main E n cfg argv log)"
  by (rule main_verifies)

text \<open>C2: Whatever is mounted at \<^verbatim>\<open>/newroot\<close> was signed. Every such mount is preceded by the reading of a metadata
  region, the acceptance of the signature over the bytes read, and their parsing, and it has the
  filesystem type and read-only flag of the record parsed. What is mounted is, for a plain record, the device the
  region was read from; otherwise it is the node of the device mapper, and every table that was loaded before is
  the one of this record.\<close>
theorem newroot_mount_signed: "newroot_is_signed cfg (trace_of_main E n cfg argv log)"
  using main_verifies verified_run_newroot quiet_newroot by blast

text \<open>C3: The init of the rootfs is started directly after four successful calls that make \<^verbatim>\<open>/newroot\<close> the
  root directory, and at no other point of any run.\<close>
theorem init_runs_in_newroot: "init_in_newroot (trace_of_main E n cfg argv log)"
proof -
  obtain a w where "run_state (main cfg argv log) (start E n) = (a, w)" by fastforce
  with main_init [of cfg argv log] show ?thesis
    unfolding trace_of_main_def by (auto dest: appendsD)
qed

text \<open>The texts printed before an early return.\<close>
definition exit_texts :: "config \<Rightarrow> early_exit \<Rightarrow> string list" where
  "exit_texts cfg x = (''Compact Init (cominit) version '' @ cominitGetVersionString cfg @ [CHR 0x0A])
     # (case x of PrintVersion \<Rightarrow> [] | PrintUsage \<Rightarrow> [usage_text])"

text \<open>C28: How cominit ends: it returns only \<^verbatim>\<open>EXIT_FAILURE\<close>. With \<^verbatim>\<open>--version\<close> or \<^verbatim>\<open>--help\<close> its only calls
  print the version, and in the second case the usage, to the standard output, and the log level is
  kept; otherwise the log level is the one given or the default, and the process still runs at the
  end only if the last call was a failed start of the rescue shell.\<close>
theorem main_outcome:
  "wp (main cfg argv log) (\<lambda>(r, log') w'. r = EXIT_FAILURE \<and>
     (case parse_args cfg argv (argCtx_init cfg) of
        Inl x \<Rightarrow> map fst (trace w') = map (\<lambda>s. Stream (Print_stdout s)) (exit_texts cfg x)
          \<and> status w' = Running \<and> log' = log
      | Inr args \<Rightarrow> visibleLevel log' = (if visibleLogLevel args = COMINIT_LOG_LEVEL_INVALID
            then COMINIT_LOG_LEVEL_INFO else visibleLogLevel args)
          \<and> (status w' = Running \<longrightarrow>
               (\<exists>pre r. trace w' = pre @ [(Proc (Execve ''/bin/sh'' [''/bin/sh'']), r)] \<and> rc r = - 1))))
     (start E n)"
proof (cases "parse_args cfg argv (argCtx_init cfg)")
  case (Inl x)
  then show ?thesis
    by (cases x) (simp_all add: main_def wp_simps cominitPrintVersion_def cominitPrintUsage_def exit_texts_def)
next
  case (Inr args)
  have resc: "wp rescue (\<lambda>a w'. a = EXIT_FAILURE \<and> (status w' = Running \<longrightarrow>
      (\<exists>pre r. trace w' = pre @ [(Proc (Execve ''/bin/sh'' [''/bin/sh'']), r)] \<and> rc r = - 1))) w" for w
    unfolding rescue_def execve_def by (simp add: wp_simps no_reply_def)
  show ?thesis
    unfolding main_def Inr sum.case
    by (auto simp: wp_simps cominitOutputSetVisibleLogLevel_def DEFAULT_LOG_LEVEL_def
        intro!: wpI [of "boot cfg args"] wp_mono [OF resc])
qed

theorem main_outcome_witness:
  "wp (main sample_config [''--version''] cominitLogContext_init)
     (\<lambda>(r, log') w'. r = EXIT_FAILURE \<and> log' = cominitLogContext_init
        \<and> map fst (trace w') = [Stream (Print_stdout (''Compact Init (cominit) version 0.12.2'' @ [CHR 0x0A]))])
     (start sample_env 1)"
proof -
  have p: "parse_args sample_config [''--version''] (argCtx_init sample_config) = Inl PrintVersion"
    by (simp add: parse_arg_def cominitParamCheck_def)
  have v: "cominitGetVersionString sample_config = ''0.12.2''"
    by (simp add: cominitGetVersionString_def sample_config_def default_config_def)
  show ?thesis
    by (rule wp_mono [OF main_outcome [of sample_config "[''--version'']" cominitLogContext_init sample_env 1]])
      (unfold p, auto simp: v exit_texts_def)
qed

end
